(* ===== verification/Prelude.thy ===== *)
theory Prelude
  imports Main "HOL-Library.Word" "HOL-Library.AList" "HOL-Library.List_Lexorder"
begin

text \<open>
  Shared vocabulary of the development.

  \<^item> Machine integers are words (\<open>u8\<close>, \<open>u16\<close>, \<open>u32\<close>, \<open>u64\<close>): arithmetic wraps, as
    it does in the release build of the Rust crates (no profile turns overflow checks on).
  \<^item> The result of a fallible Rust computation is an \<open>outcome\<close>: a value, an error of the
    function's error type, a panic, or \<open>Diverge\<close> for a loop that has not ended within its fuel.
  \<^item> Stateful code is an \<open>act\<close>: a function from the state to an outcome and the state left
    behind.  The state is returned on every branch, since a Rust method that leaves with an error
    keeps the mutations it has made.
  \<^item> A \<open>HashMap\<close> that the code iterates over is an association list with distinct keys, in the
    (arbitrary) order of iteration; a \<open>HashMap\<close> that is only looked up is a partial function.
\<close>

section \<open>Machine types\<close>

type_synonym u8 = "8 word"
type_synonym u16 = "16 word"
type_synonym u32 = "32 word"
type_synonym u64 = "64 word"
type_synonym byte = "8 word"
type_synonym bytes = "8 word list"

text \<open>A value of an error type that a third-party crate defines: only its identity matters.\<close>

type_synonym lib_error = nat

datatype IpAddr = V4 byte byte byte byte | V6 "u16 list"

datatype SocketAddr = SocketAddr (ip: IpAddr) (port: u16)

named_theorems act_simps \<open>evaluation of actions\<close>
named_theorems keeps_intros \<open>relations between the states before and after an action\<close>

text \<open>\<open>u64::to_le_bytes\<close>, and the inverse reading of eight bytes.\<close>

definition le_bytes64 :: "u64 \<Rightarrow> bytes" where
  "le_bytes64 w = map (\<lambda>i. ucast (drop_bit (8 * i) w)) [0..<8]"

fun of_le_bytes :: "bytes \<Rightarrow> u64" where
  "of_le_bytes [] = 0"
| "of_le_bytes (b # bs) = ucast b + 256 * of_le_bytes bs"

section \<open>Outcomes and actions\<close>

datatype ('e, 'a) outcome = Ok 'a | Err 'e | Panic string | Diverge

fun bindO :: "('e, 'a) outcome \<Rightarrow> ('a \<Rightarrow> ('e, 'b) outcome) \<Rightarrow> ('e, 'b) outcome" where
  "bindO (Ok a) f = f a"
| "bindO (Err e) f = Err e"
| "bindO (Panic p) f = Panic p"
| "bindO Diverge f = Diverge"

fun map_err :: "('e \<Rightarrow> 'f) \<Rightarrow> ('e, 'a) outcome \<Rightarrow> ('f, 'a) outcome" where
  "map_err h (Ok a) = Ok a"
| "map_err h (Err e) = Err (h e)"
| "map_err h (Panic p) = Panic p"
| "map_err h Diverge = Diverge"

text \<open>The \<open>ensure!\<close> macro.\<close>

definition ensure :: "bool \<Rightarrow> 'e \<Rightarrow> ('e, unit) outcome" where
  "ensure b e = (if b then Ok () else Err e)"

definition unwrap_sum :: "'l + 'a \<Rightarrow> string \<Rightarrow> ('e, 'a) outcome" where
  "unwrap_sum r msg = (case r of Inl _ \<Rightarrow> Panic msg | Inr a \<Rightarrow> Ok a)"

definition of_sum :: "'e + 'a \<Rightarrow> ('e, 'a) outcome" where
  "of_sum r = (case r of Inl e \<Rightarrow> Err e | Inr a \<Rightarrow> Ok a)"

type_synonym ('s, 'e, 'a) act = "'s \<Rightarrow> ('e, 'a) outcome \<times> 's"

definition retM :: "'a \<Rightarrow> ('s, 'e, 'a) act" where
  "retM a s = (Ok a, s)"

definition liftO :: "('e, 'a) outcome \<Rightarrow> ('s, 'e, 'a) act" where
  "liftO r s = (r, s)"

definition getM :: "('s \<Rightarrow> 'a) \<Rightarrow> ('s, 'e, 'a) act" where
  "getM f s = (Ok (f s), s)"

definition modM :: "('s \<Rightarrow> 's) \<Rightarrow> ('s, 'e, unit) act" where
  "modM f s = (Ok (), f s)"

definition bindM :: "('s, 'e, 'a) act \<Rightarrow> ('a \<Rightarrow> ('s, 'e, 'b) act) \<Rightarrow> ('s, 'e, 'b) act" where
  "bindM m f s = (case m s of
      (Ok a, s') \<Rightarrow> f a s'
    | (Err e, s') \<Rightarrow> (Err e, s')
    | (Panic p, s') \<Rightarrow> (Panic p, s')
    | (Diverge, s') \<Rightarrow> (Diverge, s'))"

definition thenM :: "('s, 'e, 'a) act \<Rightarrow> ('s, 'e, 'b) act \<Rightarrow> ('s, 'e, 'b) act" where
  "thenM m k = bindM m (\<lambda>_. k)"

definition whenM :: "bool \<Rightarrow> ('s, 'e, unit) act \<Rightarrow> ('s, 'e, unit) act" where
  "whenM b m = (if b then m else retM ())"

text \<open>A \<open>for\<close> loop over a list whose body may leave early with an error.\<close>

fun forM :: "'a list \<Rightarrow> ('a \<Rightarrow> ('s, 'e, unit) act) \<Rightarrow> ('s, 'e, unit) act" where
  "forM [] f = retM ()"
| "forM (x # xs) f = thenM (f x) (forM xs f)"

text \<open>The relation \<open>R\<close> holds between the states before and after the action, on every branch.\<close>

definition keeps :: "('s \<Rightarrow> 's \<Rightarrow> bool) \<Rightarrow> ('s, 'e, 'a) act \<Rightarrow> bool" where
  "keeps R m \<longleftrightarrow> (\<forall>s. R s (snd (m s)))"

section \<open>Lemmas on actions\<close>

lemma retM_run [act_simps]: "retM a s = (Ok a, s)" by (simp add: retM_def)
lemma liftO_run [act_simps]: "liftO r s = (r, s)" by (simp add: liftO_def)
lemma getM_run [act_simps]: "getM f s = (Ok (f s), s)" by (simp add: getM_def)
lemma modM_run [act_simps]: "modM f s = (Ok (), f s)" by (simp add: modM_def)
lemma whenM_run [act_simps]: "whenM b m s = (if b then m s else (Ok (), s))"
  by (simp add: whenM_def retM_def)

lemma bindM_ret [act_simps]: "bindM (retM a) f = f a"
  by (rule ext) (simp add: bindM_def retM_def)
lemma bindM_liftO [act_simps]:
  "bindM (liftO (Ok a)) f = f a" "bindM (liftO (Err e)) f = liftO (Err e)"
  "bindM (liftO (Panic p)) f = liftO (Panic p)" "bindM (liftO Diverge) f = liftO Diverge"
  by (simp_all add: fun_eq_iff bindM_def liftO_def)
lemma bindM_getM [act_simps]: "bindM (getM g) f s = f (g s) s"
  by (simp add: bindM_def getM_def)
lemma bindM_modM [act_simps]: "bindM (modM g) f s = f () (g s)"
  by (simp add: bindM_def modM_def)

lemma bindM_Ok [act_simps]: "m s = (Ok a, s') \<Longrightarrow> bindM m f s = f a s'"
  and bindM_Err [act_simps]: "m s = (Err e, s') \<Longrightarrow> bindM m f s = (Err e, s')"
  and bindM_Panic [act_simps]: "m s = (Panic p, s') \<Longrightarrow> bindM m f s = (Panic p, s')"
  and bindM_Diverge [act_simps]: "m s = (Diverge, s') \<Longrightarrow> bindM m f s = (Diverge, s')"
  by (simp_all add: bindM_def)

lemma thenM_Ok [act_simps]: "m s = (Ok a, s') \<Longrightarrow> thenM m k s = k s'"
  and thenM_Err [act_simps]: "m s = (Err e, s') \<Longrightarrow> thenM m k s = (Err e, s')"
  and thenM_Panic [act_simps]: "m s = (Panic p, s') \<Longrightarrow> thenM m k s = (Panic p, s')"
  and thenM_Diverge [act_simps]: "m s = (Diverge, s') \<Longrightarrow> thenM m k s = (Diverge, s')"
  by (simp_all add: thenM_def bindM_def)

lemma bindM_cases:
  assumes "bindM m f s = (r, s2)"
  obtains a s1 where "m s = (Ok a, s1)" "f a s1 = (r, s2)"
    | e where "m s = (Err e, s2)" "r = Err e"
    | p where "m s = (Panic p, s2)" "r = Panic p"
    | "m s = (Diverge, s2)" "r = Diverge"
  using assms by (cases "m s") (auto simp: bindM_def split: outcome.splits)

lemma thenM_cases:
  assumes "thenM m k s = (r, s2)"
  obtains a s1 where "m s = (Ok a, s1)" "k s1 = (r, s2)"
    | e where "m s = (Err e, s2)" "r = Err e"
    | p where "m s = (Panic p, s2)" "r = Panic p"
    | "m s = (Diverge, s2)" "r = Diverge"
  using assms unfolding thenM_def by (rule bindM_cases)

lemma bindM_OkE:
  assumes "bindM m f s = (Ok b, s2)"
  obtains a s1 where "m s = (Ok a, s1)" "f a s1 = (Ok b, s2)"
  using assms by (rule bindM_cases) auto

lemma thenM_OkE:
  assumes "thenM m k s = (Ok b, s2)"
  obtains a s1 where "m s = (Ok a, s1)" "k s1 = (Ok b, s2)"
  using assms by (rule thenM_cases) auto

lemma bindO_Ok_iff: "bindO r f = Ok b \<longleftrightarrow> (\<exists>a. r = Ok a \<and> f a = Ok b)"
  by (cases r) auto

lemma map_err_Ok_iff [simp]: "map_err h r = Ok a \<longleftrightarrow> r = Ok a"
  by (cases r) auto

lemma ensure_Ok_iff [simp]: "ensure b e = Ok u \<longleftrightarrow> b"
  by (simp add: ensure_def)

lemma ensure_Panic [simp]: "ensure b e \<noteq> Panic p" "ensure b e \<noteq> Diverge"
  by (simp_all add: ensure_def)

lemma keeps_if: "keeps R m \<Longrightarrow> keeps R k \<Longrightarrow> keeps R (if b then m else k)"
  by simp

lemma keeps_option:
  "keeps R m \<Longrightarrow> (\<And>x. keeps R (f x)) \<Longrightarrow> keeps R (case r of None \<Rightarrow> m | Some x \<Rightarrow> f x)"
  by (cases r) auto

lemma keeps_option_res:
  "(r = None \<Longrightarrow> keeps R m) \<Longrightarrow> (\<And>x. r = Some x \<Longrightarrow> keeps R (f x)) \<Longrightarrow>
    keeps R (case r of None \<Rightarrow> m | Some x \<Rightarrow> f x)"
  by (cases r) auto

lemma keeps_sum:
  "(\<And>x. keeps R (f x)) \<Longrightarrow> (\<And>x. keeps R (g x)) \<Longrightarrow> keeps R (case r of Inl x \<Rightarrow> f x | Inr x \<Rightarrow> g x)"
  by (cases r) auto

lemma keeps_prod: "(\<And>x y. keeps R (f x y)) \<Longrightarrow> keeps R (case r of (x, y) \<Rightarrow> f x y)"
  by (cases r) auto

lemma keepsD: "keeps R m \<Longrightarrow> m s = (r, s') \<Longrightarrow> R s s'"
  by (metis keeps_def snd_conv)

text \<open>Actions that never run out of fuel.\<close>

definition ends :: "('s, 'e, 'a) act \<Rightarrow> bool" where
  "ends m \<longleftrightarrow> (\<forall>s. fst (m s) \<noteq> Diverge)"

lemma ends_ret: "ends (retM a)" by (simp add: ends_def retM_def)
lemma ends_get: "ends (getM f)" by (simp add: ends_def getM_def)
lemma ends_mod: "ends (modM f)" by (simp add: ends_def modM_def)
lemma ends_lift: "r \<noteq> Diverge \<Longrightarrow> ends (liftO r)" by (simp add: ends_def liftO_def)
lemma ends_bind: "ends m \<Longrightarrow> (\<And>a. ends (f a)) \<Longrightarrow> ends (bindM m f)"
  unfolding ends_def
proof (intro allI)
  fix s assume m: "\<forall>s. fst (m s) \<noteq> Diverge" and f: "\<And>a. \<forall>s. fst (f a s) \<noteq> Diverge"
  obtain r s' where "m s = (r, s')" by (cases "m s")
  with m [rule_format, of s] f show "fst (bindM m f s) \<noteq> Diverge"
    by (cases r) (auto simp: bindM_def)
qed
lemma ends_then: "ends m \<Longrightarrow> ends k \<Longrightarrow> ends (thenM m k)"
  unfolding thenM_def by (rule ends_bind)
lemma ends_when: "ends m \<Longrightarrow> ends (whenM b m)"
  by (simp add: whenM_def ends_ret)
lemma ends_if: "ends m \<Longrightarrow> ends k \<Longrightarrow> ends (if b then m else k)"
  by simp
lemma ends_option: "ends m \<Longrightarrow> (\<And>x. ends (f x)) \<Longrightarrow> ends (case r of None \<Rightarrow> m | Some x \<Rightarrow> f x)"
  by (cases r) auto
lemma ends_sum: "(\<And>x. ends (f x)) \<Longrightarrow> (\<And>x. ends (g x)) \<Longrightarrow>
    ends (case r of Inl x \<Rightarrow> f x | Inr x \<Rightarrow> g x)"
  by (cases r) auto
lemma ends_prod: "(\<And>x y. ends (f x y)) \<Longrightarrow> ends (case r of (x, y) \<Rightarrow> f x y)"
  by (cases r) auto
lemma ends_for: "(\<And>x. ends (f x)) \<Longrightarrow> ends (forM xs f)"
  by (induction xs) (auto intro: ends_ret ends_then)

lemmas ends_rules = ends_ret ends_get ends_mod ends_bind ends_then ends_when ends_if ends_option
  ends_sum ends_prod ends_for

lemma bindO_Diverge_iff [simp]:
  "bindO r f = Diverge \<longleftrightarrow> r = Diverge \<or> (\<exists>a. r = Ok a \<and> f a = Diverge)"
  by (cases r) auto

lemma map_err_not_Diverge [simp]: "map_err h r = Diverge \<longleftrightarrow> r = Diverge"
  by (cases r) auto

text \<open>
  A preorder on states is kept by a composite action when its parts keep it.  Every monotonicity
  statement about a handler (rounds, certificates, logs) is an instance.
\<close>

locale state_preorder =
  fixes R :: "'s \<Rightarrow> 's \<Rightarrow> bool"
  assumes R_refl: "R s s"
    and R_trans: "R s t \<Longrightarrow> R t u \<Longrightarrow> R s u"
begin

lemma keeps_ret: "keeps R (retM a)"
  by (simp add: keeps_def retM_def R_refl)

lemma keeps_lift: "keeps R (liftO r)"
  by (simp add: keeps_def liftO_def R_refl)

lemma keeps_get: "keeps R (getM f)"
  by (simp add: keeps_def getM_def R_refl)

lemma keeps_mod: "(\<And>s. R s (f s)) \<Longrightarrow> keeps R (modM f)"
  by (simp add: keeps_def modM_def)

lemma keeps_bind: "keeps R m \<Longrightarrow> (\<And>a. keeps R (f a)) \<Longrightarrow> keeps R (bindM m f)"
  unfolding keeps_def bindM_def
  by (auto split: prod.splits outcome.splits) (metis R_trans snd_conv)+

lemma keeps_bind_res:
  assumes "keeps R m" and "\<And>s a s'. m s = (Ok a, s') \<Longrightarrow> keeps R (f a)"
  shows "keeps R (bindM m f)"
  unfolding keeps_def
proof
  fix s
  obtain r s' where m: "m s = (r, s')" by (cases "m s")
  then have "R s s'" using assms(1) by (metis keeps_def snd_conv)
  then show "R s (snd (bindM m f s))"
    using m assms(2) [of s _ s'] by (cases r) (auto simp: bindM_def keeps_def intro: R_trans)
qed

lemma keeps_then: "keeps R m \<Longrightarrow> keeps R k \<Longrightarrow> keeps R (thenM m k)"
  unfolding thenM_def by (rule keeps_bind)

lemma keeps_when: "keeps R m \<Longrightarrow> keeps R (whenM b m)"
  by (simp add: whenM_def keeps_ret)

lemma keeps_for: "(\<And>x. keeps R (f x)) \<Longrightarrow> keeps R (forM xs f)"
  by (induction xs) (auto intro: keeps_ret keeps_then)

lemmas keeps_rules = keeps_ret keeps_lift keeps_get keeps_bind keeps_then keeps_when keeps_for
  keeps_if keeps_option keeps_sum keeps_prod

end

text \<open>
  An invariant is the preorder "holds after if it held before"; inside its proof a value read from
  the state, a checked result and an intermediate result may be used.
\<close>

definition inv_rel :: "('s \<Rightarrow> bool) \<Rightarrow> 's \<Rightarrow> 's \<Rightarrow> bool" where
  "inv_rel I s s' \<longleftrightarrow> (I s \<longrightarrow> I s')"

locale state_invariant =
  fixes I :: "'s \<Rightarrow> bool"

sublocale state_invariant \<subseteq> state_preorder "inv_rel I"
  by unfold_locales (auto simp: inv_rel_def)

context state_invariant
begin

lemma inv_get:
  assumes "\<And>s. I s \<Longrightarrow> f s = v" "keeps (inv_rel I) (k v)"
  shows "keeps (inv_rel I) (bindM (getM f) k)"
  using assms by (auto simp: keeps_def inv_rel_def bindM_getM)

lemma inv_lift:
  assumes "\<And>a. r = Ok a \<Longrightarrow> keeps (inv_rel I) (k a)"
  shows "keeps (inv_rel I) (bindM (liftO r) k)"
  using assms by (cases r) (auto simp: bindM_liftO intro: keeps_lift)

lemma inv_then_lift:
  assumes "\<And>a. r = Ok a \<Longrightarrow> keeps (inv_rel I) k"
  shows "keeps (inv_rel I) (thenM (liftO r) k)"
  unfolding thenM_def using assms by (intro inv_lift)

lemma inv_bind_res:
  assumes "keeps (inv_rel I) m"
    and "\<And>s a s'. I s \<Longrightarrow> m s = (Ok a, s') \<Longrightarrow> keeps (inv_rel I) (f a)"
  shows "keeps (inv_rel I) (bindM m f)"
  unfolding keeps_def
proof
  fix s
  obtain r s' where m: "m s = (r, s')" by (cases "m s")
  then have "inv_rel I s s'" using assms(1) by (metis keeps_def snd_conv)
  then show "inv_rel I s (snd (bindM m f s))"
    using m assms(2) [of s _ s'] by (cases r) (auto simp: bindM_def keeps_def inv_rel_def)
qed

lemma inv_mod: "(\<And>s. I s \<Longrightarrow> I (f s)) \<Longrightarrow> keeps (inv_rel I) (modM f)"
  by (rule keeps_mod) (simp add: inv_rel_def)

lemma invD: "keeps (inv_rel I) m \<Longrightarrow> I s \<Longrightarrow> I (snd (m s))"
  by (simp add: keeps_def inv_rel_def)

end

section \<open>Lists and maps\<close>

lemma sum_list_map_filter_le: "sum_list (map f (filter P xs)) \<le> (sum_list (map f xs) :: nat)"
  by (induction xs) auto

lemma sum_list_distinct_sum:
  "distinct xs \<Longrightarrow> sum_list (map f xs) = (\<Sum>x\<in>set xs. f x)"
  by (rule sum_list_distinct_conv_sum_set)

lemma map_of_distinct_sum:
  assumes "distinct (map fst m)"
  shows "sum_list (map (\<lambda>p. f (fst p) (snd p)) m)
    = (\<Sum>k\<in>fst ` set m. f k (the (map_of m k)))"
  using assms by (induction m) (force intro!: sum.cong arg_cong2 [where f = "(+)"])+

lemma mod_add_cancel: "(a + i) mod n = (a + j) mod (n::nat) \<Longrightarrow> i mod n = j mod n"
  by (auto simp: mod_eq_iff_dvd_symdiff_nat)

lemma length_le_bytes64 [simp]: "length (le_bytes64 w) = 8"
  by (simp add: le_bytes64_def)

end
