(* ===== verification/Quorum.thy ===== *)
theory Quorum
  imports Prelude
begin

text \<open>
  Interfaces that several components share: a weighted quorum system (the committees of the
  consensus and of the mempool crate) and round-robin leader election (the consensus leader elector
  and the aggregator choice of an operator committee).  Both are interpreted in the theories of the
  components that provide them.
\<close>

section \<open>Weighted quorums\<close>

locale quorum_system =
  fixes valid :: "'c \<Rightarrow> bool"
    and members :: "'c \<Rightarrow> 'k set"
    and weight :: "'c \<Rightarrow> 'k \<Rightarrow> nat"
    and quorum :: "'c \<Rightarrow> nat"
  assumes members_finite: "valid c \<Longrightarrow> finite (members c)"
    and quorum_eq: "valid c \<Longrightarrow> quorum c = 2 * sum (weight c) (members c) div 3 + 1"
begin

lemma weight_split:
  assumes "valid c" "A \<subseteq> members c"
  shows "sum (weight c) A + sum (weight c) (members c - A) = sum (weight c) (members c)"
  using assms members_finite [OF assms(1)]
  by (metis Diff_disjoint Diff_partition finite_Diff finite_subset sum.union_disjoint)

lemma weight_mono:
  assumes "valid c" "A \<subseteq> members c"
  shows "sum (weight c) A \<le> sum (weight c) (members c)"
  using weight_split [OF assms] by linarith

text \<open>What is left of a quorum's complement is less than a quorum.\<close>

lemma rest_lt_quorum:
  assumes "valid c" "A \<subseteq> members c" "quorum c \<le> sum (weight c) A"
  shows "sum (weight c) (members c - A) < quorum c"
  using weight_split [OF assms(1,2)] assms(3) quorum_eq [OF assms(1)] by linarith

text \<open>Two quorums share more than a third of the weight.\<close>

lemma quorums_intersect:
  assumes "valid c" "A \<subseteq> members c" "B \<subseteq> members c"
    and "quorum c \<le> sum (weight c) A" "quorum c \<le> sum (weight c) B"
  shows "sum (weight c) (members c) < 3 * sum (weight c) (A \<inter> B)"
proof -
  have fin: "finite A" "finite B"
    using assms members_finite [OF assms(1)] by (auto intro: finite_subset)
  have "sum (weight c) (A \<union> B) + sum (weight c) (A \<inter> B) = sum (weight c) A + sum (weight c) B"
    using fin by (rule sum.union_inter)
  moreover have "sum (weight c) (A \<union> B) \<le> sum (weight c) (members c)"
    using assms by (intro weight_mono) auto
  ultimately show ?thesis
    using assms quorum_eq [OF assms(1)] by linarith
qed

text \<open>With less than a third of the weight faulty, two quorums share a member that is not.\<close>

lemma quorums_share_correct:
  assumes "valid c" "A \<subseteq> members c" "B \<subseteq> members c"
    and "quorum c \<le> sum (weight c) A" "quorum c \<le> sum (weight c) B"
    and "F \<subseteq> members c" "3 * sum (weight c) F < sum (weight c) (members c)"
  shows "\<exists>k \<in> A \<inter> B. k \<notin> F"
proof (rule ccontr)
  assume "\<not> ?thesis"
  then have "A \<inter> B \<subseteq> F" by auto
  moreover have "finite F" using assms members_finite [OF assms(1)] finite_subset by blast
  ultimately have "sum (weight c) (A \<inter> B) \<le> sum (weight c) F"
    by (intro sum_mono2) auto
  with quorums_intersect [OF assms(1-5)] assms(7) show False by linarith
qed

text \<open>The threshold is the total weight less the largest tolerable fault weight.\<close>

lemma quorum_is_n_minus_f:
  assumes "valid c" "0 < sum (weight c) (members c)"
  shows "quorum c = sum (weight c) (members c) - (sum (weight c) (members c) - 1) div 3"
  using quorum_eq [OF assms(1)] assms(2) by linarith

end

section \<open>Round-robin leaders\<close>

locale round_robin =
  fixes keys :: "'c \<Rightarrow> 'k list"
    and leader :: "'c \<Rightarrow> u64 \<Rightarrow> ('e, 'k) outcome"
  assumes leader_eq: "keys c \<noteq> [] \<Longrightarrow> length (keys c) < 2 ^ 64 \<Longrightarrow>
      leader c r = Ok (keys c ! (unat r mod length (keys c)))"
    and leader_empty: "keys c = [] \<Longrightarrow> \<exists>p. leader c r = Panic p"
begin

lemma leader_member:
  assumes "keys c \<noteq> []" "length (keys c) < 2 ^ 64"
  shows "\<exists>k \<in> set (keys c). leader c r = Ok k"
  using assms leader_eq [OF assms, of r] by (simp add: nth_mem)

lemma leader_total:
  assumes "length (keys c) < 2 ^ 64"
  shows "(\<exists>k. leader c r = Ok k) \<longleftrightarrow> keys c \<noteq> []"
  using leader_eq [OF _ assms, of r] leader_empty [of c r] by (cases "keys c = []") auto

lemma succ_round:
  assumes "unat (r::u64) + n \<le> 2 ^ 64" "i < n"
  shows "unat (r + of_nat i) = unat r + i"
  using assms by (subst unat_word_ariths) (simp add: unat_of_nat take_bit_nat_eq_self_iff)

text \<open>
  Among any \<open>length (keys c)\<close> successive rounds that do not overflow, every key leads, and leads once.
\<close>

lemma leader_fair:
  assumes k: "k \<in> set (keys c)" and len: "length (keys c) < 2 ^ 64"
    and small: "unat r + length (keys c) \<le> 2 ^ 64"
  shows "\<exists>i < length (keys c). leader c (r + of_nat i) = Ok k"
proof -
  define n where "n = length (keys c)"
  have n: "0 < n" using k by (cases "keys c") (auto simp: n_def)
  obtain j where j: "j < n" "keys c ! j = k"
    using k by (auto simp: in_set_conv_nth n_def)
  define i where "i = (j + n - unat r mod n) mod n"
  have i: "i < n" using n by (simp add: i_def)
  have "(unat r + i) mod n = (unat r mod n + (j + n - unat r mod n)) mod n"
    unfolding i_def by (simp add: mod_simps)
  also have "unat r mod n + (j + n - unat r mod n) = j + n"
    using mod_less_divisor [OF n, of "unat r"] by linarith
  also have "(j + n) mod n = j"
    using j by simp
  finally have "(unat r + i) mod n = j" .
  then have "leader c (r + of_nat i) = Ok k"
    using leader_eq [of c "r + of_nat i"] succ_round [OF small, of i] i j n len by (auto simp: n_def)
  with i show ?thesis by (auto simp: n_def)
qed

lemma leader_inj:
  assumes d: "distinct (keys c)" and len: "length (keys c) < 2 ^ 64"
    and small: "unat r + length (keys c) \<le> 2 ^ 64"
    and i: "i < length (keys c)" "j < length (keys c)"
    and eq: "leader c (r + of_nat i) = leader c (r + of_nat j)"
  shows "i = j"
proof -
  define n where "n = length (keys c)"
  have ne: "keys c \<noteq> []" using i by auto
  have "(unat r + i) mod n = (unat r + j) mod n"
  proof -
    have "keys c ! ((unat r + i) mod n) = keys c ! ((unat r + j) mod n)"
      using eq leader_eq [OF ne len] succ_round [OF small i(1)] succ_round [OF small i(2)]
      by (simp add: n_def)
    moreover have "(unat r + i) mod n < n" "(unat r + j) mod n < n" using i by (auto simp: n_def intro: mod_less_divisor)
    ultimately show ?thesis using d by (simp add: n_def nth_eq_iff_index_eq)
  qed
  then have "i mod n = j mod n" by (rule mod_add_cancel)
  then show ?thesis using i by (simp add: n_def)
qed

text \<open>The order of iteration over the table does not matter: equal sorted keys, equal leader.\<close>

lemma leader_agree:
  assumes "keys c = keys d" "keys c \<noteq> []" "length (keys c) < 2 ^ 64"
  shows "leader c r = leader d r"
  using assms leader_eq [of c r] leader_eq [of d r] by simp

end

end
