(* ===== verification/HsCrypto.thy ===== *)
theory HsCrypto
  imports Prelude
begin

text \<open>
  Digests, keys and signatures of the consensus layer (\<open>src/hotstuff/crypto/src/lib.rs\<close>).

  The \<open>secp256k1\<close>, \<open>sha2\<close> and \<open>base64\<close> crates are parameters: the record \<open>crypto_lib\<close> has one
  field per library function the code calls, and every definition that reaches one of them takes
  such a record.  The arrays \<open>[u8; 32]\<close>, \<open>[u8; 33]\<close> of the code are byte lists; the length that
  the Rust type fixes is the predicate \<open>digest_wf\<close>, \<open>public_key_wf\<close> or \<open>signature_wf\<close>.
\<close>

section \<open>Types\<close>

type_synonym Digest = bytes
type_synonym PublicKey = bytes
type_synonym SecretKey = bytes
type_synonym CryptoError = lib_error

record Signature =
  part1 :: bytes
  part2 :: bytes

definition Digest_default :: Digest where
  "Digest_default = replicate 32 0"

definition PublicKey_default :: PublicKey where
  "PublicKey_default = replicate 33 0"

definition Signature_default :: Signature where
  "Signature_default = \<lparr>part1 = replicate 32 0, part2 = replicate 32 0\<rparr>"

definition digest_wf :: "Digest \<Rightarrow> bool" where "digest_wf d \<longleftrightarrow> length d = 32"
definition public_key_wf :: "PublicKey \<Rightarrow> bool" where "public_key_wf k \<longleftrightarrow> length k = 33"
definition signature_wf :: "Signature \<Rightarrow> bool" where
  "signature_wf s \<longleftrightarrow> length (part1 s) = 32 \<and> length (part2 s) = 32"

text \<open>
  The library functions: \<open>ecdsa::Signature::from_compact\<close>, \<open>Message::from_slice\<close>,
  \<open>PublicKey::from_slice\<close>, \<open>SecretKey::from_slice\<close>, \<open>Secp256k1::verify_ecdsa\<close>,
  \<open>sign_ecdsa(..).serialize_compact()\<close>, SHA-512, base64 encoding and decoding.
\<close>

record crypto_lib =
  from_compact :: "bytes \<Rightarrow> lib_error + bytes"
  msg_from_slice :: "bytes \<Rightarrow> lib_error + bytes"
  pk_from_slice :: "bytes \<Rightarrow> lib_error + bytes"
  sk_from_slice :: "bytes \<Rightarrow> lib_error + bytes"
  verify_ecdsa :: "bytes \<Rightarrow> bytes \<Rightarrow> bytes \<Rightarrow> lib_error + unit"
  sign_compact :: "bytes \<Rightarrow> bytes \<Rightarrow> bytes"
  sha512 :: "bytes \<Rightarrow> bytes"
  base64_encode :: "bytes \<Rightarrow> string"
  base64_decode :: "string \<Rightarrow> lib_error + bytes"

section \<open>Operations\<close>

definition sha512_32 :: "'z crypto_lib_scheme \<Rightarrow> bytes \<Rightarrow> Digest" where
  "sha512_32 L b = take 32 (sha512 L b)"

text \<open>\<open>try_into\<close> of a slice to a 32-byte array.\<close>

definition Digest_try_from :: "bytes \<Rightarrow> unit + Digest" where
  "Digest_try_from item = (if length item = 32 then Inr item else Inl ())"

definition PublicKey_encode_base64 :: "'z crypto_lib_scheme \<Rightarrow> PublicKey \<Rightarrow> string" where
  "PublicKey_encode_base64 L k = base64_encode L k"

text \<open>
  \<open>decode_base64\<close>: the slice expression \<open>bytes[..33]\<close> panics when fewer than 33 bytes were
  decoded; on a slice of length 33 the conversion to an array cannot fail.
\<close>

definition PublicKey_decode_base64 ::
  "'z crypto_lib_scheme \<Rightarrow> string \<Rightarrow> (lib_error, PublicKey) outcome" where
  "PublicKey_decode_base64 L s = (case base64_decode L s of
      Inl e \<Rightarrow> Err e
    | Inr b \<Rightarrow> if length b < 33 then Panic ''range end index 33 out of range'' else Ok (take 33 b))"

definition SecretKey_encode_base64 :: "'z crypto_lib_scheme \<Rightarrow> SecretKey \<Rightarrow> string" where
  "SecretKey_encode_base64 L k = base64_encode L k"

definition SecretKey_decode_base64 ::
  "'z crypto_lib_scheme \<Rightarrow> string \<Rightarrow> (lib_error, SecretKey) outcome" where
  "SecretKey_decode_base64 L s = (case base64_decode L s of
      Inl e \<Rightarrow> Err e
    | Inr b \<Rightarrow> if length b < 32 then Panic ''range end index 32 out of range'' else Ok (take 32 b))"

text \<open>\<open>Drop for SecretKey\<close>: the memory left behind.\<close>

definition SecretKey_drop :: "SecretKey \<Rightarrow> bytes" where
  "SecretKey_drop k = map (\<lambda>_. 0) k"

definition Signature_new ::
  "'z crypto_lib_scheme \<Rightarrow> Digest \<Rightarrow> SecretKey \<Rightarrow> (CryptoError, Signature) outcome" where
  "Signature_new L digest secret =
    bindO (unwrap_sum (sk_from_slice L secret) ''Unable to load secret key'') (\<lambda>secret_key.
    bindO (unwrap_sum (msg_from_slice L digest)
      ''messages must be 32 bytes and are expected to be hashes'') (\<lambda>message.
    let sig = sign_compact L secret_key message in
    if length sig < 64 then Panic ''Unexpected signature length''
    else Ok \<lparr>part1 = take 32 sig, part2 = take 32 (drop 32 sig)\<rparr>))"

definition flatten :: "Signature \<Rightarrow> bytes" where
  "flatten s = part1 s @ part2 s"

definition Signature_verify ::
  "'z crypto_lib_scheme \<Rightarrow> Signature \<Rightarrow> Digest \<Rightarrow> PublicKey \<Rightarrow> (CryptoError, unit) outcome" where
  "Signature_verify L self digest public_key =
    bindO (unwrap_sum (from_compact L (flatten self))
      ''compact signatures are 64 bytes; DER signatures are 68-72 bytes'') (\<lambda>signature.
    bindO (unwrap_sum (msg_from_slice L digest)
      ''messages must be 32 bytes and are expected to be hashes'') (\<lambda>message.
    bindO (unwrap_sum (pk_from_slice L public_key)
      ''public keys must be 33 or 65 bytes, serialized according to SEC 2'') (\<lambda>key.
    of_sum (verify_ecdsa L message signature key))))"

fun verify_batch_loop ::
  "'z crypto_lib_scheme \<Rightarrow> bytes \<Rightarrow> (PublicKey \<times> Signature) list \<Rightarrow> (CryptoError, unit) outcome"
  where
  "verify_batch_loop L message [] = Ok ()"
| "verify_batch_loop L message ((key, sig) # votes) =
    bindO (of_sum (from_compact L (flatten sig))) (\<lambda>signature.
    bindO (of_sum (pk_from_slice L key)) (\<lambda>pub_key.
    bindO (of_sum (verify_ecdsa L message signature pub_key)) (\<lambda>_.
    verify_batch_loop L message votes)))"

definition verify_batch ::
  "'z crypto_lib_scheme \<Rightarrow> Digest \<Rightarrow> (PublicKey \<times> Signature) list \<Rightarrow> (CryptoError, unit) outcome"
  where
  "verify_batch L digest votes =
    bindO (of_sum (msg_from_slice L digest)) (\<lambda>message. verify_batch_loop L message votes)"

text \<open>
  The signature service: a task that owns the secret key, answers requests in order, and dies with
  the first panic of \<open>Signature::new\<close>; a request to a dead service panics in the caller.
\<close>

fun signature_service_run ::
  "'z crypto_lib_scheme \<Rightarrow> SecretKey \<Rightarrow> Digest list \<Rightarrow> (CryptoError, Signature) outcome list" where
  "signature_service_run L secret [] = []"
| "signature_service_run L secret (d # ds) = (case Signature_new L d secret of
      Ok s \<Rightarrow> Ok s # signature_service_run L secret ds
    | _ \<Rightarrow> map (\<lambda>_. Panic ''Failed to receive signature from Signature Service'') (d # ds))"

definition request_signature ::
  "'z crypto_lib_scheme \<Rightarrow> SecretKey \<Rightarrow> Digest \<Rightarrow> (CryptoError, Signature) outcome" where
  "request_signature L secret digest = hd (signature_service_run L secret [digest])"

section \<open>What a valid signature is\<close>

text \<open>
  \<open>sig_ok\<close>: the library parses the signature, the message and the key, and accepts the signature.
  \<open>Signature::verify\<close> returns \<open>Ok\<close> exactly then; so does the batch version for all its entries.
\<close>

definition sig_ok :: "'z crypto_lib_scheme \<Rightarrow> Digest \<Rightarrow> PublicKey \<Rightarrow> Signature \<Rightarrow> bool" where
  "sig_ok L digest key sig = (case (from_compact L (flatten sig), msg_from_slice L digest,
      pk_from_slice L key) of
      (Inr s, Inr m, Inr k) \<Rightarrow> verify_ecdsa L m s k = Inr ()
    | _ \<Rightarrow> False)"

definition parses :: "'z crypto_lib_scheme \<Rightarrow> Digest \<Rightarrow> PublicKey \<Rightarrow> Signature \<Rightarrow> bool" where
  "parses L digest key sig = (case (from_compact L (flatten sig), msg_from_slice L digest,
      pk_from_slice L key) of
      (Inr s, Inr m, Inr k) \<Rightarrow> True
    | _ \<Rightarrow> False)"

lemma of_sum_simps [simp]: "of_sum (Inl e) = Err e" "of_sum (Inr a) = Ok a"
  by (simp_all add: of_sum_def)

lemma unwrap_sum_simps [simp]: "unwrap_sum (Inl e) p = Panic p" "unwrap_sum (Inr a) p = Ok a"
  by (simp_all add: unwrap_sum_def)

lemma sum_not_Diverge [simp]: "of_sum r \<noteq> Diverge" "unwrap_sum r p \<noteq> Diverge"
  by (simp_all add: of_sum_def unwrap_sum_def split: sum.splits)

lemma request_signature_not_Diverge [simp]: "request_signature L k d \<noteq> Diverge"
  by (simp add: request_signature_def split: outcome.splits)

lemma Signature_verify_Ok_iff [simp]:
  "Signature_verify L sig digest key = Ok u \<longleftrightarrow> sig_ok L digest key sig"
  by (auto simp: Signature_verify_def sig_ok_def bindO_Ok_iff unwrap_sum_def of_sum_def
      split: sum.splits)

lemma Signature_verify_no_panic:
  "(\<forall>p. Signature_verify L sig digest key \<noteq> Panic p) \<longleftrightarrow> parses L digest key sig"
  by (cases "from_compact L (flatten sig)"; cases "msg_from_slice L digest";
      cases "pk_from_slice L key")
    (auto simp: Signature_verify_def parses_def of_sum_def split: sum.splits)

lemma Signature_verify_not_Diverge [simp]: "Signature_verify L sig digest key \<noteq> Diverge"
  by (cases "from_compact L (flatten sig)"; cases "msg_from_slice L digest";
      cases "pk_from_slice L key")
    (auto simp: Signature_verify_def of_sum_def split: sum.splits)

lemma verify_batch_loop_Ok_iff:
  "msg_from_slice L digest = Inr m \<Longrightarrow>
    verify_batch_loop L m votes = Ok u \<longleftrightarrow> (\<forall>(k, s) \<in> set votes. sig_ok L digest k s)"
  by (induction votes)
    (auto simp: sig_ok_def bindO_Ok_iff of_sum_def split: sum.splits)

lemma verify_batch_Ok_iff:
  "votes \<noteq> [] \<Longrightarrow>
    verify_batch L digest votes = Ok u \<longleftrightarrow> (\<forall>(k, s) \<in> set votes. sig_ok L digest k s)"
proof (cases "msg_from_slice L digest")
  case (Inl e)
  moreover assume "votes \<noteq> []"
  moreover have "\<not> sig_ok L digest k s" for k s
    using Inl by (cases "from_compact L (flatten s)") (simp_all add: sig_ok_def)
  ultimately show ?thesis
    by (cases votes) (auto simp: verify_batch_def)
qed (simp add: verify_batch_def verify_batch_loop_Ok_iff)

lemma verify_batch_imp:
  "verify_batch L digest votes = Ok u \<Longrightarrow> (k, s) \<in> set votes \<Longrightarrow> sig_ok L digest k s"
  using verify_batch_Ok_iff [of votes L digest u] by (cases "votes = []") auto

text \<open>The batch verification never panics: every library error is returned.\<close>

lemma verify_batch_loop_no_panic:
  "verify_batch_loop L m votes \<noteq> Panic p \<and> verify_batch_loop L m votes \<noteq> Diverge"
proof (induction votes)
  case (Cons v vs)
  obtain k s where v: "v = (k, s)" by (cases v)
  show ?case
    using Cons unfolding v
    by (cases "from_compact L (flatten s)"; cases "pk_from_slice L k"; simp)
      (auto simp: of_sum_def split: sum.splits)
qed simp

lemma verify_batch_no_panic [simp]:
  "verify_batch L digest votes \<noteq> Panic p" "verify_batch L digest votes \<noteq> Diverge"
  unfolding verify_batch_def
  by (cases "msg_from_slice L digest"; simp add: verify_batch_loop_no_panic)+

end
