(* ===== verification/Committee.thy ===== *)
theory Committee
  imports Quorum HsCrypto
begin

text \<open>
  The committee of the consensus crate (\<open>src/hotstuff/consensus/src/config.rs\<close>) and its leader
  elector (\<open>leader.rs\<close>).  Stakes are \<open>u32\<close> and their sum wraps; \<open>committee_valid\<close> is the condition
  under which it does not, and the committee is then a weighted quorum system.
\<close>

section \<open>Definitions\<close>

type_synonym Stake = u32
type_synonym Round = u64

record Parameters =
  timeout_delay :: u64
  sync_retry_delay :: u64

definition Parameters_default :: Parameters where
  "Parameters_default = \<lparr>timeout_delay = 2000, sync_retry_delay = 10000\<rparr>"

record Authority =
  auth_stake :: Stake
  auth_address :: SocketAddr

record Committee =
  authorities :: "(PublicKey \<times> Authority) list"
  epoch :: "128 word"

definition Committee_new :: "(PublicKey \<times> Stake \<times> SocketAddr) list \<Rightarrow> 128 word \<Rightarrow> Committee" where
  "Committee_new info ep = \<lparr>
    authorities = fold (\<lambda>(name, stk, addr). AList.update name
      \<lparr>auth_stake = stk, auth_address = addr\<rparr>) info [],
    epoch = ep\<rparr>"

definition size_c :: "Committee \<Rightarrow> nat" where
  "size_c c = length (authorities c)"

definition stake :: "Committee \<Rightarrow> PublicKey \<Rightarrow> Stake" where
  "stake c name = (case map_of (authorities c) name of None \<Rightarrow> 0 | Some x \<Rightarrow> auth_stake x)"

definition total_votes :: "Committee \<Rightarrow> Stake" where
  "total_votes c = sum_list (map (auth_stake \<circ> snd) (authorities c))"

definition quorum_threshold :: "Committee \<Rightarrow> Stake" where
  "quorum_threshold c = 2 * total_votes c div 3 + 1"

definition address :: "Committee \<Rightarrow> PublicKey \<Rightarrow> SocketAddr option" where
  "address c name = map_option auth_address (map_of (authorities c) name)"

definition broadcast_addresses :: "Committee \<Rightarrow> PublicKey \<Rightarrow> (PublicKey \<times> SocketAddr) list" where
  "broadcast_addresses c myself =
    map (\<lambda>(name, x). (name, auth_address x)) (filter (\<lambda>(name, _). name \<noteq> myself) (authorities c))"

definition sorted_keys :: "Committee \<Rightarrow> PublicKey list" where
  "sorted_keys c = sort (map fst (authorities c))"

definition get_leader :: "Committee \<Rightarrow> Round \<Rightarrow> ('e, PublicKey) outcome" where
  "get_leader c round =
    (if size_c c = 0 then Panic ''attempt to calculate the remainder with a divisor of zero''
     else Ok (sorted_keys c ! (unat round mod size_c c)))"

text \<open>Distinct names (a \<open>HashMap\<close>), and a total stake whose double fits in \<open>u32\<close>.\<close>

definition committee_valid :: "Committee \<Rightarrow> bool" where
  "committee_valid c \<longleftrightarrow> distinct (map fst (authorities c)) \<and>
    2 * sum_list (map (unat \<circ> auth_stake \<circ> snd) (authorities c)) < 2 ^ 32"

definition names :: "Committee \<Rightarrow> PublicKey set" where
  "names c = fst ` set (authorities c)"

definition nstake :: "Committee \<Rightarrow> PublicKey \<Rightarrow> nat" where
  "nstake c k = unat (stake c k)"

section \<open>Lemmas\<close>

lemma unat_sum_list_no_overflow:
  "sum_list (map (unat \<circ> f) xs) < 2 ^ LENGTH('w::len) \<Longrightarrow>
    unat (sum_list (map f xs) :: 'w word) = sum_list (map (unat \<circ> f) xs)"
  by (induction xs) (auto simp: unat_add_lem [THEN iffD1])

lemma names_finite [simp]: "finite (names c)"
  by (simp add: names_def)

lemma total_names:
  assumes "distinct (map fst (authorities c))"
  shows "sum_list (map (unat \<circ> auth_stake \<circ> snd) (authorities c)) = sum (nstake c) (names c)"
proof -
  have "sum_list (map (\<lambda>p. (\<lambda>k a. unat (auth_stake a)) (fst p) (snd p)) (authorities c)) =
      (\<Sum>k\<in>names c. unat (auth_stake (the (map_of (authorities c) k))))"
    unfolding names_def by (rule map_of_distinct_sum [OF assms])
  also have "\<dots> = sum (nstake c) (names c)"
    by (rule sum.cong) (auto simp: nstake_def stake_def names_def dest!: weak_map_of_SomeI)
  finally show ?thesis by (simp add: comp_def)
qed

lemma nstake_outside: "k \<notin> names c \<Longrightarrow> nstake c k = 0"
  by (simp add: names_def nstake_def stake_def map_of_eq_None_iff [symmetric])

lemma stake_pos_member: "0 < stake c k \<Longrightarrow> k \<in> names c"
  using nstake_outside [of k c] by (cases "k \<in> names c") (auto simp: nstake_def unat_eq_zero)

lemma unat_total_votes:
  assumes "committee_valid c"
  shows "unat (total_votes c) = sum (nstake c) (names c)"
proof -
  have "sum_list (map (unat \<circ> (auth_stake \<circ> snd)) (authorities c)) < 2 ^ LENGTH(32)"
    using assms by (simp add: committee_valid_def comp_assoc)
  then have "unat (total_votes c) = sum_list (map (unat \<circ> (auth_stake \<circ> snd)) (authorities c))"
    unfolding total_votes_def by (rule unat_sum_list_no_overflow)
  then show ?thesis
    using assms total_names [of c] by (simp add: committee_valid_def comp_assoc)
qed

lemma total_bound:
  assumes "committee_valid c" shows "2 * sum (nstake c) (names c) < 2 ^ 32"
  using assms total_names [of c] by (simp add: committee_valid_def)

lemma unat_quorum_threshold:
  assumes "committee_valid c"
  shows "unat (quorum_threshold c) = 2 * sum (nstake c) (names c) div 3 + 1"
proof -
  have t: "unat (2 * total_votes c) = 2 * sum (nstake c) (names c)"
    using total_bound [OF assms] unat_total_votes [OF assms]
    by (subst unat_word_ariths) simp
  have d: "unat (2 * total_votes c div 3) = 2 * sum (nstake c) (names c) div 3"
    by (simp add: unat_div t)
  have "unat (2 * total_votes c div 3 + 1) = 2 * sum (nstake c) (names c) div 3 + 1"
    using total_bound [OF assms] by (subst unat_word_ariths) (simp add: d)
  then show ?thesis by (simp add: quorum_threshold_def)
qed

interpretation cq: quorum_system committee_valid names nstake "\<lambda>c. unat (quorum_threshold c)"
  by unfold_locales (simp_all add: unat_quorum_threshold)

interpretation rr: round_robin sorted_keys "get_leader :: Committee \<Rightarrow> Round \<Rightarrow> (unit, PublicKey) outcome"
  by unfold_locales (auto simp: get_leader_def sorted_keys_def size_c_def
      dest: arg_cong [where f = length])

lemma get_leader_poly: "get_leader c r = Ok k \<longleftrightarrow> (get_leader c r :: (unit, _) outcome) = Ok k"
  by (auto simp: get_leader_def)

lemma Committee_new_distinct: "distinct (map fst (authorities (Committee_new info ep)))"
proof -
  have "distinct (map fst m) \<Longrightarrow> distinct (map fst (fold (\<lambda>(name, stk, addr).
      AList.update name \<lparr>auth_stake = stk, auth_address = addr\<rparr>) info m))" for m
    by (induction info arbitrary: m) (auto intro: distinct_update)
  then show ?thesis by (simp add: Committee_new_def)
qed

lemma broadcast_addresses_names:
  "fst ` set (broadcast_addresses c me) = names c - {me}"
  by (force simp: broadcast_addresses_def names_def)

end
