(* ===== verification/Store.thy ===== *)
theory Store
  imports HsCrypto
begin

text \<open>
  The key-value store actor (\<open>src/hotstuff/store/src/lib.rs\<close>): one task owns a RocksDB handle and a
  table of obligations (readers waiting for a key), and serves commands in the order of its channel.

  RocksDB is the parameter \<open>rocks_lib\<close>, acting on the content of the database (a partial function
  from keys to values); \<open>rocks_ok\<close> is its documented behaviour.  A \<open>oneshot\<close> sender is a number; what
  is sent through it is a reply in the output list.  A sender that is dropped unused gives the
  waiting side the error that \<open>unwrap_or\<close> puts there.

  \<open>Store_new\<close> opens an empty database.  Opening one that an earlier run has filled gives the state after
  as many writes, before which there are no readers.
\<close>

section \<open>Types\<close>

datatype StoreError = RocksdbError lib_error | OtherError string

type_synonym db = "bytes \<rightharpoonup> bytes"

record rocks_lib =
  rocks_put :: "db \<Rightarrow> bytes \<Rightarrow> bytes \<Rightarrow> db"
  rocks_get :: "db \<Rightarrow> bytes \<Rightarrow> lib_error + bytes option"
  rocks_delete :: "db \<Rightarrow> bytes \<Rightarrow> db"
  rocks_destroy :: "db \<Rightarrow> lib_error + unit"

datatype StoreCommand =
    Write bytes bytes
  | Read bytes nat
  | NotifyRead bytes nat
  | NotifyDestroy nat
  | Delete bytes
  | Exit nat

datatype reply =
    ReadReply nat "StoreError + bytes option"
  | NotifyReply nat "StoreError + bytes"
  | DestroyReply nat bool
  | ExitReply nat
  | Dropped nat

record store_state =
  content :: db
  obligations :: "(bytes \<times> nat list) list"
  running :: bool

section \<open>The task\<close>

definition Store_new :: store_state where
  "Store_new = \<lparr>content = Map.empty, obligations = [], running = True\<rparr>"

definition db_get :: "rocks_lib \<Rightarrow> store_state \<Rightarrow> bytes \<Rightarrow> StoreError + bytes option" where
  "db_get R st k = (case rocks_get R (content st) k of
      Inl e \<Rightarrow> Inl (RocksdbError e) | Inr v \<Rightarrow> Inr v)"

definition senders_of :: "store_state \<Rightarrow> bytes \<Rightarrow> nat list" where
  "senders_of st k = (case map_of (obligations st) k of None \<Rightarrow> [] | Some ss \<Rightarrow> ss)"

text \<open>Leaving the loop drops the table of obligations with the senders in it.\<close>

definition store_stop :: "store_state \<Rightarrow> store_state \<times> reply list" where
  "store_stop st = (st\<lparr>obligations := [], running := False\<rparr>,
    map Dropped (concat (map snd (obligations st))))"

fun store_command :: "rocks_lib \<Rightarrow> StoreCommand \<Rightarrow> store_state \<Rightarrow> store_state \<times> reply list" where
  "store_command R (Write key value) st =
    (let st1 = st\<lparr>content := rocks_put R (content st) key value\<rparr> in
     case map_of (obligations st1) key of
       None \<Rightarrow> (st1, [])
     | Some senders \<Rightarrow> (st1\<lparr>obligations := AList.delete key (obligations st1)\<rparr>,
         map (\<lambda>s. NotifyReply s (Inr value)) senders))"
| "store_command R (Read key sender) st = (st, [ReadReply sender (db_get R st key)])"
| "store_command R (NotifyRead key sender) st = (case db_get R st key of
      Inr None \<Rightarrow> (st\<lparr>obligations := AList.update key (senders_of st key @ [sender])
          (obligations st)\<rparr>, [])
    | Inr (Some v) \<Rightarrow> (st, [NotifyReply sender (Inr v)])
    | Inl e \<Rightarrow> (st, [NotifyReply sender (Inl e)]))"
| "store_command R (NotifyDestroy sender) st =
    (let r = DestroyReply sender (case rocks_destroy R (content st) of
        Inr _ \<Rightarrow> True | Inl _ \<Rightarrow> False);
       (st1, rs) = store_stop st in (st1, r # rs))"
| "store_command R (Delete key) st = (st\<lparr>content := rocks_delete R (content st) key\<rparr>, [])"
| "store_command R (Exit sender) st =
    (let (st1, rs) = store_stop st in (st1, ExitReply sender # rs))"

text \<open>
  A command that reaches a stopped task is dropped by the channel, together with its sender.
\<close>

fun command_sender :: "StoreCommand \<Rightarrow> nat list" where
  "command_sender (Read _ s) = [s]"
| "command_sender (NotifyRead _ s) = [s]"
| "command_sender (NotifyDestroy s) = [s]"
| "command_sender (Exit s) = [s]"
| "command_sender (Write _ _) = []"
| "command_sender (Delete _) = []"

definition store_step :: "rocks_lib \<Rightarrow> StoreCommand \<Rightarrow> store_state \<Rightarrow> store_state \<times> reply list" where
  "store_step R c st =
    (if running st then store_command R c st else (st, map Dropped (command_sender c)))"

fun store_run :: "rocks_lib \<Rightarrow> StoreCommand list \<Rightarrow> store_state \<Rightarrow> store_state \<times> reply list" where
  "store_run R [] st = (st, [])"
| "store_run R (c # cs) st =
    (let (st1, rs1) = store_step R c st; (st2, rs2) = store_run R cs st1 in (st2, rs1 @ rs2))"

section \<open>The client side\<close>

definition store_write :: "rocks_lib \<Rightarrow> bytes \<Rightarrow> bytes \<Rightarrow> store_state \<Rightarrow> store_state \<times> reply list" where
  "store_write R k v st = store_step R (Write k v) st"

definition store_delete :: "rocks_lib \<Rightarrow> bytes \<Rightarrow> store_state \<Rightarrow> store_state \<times> reply list" where
  "store_delete R k st = store_step R (Delete k) st"

definition store_read :: "rocks_lib \<Rightarrow> bytes \<Rightarrow> store_state \<Rightarrow> StoreError + bytes option" where
  "store_read R k st = (case snd (store_step R (Read k 0) st) of
      ReadReply _ r # _ \<Rightarrow> r
    | _ \<Rightarrow> Inl (OtherError ''Failed to receive reply to Read command from store''))"

text \<open>
  What the receiver of a \<open>notify_read\<close> sees in the replies emitted so far: nothing yet, the value,
  or the error of a dropped sender.
\<close>

fun notify_read_result :: "nat \<Rightarrow> reply list \<Rightarrow> (StoreError + bytes) option" where
  "notify_read_result s [] = None"
| "notify_read_result s (NotifyReply s' r # rs) =
    (if s' = s then Some r else notify_read_result s rs)"
| "notify_read_result s (Dropped s' # rs) = (if s' = s
    then Some (Inl (OtherError ''Failed to receive reply to NotifyRead command from store''))
    else notify_read_result s rs)"
| "notify_read_result s (_ # rs) = notify_read_result s rs"

section \<open>Lemmas\<close>

definition rocks_ok :: "rocks_lib \<Rightarrow> bool" where
  "rocks_ok R \<longleftrightarrow> (\<forall>m k v. rocks_put R m k v = m(k \<mapsto> v)) \<and> (\<forall>m k. rocks_get R m k = Inr (m k))
    \<and> (\<forall>m k. rocks_delete R m k = m(k := None))"

lemma rocks_okD:
  assumes "rocks_ok R"
  shows "rocks_put R m k v = m(k \<mapsto> v)" "rocks_get R m k = Inr (m k)"
    "rocks_delete R m k = m(k := None)"
  using assms by (simp_all add: rocks_ok_def)

text \<open>
  The invariant of the task: no reader waits for a key that is present, and the table has no empty
  and no duplicate entry.
\<close>

definition store_inv :: "store_state \<Rightarrow> bool" where
  "store_inv st \<longleftrightarrow> distinct (map fst (obligations st)) \<and>
    (\<forall>(k, ss) \<in> set (obligations st). content st k = None \<and> ss \<noteq> [])"

lemma store_inv_new: "store_inv Store_new"
  by (simp add: store_inv_def Store_new_def)

lemma store_stop_inv: "store_inv (fst (store_stop st))"
  by (simp add: store_inv_def store_stop_def)

lemma store_write_state:
  "store_command R (Write k v) st =
    (st\<lparr>content := rocks_put R (content st) k v, obligations := AList.delete k (obligations st)\<rparr>,
     map (\<lambda>s. NotifyReply s (Inr v)) (senders_of st k))"
proof (cases "map_of (obligations st) k")
  case None
  then have "AList.delete k (obligations st) = obligations st"
    by (simp add: map_of_eq_None_iff)
  with None show ?thesis by (simp add: senders_of_def)
qed (simp add: senders_of_def)

declare store_command.simps(1) [simp del]
declare store_write_state [simp]

lemma store_command_inv:
  assumes R: "rocks_ok R" and I: "store_inv st"
  shows "store_inv (fst (store_command R c st))"
proof (cases c)
  case (Write k v)
  then show ?thesis
    using I by (auto simp: store_inv_def rocks_okD [OF R] AList.delete_eq
        distinct_map_filter)
next
  case (NotifyRead k s)
  show ?thesis
  proof (cases "content st k")
    case None
    have "distinct (map fst (AList.update k v (obligations st)))" for v
      using I by (simp add: store_inv_def distinct_update)
    moreover have "content st k' = None \<and> ss \<noteq> []"
      if "(k', ss) \<in> set (AList.update k (xs @ [s]) (obligations st))" for k' ss xs
    proof -
      have "map_of (AList.update k (xs @ [s]) (obligations st)) k' = Some ss"
        using that calculation by simp
      then show ?thesis
        using I None by (auto simp: update_conv' store_inv_def split: if_splits dest!: map_of_SomeD)
    qed
    ultimately show ?thesis
      using None by (auto simp: NotifyRead store_inv_def db_get_def rocks_okD [OF R])
  next
    case (Some v)
    then show ?thesis using I by (simp add: NotifyRead db_get_def rocks_okD [OF R])
  qed
qed (use I in \<open>auto simp: store_inv_def rocks_okD [OF R] Let_def store_stop_def\<close>)

lemma store_step_inv: "rocks_ok R \<Longrightarrow> store_inv st \<Longrightarrow> store_inv (fst (store_step R c st))"
  by (simp add: store_step_def store_command_inv)

lemma store_run_inv: "rocks_ok R \<Longrightarrow> store_inv st \<Longrightarrow> store_inv (fst (store_run R cs st))"
  by (induction cs arbitrary: st) (auto simp: split_def Let_def dest: store_step_inv)

lemma store_read_running:
  "running st \<Longrightarrow> rocks_ok R \<Longrightarrow> store_read R k st = Inr (content st k)"
  by (simp add: store_read_def store_step_def db_get_def rocks_okD)

lemma store_read_stopped:
  "\<not> running st \<Longrightarrow>
    store_read R k st = Inl (OtherError ''Failed to receive reply to Read command from store'')"
  by (simp add: store_read_def store_step_def)

lemma store_write_content:
  assumes "rocks_ok R" "running st"
  shows "content (fst (store_write R k v st)) = (content st)(k \<mapsto> v)"
    and "running (fst (store_write R k v st))"
  using assms by (auto simp: store_write_def store_step_def rocks_okD Let_def split: option.splits)

lemma store_delete_content:
  assumes "rocks_ok R" "running st"
  shows "content (fst (store_delete R k st)) = (content st)(k := None)"
    and "running (fst (store_delete R k st))"
  using assms by (auto simp: store_delete_def store_step_def rocks_okD Let_def)

lemma store_run_append:
  "store_run R (cs @ ds) st = (let (st1, rs1) = store_run R cs st; (st2, rs2) = store_run R ds st1
    in (st2, rs1 @ rs2))"
  by (induction cs arbitrary: st) (simp_all add: split_def Let_def)

lemma notify_read_result_append:
  "notify_read_result s (xs @ ys) =
    (case notify_read_result s xs of None \<Rightarrow> notify_read_result s ys | Some r \<Rightarrow> Some r)"
  by (induction s xs rule: notify_read_result.induct) auto

lemma notify_read_result_map [simp]:
  "notify_read_result s (map (\<lambda>x. NotifyReply x r) ss) = (if s \<in> set ss then Some r else None)"
  by (induction ss) auto

text \<open>The sender \<open>s\<close> is registered for the key \<open>k\<close> and for no other key.\<close>

definition waits :: "store_state \<Rightarrow> bytes \<Rightarrow> nat \<Rightarrow> bool" where
  "waits st k s \<longleftrightarrow> running st \<and> content st k = None \<and> (\<forall>k'. s \<in> set (senders_of st k') \<longleftrightarrow> k' = k)"

text \<open>Commands that neither write the key, nor stop the task, nor reuse the sender.\<close>

definition quiet :: "bytes \<Rightarrow> nat \<Rightarrow> StoreCommand \<Rightarrow> bool" where
  "quiet k s c \<longleftrightarrow> (\<forall>v. c \<noteq> Write k v) \<and> (\<forall>t. c \<noteq> Exit t \<and> c \<noteq> NotifyDestroy t) \<and>
    s \<notin> set (command_sender c)"

lemma senders_of_update [simp]:
  "senders_of (st\<lparr>obligations := AList.update k ss (obligations st)\<rparr>) k' =
    (if k' = k then ss else senders_of st k')"
  by (simp add: senders_of_def update_conv')

lemma senders_of_delete [simp]:
  "senders_of (st\<lparr>content := m, obligations := AList.delete k (obligations st)\<rparr>) k' =
    (if k' = k then [] else senders_of st k')"
  by (simp add: senders_of_def delete_conv')

lemma senders_of_content [simp]: "senders_of (st\<lparr>content := m\<rparr>) k = senders_of st k"
  by (simp add: senders_of_def)

lemma waits_step:
  assumes R: "rocks_ok R" and w: "waits st k s" and q: "quiet k s c"
  shows "waits (fst (store_step R c st)) k s \<and> notify_read_result s (snd (store_step R c st)) = None"
proof -
  have run: "store_step R c st = store_command R c st"
    using w by (simp add: store_step_def waits_def)
  show ?thesis
    using w q unfolding run
    by (cases c) (auto simp: waits_def quiet_def rocks_okD [OF R] db_get_def split: option.splits)
qed

lemma waits_run:
  assumes R: "rocks_ok R"
  shows "waits st k s \<Longrightarrow> \<forall>c \<in> set cs. quiet k s c \<Longrightarrow>
    waits (fst (store_run R cs st)) k s \<and> notify_read_result s (snd (store_run R cs st)) = None"
proof (induction cs arbitrary: st)
  case (Cons c cs)
  then show ?case
    using waits_step [OF R Cons.prems(1), of c]
    by (simp add: split_def Let_def notify_read_result_append)
qed simp

lemma waits_register:
  assumes R: "rocks_ok R" and "running st" "content st k = None" "\<forall>k'. s \<notin> set (senders_of st k')"
  shows "waits (fst (store_step R (NotifyRead k s) st)) k s \<and>
    snd (store_step R (NotifyRead k s) st) = []"
  using assms by (simp add: waits_def store_step_def db_get_def rocks_okD)

lemma store_write_stopped: "\<not> running st \<Longrightarrow> store_write R k v st = (st, [])"
  by (simp add: store_write_def store_step_def)

lemma store_delete_stopped: "\<not> running st \<Longrightarrow> store_delete R k st = (st, [])"
  by (simp add: store_delete_def store_step_def)

text \<open>The whole life of a reader: registered for an absent key, it is answered exactly if the key is written.\<close>

definition idle :: "store_state \<Rightarrow> bytes \<Rightarrow> nat \<Rightarrow> bool" where
  "idle st k s \<longleftrightarrow> running st \<and> content st k = None \<and> (\<forall>k'. s \<notin> set (senders_of st k'))"

definition live_command :: "nat \<Rightarrow> StoreCommand \<Rightarrow> bool" where
  "live_command s c \<longleftrightarrow> (\<forall>t. c \<noteq> Exit t \<and> c \<noteq> NotifyDestroy t) \<and> s \<notin> set (command_sender c)"

lemma idle_step:
  assumes R: "rocks_ok R" and w: "idle st k s" and q: "quiet k s c"
  shows "idle (fst (store_step R c st)) k s \<and> notify_read_result s (snd (store_step R c st)) = None"
proof -
  have run: "store_step R c st = store_command R c st"
    using w by (simp add: store_step_def idle_def)
  show ?thesis
    using w q unfolding run
    by (cases c) (auto simp: idle_def quiet_def rocks_okD [OF R] db_get_def split: option.splits)
qed

lemma idle_run:
  assumes R: "rocks_ok R"
  shows "idle st k s \<Longrightarrow> \<forall>c \<in> set cs. quiet k s c \<Longrightarrow>
    idle (fst (store_run R cs st)) k s \<and> notify_read_result s (snd (store_run R cs st)) = None"
proof (induction cs arbitrary: st)
  case (Cons c cs)
  then show ?case
    using idle_step [OF R Cons.prems(1), of c]
    by (simp add: split_def Let_def notify_read_result_append)
qed simp

lemma waits_answered:
  assumes R: "rocks_ok R" and w: "waits st k s"
    and live: "\<forall>c \<in> set cs. live_command s c" and wr: "Write k v \<in> set cs"
  shows "\<exists>v'. notify_read_result s (snd (store_run R cs st)) = Some (Inr v')"
proof -
  have "\<exists>c \<in> set cs. \<exists>v. c = Write k v" using wr by blast
  then obtain xs v' ys where cs: "cs = xs @ Write k v' # ys" "\<forall>c \<in> set xs. \<not> (\<exists>v. c = Write k v)"
    by (auto dest!: split_list_first_prop)
  then have "\<forall>c \<in> set xs. quiet k s c" using live by (auto simp: quiet_def live_command_def)
  with waits_run [OF R w] have mid: "waits (fst (store_run R xs st)) k s"
    "notify_read_result s (snd (store_run R xs st)) = None" by auto
  then have "notify_read_result s (snd (store_step R (Write k v') (fst (store_run R xs st)))) = Some (Inr v')"
    by (simp add: store_step_def waits_def)
  with mid(2) show ?thesis
    by (simp add: cs(1) store_run_append split_def Let_def notify_read_result_append)
qed

lemma reader_answered_iff:
  assumes R: "rocks_ok R" and i: "idle st k s"
    and pre: "\<forall>c \<in> set pre. quiet k s c" and post: "\<forall>c \<in> set post. live_command s c"
  shows "case notify_read_result s (snd (store_run R (pre @ NotifyRead k s # post) st)) of
      None \<Rightarrow> \<forall>v. Write k v \<notin> set post
    | Some r \<Rightarrow> (\<exists>v. r = Inr v) \<and> (\<exists>v. Write k v \<in> set post)"
proof -
  let ?st1 = "fst (store_run R pre st)"
  let ?st2 = "fst (store_step R (NotifyRead k s) ?st1)"
  have "idle ?st1 k s" and none: "notify_read_result s (snd (store_run R pre st)) = None"
    using idle_run [OF R i pre] by auto
  then have w: "waits ?st2 k s" "snd (store_step R (NotifyRead k s) ?st1) = []"
    using waits_register [OF R, of ?st1 k s] by (auto simp: idle_def)
  have eq: "notify_read_result s (snd (store_run R (pre @ NotifyRead k s # post) st)) =
      notify_read_result s (snd (store_run R post ?st2))"
    using none w(2) by (simp add: store_run_append split_def Let_def notify_read_result_append)
  show ?thesis
  proof (cases "\<exists>v. Write k v \<in> set post")
    case True
    then obtain v v' where "Write k v \<in> set post" "notify_read_result s (snd (store_run R post ?st2)) = Some (Inr v')"
      using waits_answered [OF R w(1) post] by blast
    with eq show ?thesis by auto
  next
    case False
    then have "\<forall>c \<in> set post. quiet k s c" using post by (auto simp: quiet_def live_command_def)
    with waits_run [OF R w(1)] eq False show ?thesis by auto
  qed
qed

end
