(* ===== verification/Messages.thy ===== *)
theory Messages
  imports Committee Store
begin

text \<open>
  The messages of the consensus protocol and their verification
  (\<open>src/hotstuff/consensus/src/messages.rs\<close>, \<open>error.rs\<close>, the message enum of \<open>consensus.rs\<close>).

  The equality the Rust code uses on certificates is not structural: \<open>QC\<close> compares hash and round,
  \<open>TC\<close> compares the round only, \<open>Block\<close> leaves out the timeout certificate and the signature.  These
  are the functions \<open>QC_eq\<close>, \<open>TC_eq\<close> and \<open>Block_eq\<close>; HOL equality is never used in their place.
\<close>

section \<open>Data\<close>

record QC =
  qc_hash :: Digest
  qc_round :: Round
  qc_payload_size :: u64
  qc_votes :: "(PublicKey \<times> Signature) list"

record TC =
  tc_round :: Round
  tc_votes :: "(PublicKey \<times> Signature \<times> Round \<times> Round) list"

record Block =
  blk_qc :: QC
  blk_tc :: "TC option"
  blk_author :: PublicKey
  blk_round :: Round
  blk_payload :: "Digest list"
  blk_signature :: Signature

record Vote =
  vote_hash :: Digest
  vote_round :: Round
  vote_payload_size :: u64
  vote_author :: PublicKey
  vote_signature :: Signature

record Timeout =
  to_high_qc :: QC
  to_high_tc :: TC
  to_round :: Round
  to_author :: PublicKey
  to_signature :: Signature

datatype ConsensusMessage =
    Propose Block
  | VoteMsg Vote
  | TimeoutMsg Timeout
  | TCMsg TC
  | SyncRequest Digest PublicKey

datatype ConsensusError =
    NetworkError lib_error
  | SerializationError lib_error
  | CStoreError StoreError
  | NotInCommittee PublicKey
  | InvalidSignature CryptoError
  | AuthorityReuse Digest PublicKey Round string
  | UnknownAuthority PublicKey
  | QCRequiresQuorum
  | TCRequiresQuorum
  | MalformedBlock Digest
  | WrongLeader Digest PublicKey Round
  | InvalidPayload
  | StoreReadTimeout Digest Block

section \<open>Quorum certificates\<close>

definition QC_genesis :: QC where
  "QC_genesis = \<lparr>qc_hash = Digest_default, qc_round = 0, qc_payload_size = 0, qc_votes = []\<rparr>"

definition QC_timeout :: "QC \<Rightarrow> bool" where
  "QC_timeout self \<longleftrightarrow> qc_hash self = Digest_default \<and> qc_round self \<noteq> 0"

definition QC_eq :: "QC \<Rightarrow> QC \<Rightarrow> bool" where
  "QC_eq self other \<longleftrightarrow> qc_hash self = qc_hash other \<and> qc_round self = qc_round other"

definition QC_digest :: "'z crypto_lib_scheme \<Rightarrow> QC \<Rightarrow> Digest" where
  "QC_digest L self = sha512_32 L
    (qc_hash self @ le_bytes64 (qc_round self) @ le_bytes64 (qc_payload_size self))"

text \<open>
  The loop both certificate checks start with: it refuses a name seen before, then a name without
  stake, and adds up the stakes (a \<open>u32\<close> sum).
\<close>

fun check_voters :: "Committee \<Rightarrow> (PublicKey \<Rightarrow> ConsensusError) \<Rightarrow> PublicKey list \<Rightarrow> PublicKey set
    \<Rightarrow> Stake \<Rightarrow> (ConsensusError, Stake) outcome" where
  "check_voters c reuse [] used weight = Ok weight"
| "check_voters c reuse (name # ns) used weight =
    bindO (ensure (name \<notin> used) (reuse name)) (\<lambda>_.
    bindO (ensure (0 < stake c name) (UnknownAuthority name)) (\<lambda>_.
    check_voters c reuse ns (insert name used) (weight + stake c name)))"

definition QC_verify :: "'z crypto_lib_scheme \<Rightarrow> Committee \<Rightarrow> QC \<Rightarrow> (ConsensusError, unit) outcome" where
  "QC_verify L c self =
    bindO (check_voters c (\<lambda>name. AuthorityReuse (qc_hash self) name (qc_round self) ''QC-verify'')
      (map fst (qc_votes self)) {} 0) (\<lambda>weight.
    bindO (ensure (quorum_threshold c \<le> weight) QCRequiresQuorum) (\<lambda>_.
    map_err InvalidSignature (verify_batch L (QC_digest L self) (qc_votes self))))"

section \<open>Timeout certificates\<close>

definition TC_default :: TC where
  "TC_default = \<lparr>tc_round = 0, tc_votes = []\<rparr>"

definition TC_eq :: "TC \<Rightarrow> TC \<Rightarrow> bool" where
  "TC_eq self other \<longleftrightarrow> tc_round self = tc_round other"

definition timeout_digest :: "'z crypto_lib_scheme \<Rightarrow> Round \<Rightarrow> Round \<Rightarrow> Round \<Rightarrow> Digest" where
  "timeout_digest L round high_qc_round high_tc_round = sha512_32 L
    (le_bytes64 round @ le_bytes64 high_qc_round @ le_bytes64 high_tc_round)"

fun TC_check_signatures :: "'z crypto_lib_scheme \<Rightarrow> Round
    \<Rightarrow> (PublicKey \<times> Signature \<times> Round \<times> Round) list \<Rightarrow> (ConsensusError, unit) outcome" where
  "TC_check_signatures L round [] = Ok ()"
| "TC_check_signatures L round ((author, signature, high_qc_round, high_tc_round) # vs) =
    bindO (map_err InvalidSignature (Signature_verify L signature
      (timeout_digest L round high_qc_round high_tc_round) author)) (\<lambda>_.
    TC_check_signatures L round vs)"

definition TC_verify :: "'z crypto_lib_scheme \<Rightarrow> Committee \<Rightarrow> TC \<Rightarrow> (ConsensusError, unit) outcome" where
  "TC_verify L c self =
    bindO (check_voters c (\<lambda>name. AuthorityReuse Digest_default name (tc_round self) ''TC-verify'')
      (map fst (tc_votes self)) {} 0) (\<lambda>weight.
    bindO (ensure (quorum_threshold c \<le> weight) TCRequiresQuorum) (\<lambda>_.
    TC_check_signatures L (tc_round self) (tc_votes self)))"

definition high_qc_rounds :: "TC \<Rightarrow> Round list" where
  "high_qc_rounds self = map (\<lambda>(_, _, r, _). r) (tc_votes self)"

section \<open>Blocks\<close>

definition Block_genesis :: Block where
  "Block_genesis = \<lparr>blk_qc = QC_genesis, blk_tc = None, blk_author = PublicKey_default, blk_round = 0,
    blk_payload = [], blk_signature = Signature_default\<rparr>"

definition parent :: "Block \<Rightarrow> Digest" where
  "parent self = qc_hash (blk_qc self)"

definition Block_eq :: "Block \<Rightarrow> Block \<Rightarrow> bool" where
  "Block_eq self other \<longleftrightarrow> QC_eq (blk_qc self) (blk_qc other) \<and> blk_author self = blk_author other \<and>
    blk_round self = blk_round other \<and> blk_payload self = blk_payload other"

definition Block_digest :: "'z crypto_lib_scheme \<Rightarrow> Block \<Rightarrow> Digest" where
  "Block_digest L self = sha512_32 L (blk_author self @ le_bytes64 (blk_round self) @
    concat (blk_payload self) @ qc_hash (blk_qc self))"

definition Block_new :: "'z crypto_lib_scheme \<Rightarrow> SecretKey \<Rightarrow> QC \<Rightarrow> TC option \<Rightarrow> PublicKey \<Rightarrow> Round
    \<Rightarrow> Digest list \<Rightarrow> (ConsensusError, Block) outcome" where
  "Block_new L secret qc tc author round payload =
    (let block = \<lparr>blk_qc = qc, blk_tc = tc, blk_author = author, blk_round = round,
        blk_payload = payload, blk_signature = Signature_default\<rparr> in
     bindO (map_err InvalidSignature (request_signature L secret (Block_digest L block)))
       (\<lambda>signature. Ok (block\<lparr>blk_signature := signature\<rparr>)))"

definition Block_verify :: "'z crypto_lib_scheme \<Rightarrow> Committee \<Rightarrow> Block \<Rightarrow> (ConsensusError, unit) outcome"
  where
  "Block_verify L c self =
    bindO (ensure (0 < stake c (blk_author self)) (UnknownAuthority (blk_author self))) (\<lambda>_.
    bindO (map_err InvalidSignature
      (Signature_verify L (blk_signature self) (Block_digest L self) (blk_author self))) (\<lambda>_.
    bindO (if \<not> QC_eq (blk_qc self) QC_genesis then QC_verify L c (blk_qc self) else Ok ()) (\<lambda>_.
    (case blk_tc self of Some tc \<Rightarrow> TC_verify L c tc | None \<Rightarrow> Ok ()))))"

section \<open>Votes and timeouts\<close>

definition Vote_digest :: "'z crypto_lib_scheme \<Rightarrow> Vote \<Rightarrow> Digest" where
  "Vote_digest L self = sha512_32 L
    (vote_hash self @ le_bytes64 (vote_round self) @ le_bytes64 (vote_payload_size self))"

definition Vote_new :: "'z crypto_lib_scheme \<Rightarrow> SecretKey \<Rightarrow> Block \<Rightarrow> PublicKey
    \<Rightarrow> (ConsensusError, Vote) outcome" where
  "Vote_new L secret block author =
    (let vote = \<lparr>vote_hash = Block_digest L block, vote_round = blk_round block,
        vote_payload_size = of_nat (length (blk_payload block)), vote_author = author,
        vote_signature = Signature_default\<rparr> in
     bindO (map_err InvalidSignature (request_signature L secret (Vote_digest L vote)))
       (\<lambda>signature. Ok (vote\<lparr>vote_signature := signature\<rparr>)))"

definition Vote_verify :: "'z crypto_lib_scheme \<Rightarrow> Committee \<Rightarrow> Vote \<Rightarrow> (ConsensusError, unit) outcome" where
  "Vote_verify L c self =
    bindO (ensure (0 < stake c (vote_author self)) (UnknownAuthority (vote_author self))) (\<lambda>_.
    map_err InvalidSignature
      (Signature_verify L (vote_signature self) (Vote_digest L self) (vote_author self)))"

definition Timeout_digest :: "'z crypto_lib_scheme \<Rightarrow> Timeout \<Rightarrow> Digest" where
  "Timeout_digest L self =
    timeout_digest L (to_round self) (qc_round (to_high_qc self)) (tc_round (to_high_tc self))"

definition Timeout_new :: "'z crypto_lib_scheme \<Rightarrow> SecretKey \<Rightarrow> QC \<Rightarrow> TC \<Rightarrow> Round \<Rightarrow> PublicKey
    \<Rightarrow> (ConsensusError, Timeout) outcome" where
  "Timeout_new L secret high_qc high_tc round author =
    (let timeout = \<lparr>to_high_qc = high_qc, to_high_tc = high_tc, to_round = round,
        to_author = author, to_signature = Signature_default\<rparr> in
     bindO (map_err InvalidSignature (request_signature L secret (Timeout_digest L timeout)))
       (\<lambda>signature. Ok (timeout\<lparr>to_signature := signature\<rparr>)))"

definition Timeout_verify :: "'z crypto_lib_scheme \<Rightarrow> Committee \<Rightarrow> Timeout
    \<Rightarrow> (ConsensusError, unit) outcome" where
  "Timeout_verify L c self =
    bindO (ensure (0 < stake c (to_author self)) (UnknownAuthority (to_author self))) (\<lambda>_.
    bindO (map_err InvalidSignature
      (Signature_verify L (to_signature self) (Timeout_digest L self) (to_author self))) (\<lambda>_.
    bindO (if \<not> QC_eq (to_high_qc self) QC_genesis then QC_verify L c (to_high_qc self) else Ok ()) (\<lambda>_.
    (if \<not> TC_eq (to_high_tc self) TC_default then TC_verify L c (to_high_tc self) else Ok ()))))"

section \<open>Lemmas\<close>

text \<open>Distinct voters with stake that reach the quorum.\<close>

definition quorum_of :: "Committee \<Rightarrow> PublicKey list \<Rightarrow> bool" where
  "quorum_of c ns \<longleftrightarrow> distinct ns \<and> (\<forall>n \<in> set ns. 0 < stake c n) \<and>
    unat (quorum_threshold c) \<le> sum (nstake c) (set ns)"

lemma check_voters_Ok_iff:
  "check_voters c reuse ns used w = Ok w' \<longleftrightarrow> distinct ns \<and> set ns \<inter> used = {} \<and>
    (\<forall>n \<in> set ns. 0 < stake c n) \<and> w' = w + sum_list (map (stake c) ns)"
  by (induction ns arbitrary: used w) (auto simp: bindO_Ok_iff algebra_simps)

lemma check_voters_no_panic [simp]:
  "check_voters c reuse ns used w \<noteq> Panic p" "check_voters c reuse ns used w \<noteq> Diverge"
  by (induction ns arbitrary: used w) (auto simp: ensure_def)

lemma unat_stake_sum:
  assumes v: "committee_valid c" and d: "distinct ns" and pos: "\<forall>n \<in> set ns. 0 < stake c n"
  shows "unat (sum_list (map (stake c) ns)) = sum (nstake c) (set ns)"
proof -
  have sub: "set ns \<subseteq> names c" using pos by (auto intro: stake_pos_member)
  have eq: "sum_list (map (unat \<circ> stake c) ns) = sum (nstake c) (set ns)"
    using sum_list_distinct_sum [OF d, of "nstake c"] by (simp add: nstake_def [abs_def] comp_def)
  have "sum (nstake c) (set ns) < 2 ^ LENGTH(32)"
    using cq.weight_mono [OF v sub] total_bound [OF v] by simp
  then show ?thesis
    using unat_sum_list_no_overflow [of "stake c" ns] eq by simp
qed

lemma quorum_check_iff:
  assumes "committee_valid c"
  shows "(distinct ns \<and> (\<forall>n \<in> set ns. 0 < stake c n) \<and>
      quorum_threshold c \<le> sum_list (map (stake c) ns)) \<longleftrightarrow> quorum_of c ns"
  using unat_stake_sum [OF assms] by (auto simp: quorum_of_def word_le_nat_alt)

lemma quorum_nonempty: "committee_valid c \<Longrightarrow> quorum_of c ns \<Longrightarrow> ns \<noteq> []"
  by (auto simp: quorum_of_def unat_quorum_threshold)

lemma QC_verify_Ok_iff:
  assumes "committee_valid c"
  shows "QC_verify L c qc = Ok u \<longleftrightarrow> quorum_of c (map fst (qc_votes qc)) \<and>
    (\<forall>(k, s) \<in> set (qc_votes qc). sig_ok L (QC_digest L qc) k s)"
proof -
  have "QC_verify L c qc = Ok u \<longleftrightarrow> quorum_of c (map fst (qc_votes qc)) \<and>
      verify_batch L (QC_digest L qc) (qc_votes qc) = Ok u"
    unfolding quorum_check_iff [OF assms, symmetric]
    by (auto simp: QC_verify_def bindO_Ok_iff check_voters_Ok_iff)
  moreover have "quorum_of c (map fst (qc_votes qc)) \<Longrightarrow> qc_votes qc \<noteq> []"
    using quorum_nonempty [OF assms] by fastforce
  ultimately show ?thesis by (auto simp: verify_batch_Ok_iff)
qed

lemma QC_verify_no_panic [simp]: "QC_verify L c qc \<noteq> Panic p" "QC_verify L c qc \<noteq> Diverge"
  unfolding QC_verify_def
  by (cases "check_voters c (\<lambda>name. AuthorityReuse (qc_hash qc) name (qc_round qc) ''QC-verify'')
      (map fst (qc_votes qc)) {} 0"; cases "verify_batch L (QC_digest L qc) (qc_votes qc)";
      simp add: ensure_def)+

lemma TC_check_signatures_Ok_iff:
  "TC_check_signatures L r vs = Ok u \<longleftrightarrow>
    (\<forall>(k, s, hq, ht) \<in> set vs. sig_ok L (timeout_digest L r hq ht) k s)"
  by (induction vs) (auto simp: bindO_Ok_iff)

lemma TC_verify_Ok_iff:
  assumes "committee_valid c"
  shows "TC_verify L c tc = Ok u \<longleftrightarrow> quorum_of c (map fst (tc_votes tc)) \<and>
    (\<forall>(k, s, hq, ht) \<in> set (tc_votes tc). sig_ok L (timeout_digest L (tc_round tc) hq ht) k s)"
  unfolding quorum_check_iff [OF assms, symmetric]
  by (auto simp: TC_verify_def bindO_Ok_iff check_voters_Ok_iff TC_check_signatures_Ok_iff)

lemma TC_verify_nonempty: "committee_valid c \<Longrightarrow> TC_verify L c tc = Ok u \<Longrightarrow> high_qc_rounds tc \<noteq> []"
  using quorum_nonempty [of c "map fst (tc_votes tc)"]
  by (auto simp: TC_verify_Ok_iff high_qc_rounds_def)

lemma Block_verify_Ok_iff:
  "Block_verify L c b = Ok u \<longleftrightarrow> 0 < stake c (blk_author b) \<and>
    sig_ok L (Block_digest L b) (blk_author b) (blk_signature b) \<and>
    (QC_eq (blk_qc b) QC_genesis \<or> QC_verify L c (blk_qc b) = Ok ()) \<and>
    (\<forall>tc. blk_tc b = Some tc \<longrightarrow> TC_verify L c tc = Ok ())"
  by (auto simp: Block_verify_def bindO_Ok_iff split: option.splits)

lemma Vote_verify_Ok_iff:
  "Vote_verify L c v = Ok u \<longleftrightarrow> 0 < stake c (vote_author v) \<and>
    sig_ok L (Vote_digest L v) (vote_author v) (vote_signature v)"
  by (auto simp: Vote_verify_def bindO_Ok_iff)

lemma Timeout_verify_Ok_iff:
  "Timeout_verify L c t = Ok u \<longleftrightarrow> 0 < stake c (to_author t) \<and>
    sig_ok L (Timeout_digest L t) (to_author t) (to_signature t) \<and>
    (QC_eq (to_high_qc t) QC_genesis \<or> QC_verify L c (to_high_qc t) = Ok ()) \<and>
    (TC_eq (to_high_tc t) TC_default \<or> TC_verify L c (to_high_tc t) = Ok ())"
  by (auto simp: Timeout_verify_def bindO_Ok_iff)

lemma QC_eq_refl [simp]: "QC_eq q q"
  by (simp add: QC_eq_def)

text \<open>None of these computations has a loop that could fail to end.\<close>

lemma TC_check_signatures_ends: "TC_check_signatures L r vs \<noteq> Diverge"
proof (induction vs)
  case (Cons v vs)
  obtain k s hq ht where "v = (k, s, hq, ht)" by (cases v)
  with Cons show ?case by simp
qed simp

lemma verify_ends [simp]:
  "TC_verify L c tc \<noteq> Diverge" "Block_verify L c b \<noteq> Diverge" "Vote_verify L c v \<noteq> Diverge"
  "Timeout_verify L c t \<noteq> Diverge"
proof -
  show tc: "TC_verify L c tc \<noteq> Diverge" for tc
    by (simp add: TC_verify_def TC_check_signatures_ends)
  show "Block_verify L c b \<noteq> Diverge"
    by (simp add: Block_verify_def tc split: option.splits)
  show "Vote_verify L c v \<noteq> Diverge"
    by (simp add: Vote_verify_def)
  show "Timeout_verify L c t \<noteq> Diverge"
    by (simp add: Timeout_verify_def tc)
qed

lemma new_ends [simp]:
  "Vote_new L k b name \<noteq> Diverge" "Timeout_new L k qc tc r name \<noteq> Diverge"
  "Block_new L k qc tco name r pl \<noteq> Diverge"
  by (simp_all add: Vote_new_def Timeout_new_def Block_new_def Let_def)

end
