(* ===== verification/Collector.thy ===== *)
theory Collector
  imports Quorum
begin

text \<open>
  The contract of a certificate maker: messages of distinct committee members are accumulated until
  their weight reaches the quorum, a certificate is returned then, and never again.  The consensus
  crate has two such makers, for votes and for timeouts (theory \<open>Aggregator\<close>).
\<close>

text \<open>Appending a list of messages one after the other, with the results in order.\<close>

fun collect :: "('m \<Rightarrow> 'st \<Rightarrow> ('e, 'q option) outcome \<times> 'st) \<Rightarrow> 'm list \<Rightarrow> 'st
    \<Rightarrow> ('e, 'q option) outcome list \<times> 'st" where
  "collect app [] st = ([], st)"
| "collect app (m # ms) st =
    (let (r, st1) = app m st; (rs, st2) = collect app ms st1 in (r # rs, st2))"

fun certs :: "('e, 'q option) outcome list \<Rightarrow> 'q list" where
  "certs [] = []"
| "certs (Ok (Some q) # rs) = q # certs rs"
| "certs (_ # rs) = certs rs"

lemma collect_Cons:
  "app m st = (r, st1) \<Longrightarrow> fst (collect app (m # ms) st) = r # fst (collect app ms st1)"
  by (simp add: split_def Let_def)

locale vote_collector = quorum_system valid members weight quorum
  for valid :: "'c \<Rightarrow> bool" and members :: "'c \<Rightarrow> 'k set"
    and weight :: "'c \<Rightarrow> 'k \<Rightarrow> nat" and quorum :: "'c \<Rightarrow> nat" +
  fixes append :: "'m \<Rightarrow> 'c \<Rightarrow> 'st \<Rightarrow> ('e, 'q option) outcome \<times> 'st"
    and empty :: 'st
    and inv :: "'st \<Rightarrow> bool"
    and voters :: "'st \<Rightarrow> 'k list"
    and acc :: "'st \<Rightarrow> nat"
    and author :: "'m \<Rightarrow> 'k"
    and cert_voters :: "'q \<Rightarrow> 'k list"
  assumes inv_empty: "inv empty" "voters empty = []" "acc empty = 0"
    and inv_distinct: "inv st \<Longrightarrow> distinct (voters st)"
    and append_reuse: "inv st \<Longrightarrow> author m \<in> set (voters st) \<Longrightarrow> \<exists>e. append m c st = (Err e, st)"
    and append_below: "valid c \<Longrightarrow> inv st \<Longrightarrow> author m \<notin> set (voters st) \<Longrightarrow> author m \<in> members c \<Longrightarrow>
        acc st + weight c (author m) < quorum c \<Longrightarrow>
        \<exists>st'. append m c st = (Ok None, st') \<and> inv st' \<and> voters st' = voters st @ [author m] \<and>
          acc st' = acc st + weight c (author m)"
    and append_reach: "valid c \<Longrightarrow> inv st \<Longrightarrow> author m \<notin> set (voters st) \<Longrightarrow> author m \<in> members c \<Longrightarrow>
        acc st + weight c (author m) \<le> sum (weight c) (members c) \<Longrightarrow>
        quorum c \<le> acc st + weight c (author m) \<Longrightarrow>
        \<exists>q st'. append m c st = (Ok (Some q), st') \<and> inv st' \<and>
          voters st' = voters st @ [author m] \<and> acc st' = 0 \<and> cert_voters q = voters st'"
begin

text \<open>Before the certificate: the accumulated weight is that of the voters, below the quorum.\<close>

definition fresh :: "'c \<Rightarrow> 'st \<Rightarrow> bool" where
  "fresh c st \<longleftrightarrow> inv st \<and> set (voters st) \<subseteq> members c \<and> acc st = sum (weight c) (set (voters st)) \<and>
    acc st < quorum c"

text \<open>After it: the accumulated weight is that of the voters outside some quorum.\<close>

definition made :: "'c \<Rightarrow> 'st \<Rightarrow> bool" where
  "made c st \<longleftrightarrow> inv st \<and> set (voters st) \<subseteq> members c \<and>
    (\<exists>A \<subseteq> set (voters st). quorum c \<le> sum (weight c) A \<and>
      acc st = sum (weight c) (set (voters st) - A))"

lemma sum_new_voter:
  assumes "author m \<notin> set (voters st)"
  shows "sum (weight c) (set (voters st @ [author m])) =
    sum (weight c) (set (voters st)) + weight c (author m)"
  using assms by simp

lemma fresh_empty: "valid c \<Longrightarrow> fresh c empty"
  by (simp add: fresh_def inv_empty quorum_eq)

lemma fresh_append:
  assumes v: "valid c" and f: "fresh c st" and mem: "author m \<in> members c"
    and app: "append m c st = (r, st')"
  obtains (reuse) e where "author m \<in> set (voters st)" "r = Err e" "st' = st"
    | (more) "r = Ok None" "fresh c st'" "voters st' = voters st @ [author m]"
    | (cert) q where "r = Ok (Some q)" "made c st'" "voters st' = voters st @ [author m]"
        "cert_voters q = voters st'" "quorum c \<le> sum (weight c) (set (cert_voters q))"
proof (cases "author m \<in> set (voters st)")
  case True
  then show ?thesis using append_reuse [of st m c] f app reuse by (auto simp: fresh_def)
next
  case new: False
  have sub: "set (voters st @ [author m]) \<subseteq> members c" using f mem by (auto simp: fresh_def)
  have w: "acc st + weight c (author m) = sum (weight c) (set (voters st @ [author m]))"
    using f new by (simp add: fresh_def sum_new_voter)
  show ?thesis
  proof (cases "acc st + weight c (author m) < quorum c")
    case True
    then obtain st1 where "append m c st = (Ok None, st1)" "inv st1"
        "voters st1 = voters st @ [author m]" "acc st1 = acc st + weight c (author m)"
      using append_below [OF v _ new mem] f by (auto simp: fresh_def)
    with True w sub app show ?thesis by (intro more) (auto simp: fresh_def)
  next
    case False
    then obtain q st1 where "append m c st = (Ok (Some q), st1)" "inv st1"
        "voters st1 = voters st @ [author m]" "acc st1 = 0" "cert_voters q = voters st1"
      using append_reach [OF v _ new mem] f weight_mono [OF v sub] w by (auto simp: fresh_def)
    with False w sub app show ?thesis
      by (intro cert [of q]) (auto simp: made_def intro!: exI [of _ "set (voters st1)"])
  qed
qed

lemma made_append:
  assumes v: "valid c" and f: "made c st" and mem: "author m \<in> members c"
    and app: "append m c st = (r, st')"
  shows "(\<exists>e. r = Err e) \<and> st' = st \<or> r = Ok None \<and> made c st'"
proof (cases "author m \<in> set (voters st)")
  case True
  then show ?thesis using append_reuse [of st m c] f app by (auto simp: made_def)
next
  case new: False
  obtain A where A: "A \<subseteq> set (voters st)" "quorum c \<le> sum (weight c) A"
      "acc st = sum (weight c) (set (voters st) - A)"
    using f by (auto simp: made_def)
  have sub: "set (voters st) \<subseteq> members c" using f by (simp add: made_def)
  have eq: "set (voters st @ [author m]) - A = insert (author m) (set (voters st) - A)"
    using A(1) new by auto
  have w: "acc st + weight c (author m) = sum (weight c) (set (voters st @ [author m]) - A)"
    unfolding eq using A(3) new by simp
  have "sum (weight c) (set (voters st @ [author m]) - A) \<le> sum (weight c) (members c - A)"
    using sub mem members_finite [OF v] by (intro sum_mono2) auto
  also have "\<dots> < quorum c" using A sub v by (intro rest_lt_quorum) auto
  finally have "acc st + weight c (author m) < quorum c" using w by simp
  from append_below [OF v _ new mem this] f obtain st1 where
      st1: "append m c st = (Ok None, st1)" "inv st1" "voters st1 = voters st @ [author m]"
        "acc st1 = acc st + weight c (author m)"
    by (auto simp: made_def)
  have "made c st1"
    unfolding made_def using st1 sub mem A w by (auto intro!: exI [of _ A])
  with st1(1) app show ?thesis by simp
qed

lemma active_append:
  assumes "valid c" "fresh c st \<or> made c st" "author m \<in> members c" "append m c st = (r, st')"
  shows "(fresh c st' \<or> made c st') \<and> (\<forall>q. r = Ok (Some q) \<longrightarrow> distinct (cert_voters q) \<and>
    quorum c \<le> sum (weight c) (set (cert_voters q)))"
proof (cases "fresh c st")
  case True
  from assms(1) this assms(3,4) show ?thesis
  proof (cases rule: fresh_append)
    case (cert q)
    then show ?thesis using inv_distinct [of st'] by (simp add: made_def)
  qed (use True in auto)
next
  case False
  then have "made c st" using assms(2) by simp
  from made_append [OF assms(1) this assms(3,4)] this show ?thesis by auto
qed

lemma collect_made:
  assumes v: "valid c"
  shows "made c st \<Longrightarrow> author ` set ms \<subseteq> members c \<Longrightarrow>
    certs (fst (collect (\<lambda>m. append m c) ms st)) = []"
proof (induction ms arbitrary: st)
  case (Cons m ms)
  obtain r st1 where app: "append m c st = (r, st1)" by (cases "append m c st")
  have "certs (fst (collect (\<lambda>m. append m c) ms st1)) = [] \<and> ((\<exists>e. r = Err e) \<or> r = Ok None)"
    using made_append [OF v Cons.prems(1) _ app] Cons by auto
  then show ?case
    unfolding collect_Cons [where app = "\<lambda>m. append m c", OF app] by auto
qed simp

text \<open>
  From an empty maker at most one certificate comes out; it comes out exactly when the messages'
  authors reach the quorum, and its voters are a quorum.
\<close>

lemma collect_fresh:
  assumes v: "valid c"
  shows "fresh c st \<Longrightarrow> author ` set ms \<subseteq> members c \<Longrightarrow>
    (if quorum c \<le> sum (weight c) (set (voters st) \<union> author ` set ms)
     then \<exists>q. certs (fst (collect (\<lambda>m. append m c) ms st)) = [q] \<and> distinct (cert_voters q) \<and>
       set (cert_voters q) \<subseteq> set (voters st) \<union> author ` set ms \<and>
       quorum c \<le> sum (weight c) (set (cert_voters q))
     else certs (fst (collect (\<lambda>m. append m c) ms st)) = [])"
proof (induction ms arbitrary: st)
  case Nil
  then show ?case by (auto simp: fresh_def)
next
  case (Cons m ms)
  let ?all = "set (voters st) \<union> author ` set (m # ms)"
  obtain r st1 where app: "append m c st = (r, st1)" by (cases "append m c st")
  have col: "certs (fst (collect (\<lambda>m. append m c) (m # ms) st)) =
      certs (r # fst (collect (\<lambda>m. append m c) ms st1))"
    by (simp only: collect_Cons [where app = "\<lambda>m. append m c", OF app])
  have mem: "author m \<in> members c" and sub: "author ` set ms \<subseteq> members c" using Cons.prems by auto
  from v Cons.prems(1) mem app show ?case
  proof (cases rule: fresh_append)
    case (reuse e)
    then have all: "set (voters st1) \<union> author ` set ms = ?all" by auto
    have "fresh c st1" using reuse Cons.prems by simp
    from Cons.IH [OF this sub] show ?thesis unfolding col all reuse(2) certs.simps .
  next
    case more
    then have all: "set (voters st1) \<union> author ` set ms = ?all" by auto
    from Cons.IH [OF more(2) sub] show ?thesis unfolding col all more(1) certs.simps .
  next
    case (cert q)
    have none: "certs (fst (collect (\<lambda>m. append m c) ms st1)) = []"
      using collect_made [OF v cert(2)] Cons.prems by simp
    have part: "set (cert_voters q) \<subseteq> ?all" using cert by auto
    have fin: "finite ?all" by simp
    have "quorum c \<le> sum (weight c) ?all"
      using cert(5) sum_mono2 [OF fin part, of "weight c"] by simp
    moreover have "distinct (cert_voters q)"
      using cert inv_distinct [of st1] by (simp add: made_def)
    ultimately show ?thesis using cert(1,5) none part unfolding col by simp
  qed
qed

lemma collect_empty_once:
  assumes v: "valid c" and mem: "author ` set ms \<subseteq> members c"
  shows "length (certs (fst (collect (\<lambda>m. append m c) ms empty))) =
    (if quorum c \<le> sum (weight c) (author ` set ms) then 1 else 0)"
  using collect_fresh [OF v fresh_empty [OF v] mem] by (auto simp: inv_empty split: if_splits)

lemma collect_empty_quorum:
  assumes v: "valid c" and mem: "author ` set ms \<subseteq> members c"
    and q: "q \<in> set (certs (fst (collect (\<lambda>m. append m c) ms empty)))"
  shows "distinct (cert_voters q) \<and> set (cert_voters q) \<subseteq> author ` set ms \<and>
    quorum c \<le> sum (weight c) (set (cert_voters q))"
  using collect_fresh [OF v fresh_empty [OF v] mem] q by (auto simp: inv_empty split: if_splits)

end

end
