(* ===== verification/Aggregator.thy ===== *)
theory Aggregator
  imports Messages Collector
begin

text \<open>
  Vote and timeout aggregation (\<open>src/hotstuff/consensus/src/aggregator.rs\<close>).  Both makers are
  interpretations of the certificate-maker contract of theory \<open>Collector\<close>; the aggregator keeps one
  vote maker per round and vote digest and one timeout maker per round.
\<close>

section \<open>Makers\<close>

record QCMaker =
  qm_weight :: Stake
  qm_votes :: "(PublicKey \<times> Signature) list"
  qm_used :: "PublicKey set"

definition QCMaker_new :: QCMaker where
  "QCMaker_new = \<lparr>qm_weight = 0, qm_votes = [], qm_used = {}\<rparr>"

definition QCMaker_append :: "Vote \<Rightarrow> Committee \<Rightarrow> QCMaker
    \<Rightarrow> (ConsensusError, QC option) outcome \<times> QCMaker" where
  "QCMaker_append vote c self =
    (let author = vote_author vote in
     if author \<in> qm_used self
     then (Err (AuthorityReuse (vote_hash vote) author (vote_round vote) ''QC''), self)
     else let self1 = self\<lparr>qm_used := insert author (qm_used self),
                qm_votes := qm_votes self @ [(author, vote_signature vote)],
                qm_weight := qm_weight self + stake c author\<rparr> in
       if quorum_threshold c \<le> qm_weight self1
       then (Ok (Some \<lparr>qc_hash = vote_hash vote, qc_round = vote_round vote,
               qc_payload_size = vote_payload_size vote, qc_votes = qm_votes self1\<rparr>),
             self1\<lparr>qm_weight := 0\<rparr>)
       else (Ok None, self1))"

record TCMaker =
  tm_weight :: Stake
  tm_votes :: "(PublicKey \<times> Signature \<times> Round \<times> Round) list"
  tm_used :: "PublicKey set"

definition TCMaker_new :: TCMaker where
  "TCMaker_new = \<lparr>tm_weight = 0, tm_votes = [], tm_used = {}\<rparr>"

definition TCMaker_append :: "Timeout \<Rightarrow> Committee \<Rightarrow> TCMaker
    \<Rightarrow> (ConsensusError, TC option) outcome \<times> TCMaker" where
  "TCMaker_append timeout c self =
    (let author = to_author timeout in
     if author \<in> tm_used self
     then (Err (AuthorityReuse (qc_hash (to_high_qc timeout)) author (to_round timeout) ''TC''), self)
     else let self1 = self\<lparr>tm_used := insert author (tm_used self),
                tm_votes := tm_votes self @ [(author, to_signature timeout,
                  qc_round (to_high_qc timeout), tc_round (to_high_tc timeout))],
                tm_weight := tm_weight self + stake c author\<rparr> in
       if quorum_threshold c \<le> tm_weight self1
       then (Ok (Some \<lparr>tc_round = to_round timeout, tc_votes = tm_votes self1\<rparr>),
             self1\<lparr>tm_weight := 0\<rparr>)
       else (Ok None, self1))"

section \<open>The aggregator\<close>

record Aggregator =
  agg_committee :: Committee
  votes_aggregators :: "Round \<rightharpoonup> (Digest \<rightharpoonup> QCMaker)"
  timeouts_aggregators :: "Round \<rightharpoonup> TCMaker"

definition Aggregator_new :: "Committee \<Rightarrow> Aggregator" where
  "Aggregator_new c = \<lparr>agg_committee = c, votes_aggregators = Map.empty,
    timeouts_aggregators = Map.empty\<rparr>"

definition votes_at :: "Aggregator \<Rightarrow> Round \<Rightarrow> (Digest \<rightharpoonup> QCMaker)" where
  "votes_at a r = (case votes_aggregators a r of None \<Rightarrow> Map.empty | Some m \<Rightarrow> m)"

definition maker_at :: "Aggregator \<Rightarrow> Round \<Rightarrow> Digest \<Rightarrow> QCMaker" where
  "maker_at a r d = (case votes_at a r d of None \<Rightarrow> QCMaker_new | Some q \<Rightarrow> q)"

definition add_vote :: "'z crypto_lib_scheme \<Rightarrow> Vote \<Rightarrow> Aggregator
    \<Rightarrow> (ConsensusError, QC option) outcome \<times> Aggregator" where
  "add_vote L vote self =
    (let r = vote_round vote; d = Vote_digest L vote;
       (res, maker) = QCMaker_append vote (agg_committee self) (maker_at self r d) in
     (res, self\<lparr>votes_aggregators := (votes_aggregators self)(r \<mapsto> (votes_at self r)(d \<mapsto> maker))\<rparr>))"

definition tmaker_at :: "Aggregator \<Rightarrow> Round \<Rightarrow> TCMaker" where
  "tmaker_at a r = (case timeouts_aggregators a r of None \<Rightarrow> TCMaker_new | Some t \<Rightarrow> t)"

definition add_timeout :: "Timeout \<Rightarrow> Aggregator
    \<Rightarrow> (ConsensusError, TC option) outcome \<times> Aggregator" where
  "add_timeout timeout self =
    (let r = to_round timeout;
       (res, maker) = TCMaker_append timeout (agg_committee self) (tmaker_at self r) in
     (res, self\<lparr>timeouts_aggregators := (timeouts_aggregators self)(r \<mapsto> maker)\<rparr>))"

definition agg_cleanup :: "Round \<Rightarrow> Aggregator \<Rightarrow> Aggregator" where
  "agg_cleanup round self = self\<lparr>
    votes_aggregators := (\<lambda>k. if round \<le> k then votes_aggregators self k else None),
    timeouts_aggregators := (\<lambda>k. if round \<le> k then timeouts_aggregators self k else None)\<rparr>"

section \<open>The makers meet the contract\<close>

definition qm_inv :: "QCMaker \<Rightarrow> bool" where
  "qm_inv m \<longleftrightarrow> distinct (map fst (qm_votes m)) \<and> qm_used m = set (map fst (qm_votes m))"

definition tm_inv :: "TCMaker \<Rightarrow> bool" where
  "tm_inv m \<longleftrightarrow> distinct (map fst (tm_votes m)) \<and> tm_used m = set (map fst (tm_votes m))"

text \<open>The comparison of \<open>u32\<close> weights agrees with that of numbers while nothing overflows.\<close>

lemma weight_test:
  assumes "committee_valid c" "unat w + nstake c k \<le> sum (nstake c) (names c)"
  shows "unat (w + stake c k) = unat w + nstake c k"
    and "quorum_threshold c \<le> w + stake c k \<longleftrightarrow> unat (quorum_threshold c) \<le> unat w + nstake c k"
proof -
  show u: "unat (w + stake c k) = unat w + nstake c k"
    using assms(2) total_bound [OF assms(1)] by (subst unat_word_ariths) (simp add: nstake_def)
  show "quorum_threshold c \<le> w + stake c k \<longleftrightarrow> unat (quorum_threshold c) \<le> unat w + nstake c k"
    by (simp add: word_le_nat_alt u)
qed

lemma weight_test_small:
  assumes "committee_valid c" "unat w + nstake c k < unat (quorum_threshold c)"
  shows "unat (w + stake c k) = unat w + nstake c k" "\<not> quorum_threshold c \<le> w + stake c k"
proof -
  have "unat w + nstake c k < 2 ^ 32"
    using assms(2) unsigned_less [of "quorum_threshold c", where ?'a = nat] by simp
  then show u: "unat (w + stake c k) = unat w + nstake c k"
    by (subst unat_word_ariths) (simp add: nstake_def)
  show "\<not> quorum_threshold c \<le> w + stake c k"
    using assms(2) by (simp add: word_le_nat_alt u)
qed

lemma QCMaker_append_below:
  assumes "committee_valid c" "qm_inv m" "vote_author v \<notin> set (map fst (qm_votes m))"
    and "unat (qm_weight m) + nstake c (vote_author v) < unat (quorum_threshold c)"
  shows "\<exists>m'. QCMaker_append v c m = (Ok None, m') \<and> qm_inv m' \<and>
    map fst (qm_votes m') = map fst (qm_votes m) @ [vote_author v] \<and>
    unat (qm_weight m') = unat (qm_weight m) + nstake c (vote_author v)"
  using assms(2,3) weight_test_small [OF assms(1,4)]
  by (simp add: QCMaker_append_def Let_def qm_inv_def)

lemma QCMaker_append_reach:
  assumes "committee_valid c" "qm_inv m" "vote_author v \<notin> set (map fst (qm_votes m))"
    and "unat (qm_weight m) + nstake c (vote_author v) \<le> sum (nstake c) (names c)"
    and "unat (quorum_threshold c) \<le> unat (qm_weight m) + nstake c (vote_author v)"
  shows "\<exists>q m'. QCMaker_append v c m = (Ok (Some q), m') \<and> qm_inv m' \<and>
    map fst (qm_votes m') = map fst (qm_votes m) @ [vote_author v] \<and>
    unat (qm_weight m') = 0 \<and> map fst (qc_votes q) = map fst (qm_votes m')"
  using assms(2,3,5) weight_test [OF assms(1,4)]
  by (simp add: QCMaker_append_def Let_def qm_inv_def)

lemma TCMaker_append_below:
  assumes "committee_valid c" "tm_inv m" "to_author v \<notin> set (map fst (tm_votes m))"
    and "unat (tm_weight m) + nstake c (to_author v) < unat (quorum_threshold c)"
  shows "\<exists>m'. TCMaker_append v c m = (Ok None, m') \<and> tm_inv m' \<and>
    map fst (tm_votes m') = map fst (tm_votes m) @ [to_author v] \<and>
    unat (tm_weight m') = unat (tm_weight m) + nstake c (to_author v)"
  using assms(2,3) weight_test_small [OF assms(1,4)]
  by (simp add: TCMaker_append_def Let_def tm_inv_def)

lemma TCMaker_append_reach:
  assumes "committee_valid c" "tm_inv m" "to_author v \<notin> set (map fst (tm_votes m))"
    and "unat (tm_weight m) + nstake c (to_author v) \<le> sum (nstake c) (names c)"
    and "unat (quorum_threshold c) \<le> unat (tm_weight m) + nstake c (to_author v)"
  shows "\<exists>q m'. TCMaker_append v c m = (Ok (Some q), m') \<and> tm_inv m' \<and>
    map fst (tm_votes m') = map fst (tm_votes m) @ [to_author v] \<and>
    unat (tm_weight m') = 0 \<and> map fst (tc_votes q) = map fst (tm_votes m')"
  using assms(2,3,5) weight_test [OF assms(1,4)]
  by (simp add: TCMaker_append_def Let_def tm_inv_def)

interpretation qcm: vote_collector committee_valid names nstake "\<lambda>c. unat (quorum_threshold c)"
  QCMaker_append QCMaker_new qm_inv "\<lambda>m. map fst (qm_votes m)" "\<lambda>m. unat (qm_weight m)" vote_author
  "\<lambda>q. map fst (qc_votes q)"
proof (unfold_locales, goal_cases)
  case (6 c st m)
  then show ?case by (intro QCMaker_append_below)
next
  case (7 c st m)
  then show ?case by (intro QCMaker_append_reach)
qed (simp_all add: QCMaker_append_def QCMaker_new_def qm_inv_def)

interpretation tcm: vote_collector committee_valid names nstake "\<lambda>c. unat (quorum_threshold c)"
  TCMaker_append TCMaker_new tm_inv "\<lambda>m. map fst (tm_votes m)" "\<lambda>m. unat (tm_weight m)" to_author
  "\<lambda>q. map fst (tc_votes q)"
proof (unfold_locales, goal_cases)
  case (6 c st m)
  then show ?case by (intro TCMaker_append_below)
next
  case (7 c st m)
  then show ?case by (intro TCMaker_append_reach)
qed (simp_all add: TCMaker_append_def TCMaker_new_def tm_inv_def)

section \<open>Certificates the aggregator returns verify\<close>

text \<open>
  What holds of a maker in use: every recorded signature is valid for the maker's digest (for a
  timeout maker: for its round) and the weight counter stands where the contract says.
\<close>

definition qm_ok :: "'z crypto_lib_scheme \<Rightarrow> Committee \<Rightarrow> Digest \<Rightarrow> QCMaker \<Rightarrow> bool" where
  "qm_ok L c d m \<longleftrightarrow> (qcm.fresh c m \<or> qcm.made c m) \<and>
    (\<forall>(k, s) \<in> set (qm_votes m). 0 < stake c k \<and> sig_ok L d k s)"

definition tm_ok :: "'z crypto_lib_scheme \<Rightarrow> Committee \<Rightarrow> Round \<Rightarrow> TCMaker \<Rightarrow> bool" where
  "tm_ok L c r m \<longleftrightarrow> (tcm.fresh c m \<or> tcm.made c m) \<and>
    (\<forall>(k, s, hq, ht) \<in> set (tm_votes m). 0 < stake c k \<and> sig_ok L (timeout_digest L r hq ht) k s)"

definition agg_inv :: "'z crypto_lib_scheme \<Rightarrow> Aggregator \<Rightarrow> bool" where
  "agg_inv L a \<longleftrightarrow> committee_valid (agg_committee a) \<and>
    (\<forall>r d. qm_ok L (agg_committee a) d (maker_at a r d)) \<and>
    (\<forall>r. tm_ok L (agg_committee a) r (tmaker_at a r))"

lemma QCMaker_append_votes:
  "QCMaker_append v c m = (r, m') \<Longrightarrow>
    (\<exists>e. r = Err e) \<and> m' = m \<or>
    qm_votes m' = qm_votes m @ [(vote_author v, vote_signature v)] \<and>
      (r = Ok None \<or> r = Ok (Some \<lparr>qc_hash = vote_hash v, qc_round = vote_round v,
        qc_payload_size = vote_payload_size v, qc_votes = qm_votes m'\<rparr>))"
  by (auto simp: QCMaker_append_def Let_def split: if_splits)

lemma TCMaker_append_votes:
  "TCMaker_append t c m = (r, m') \<Longrightarrow>
    (\<exists>e. r = Err e) \<and> m' = m \<or>
    tm_votes m' = tm_votes m @ [(to_author t, to_signature t, qc_round (to_high_qc t),
        tc_round (to_high_tc t))] \<and>
      (r = Ok None \<or> r = Ok (Some \<lparr>tc_round = to_round t, tc_votes = tm_votes m'\<rparr>))"
  by (auto simp: TCMaker_append_def Let_def split: if_splits)

lemma QCMaker_append_ok:
  assumes c: "committee_valid c" and ok: "qm_ok L c (Vote_digest L v) m"
    and v: "Vote_verify L c v = Ok ()" and app: "QCMaker_append v c m = (r, m')"
  shows "qm_ok L c (Vote_digest L v) m' \<and> (\<forall>q. r = Ok (Some q) \<longrightarrow> QC_verify L c q = Ok ())"
proof -
  have mem: "vote_author v \<in> names c"
    using v by (auto simp: Vote_verify_Ok_iff intro: stake_pos_member)
  have sigs: "\<forall>(k, s) \<in> set (qm_votes m'). 0 < stake c k \<and> sig_ok L (Vote_digest L v) k s"
    using QCMaker_append_votes [OF app] ok v by (auto simp: qm_ok_def Vote_verify_Ok_iff)
  have "(qcm.fresh c m' \<or> qcm.made c m') \<and> (\<forall>q. r = Ok (Some q) \<longrightarrow>
      distinct (map fst (qc_votes q)) \<and>
      unat (quorum_threshold c) \<le> sum (nstake c) (set (map fst (qc_votes q))))"
    using ok by (intro qcm.active_append [OF c _ mem app]) (simp add: qm_ok_def)
  moreover have "QC_verify L c q = Ok ()" if r: "r = Ok (Some q)" and "distinct (map fst (qc_votes q))"
      "unat (quorum_threshold c) \<le> sum (nstake c) (set (map fst (qc_votes q)))" for q
  proof -
    have q: "qc_votes q = qm_votes m'" "QC_digest L q = Vote_digest L v"
      using QCMaker_append_votes [OF app] r by (auto simp: QC_digest_def Vote_digest_def)
    show ?thesis
      using that sigs unfolding QC_verify_Ok_iff [OF c] q quorum_of_def
      by auto
  qed
  ultimately show ?thesis using sigs by (auto simp: qm_ok_def)
qed

lemma TCMaker_append_ok:
  assumes c: "committee_valid c" and ok: "tm_ok L c (to_round t) m"
    and v: "Timeout_verify L c t = Ok ()" and app: "TCMaker_append t c m = (r, m')"
  shows "tm_ok L c (to_round t) m' \<and> (\<forall>q. r = Ok (Some q) \<longrightarrow> TC_verify L c q = Ok ())"
proof -
  have mem: "to_author t \<in> names c"
    using v by (auto simp: Timeout_verify_Ok_iff intro: stake_pos_member)
  have sigs: "\<forall>(k, s, hq, ht) \<in> set (tm_votes m'). 0 < stake c k \<and>
      sig_ok L (timeout_digest L (to_round t) hq ht) k s"
    using TCMaker_append_votes [OF app] ok v
    by (auto simp: tm_ok_def Timeout_verify_Ok_iff Timeout_digest_def)
  have "(tcm.fresh c m' \<or> tcm.made c m') \<and> (\<forall>q. r = Ok (Some q) \<longrightarrow>
      distinct (map fst (tc_votes q)) \<and>
      unat (quorum_threshold c) \<le> sum (nstake c) (set (map fst (tc_votes q))))"
    using ok by (intro tcm.active_append [OF c _ mem app]) (simp add: tm_ok_def)
  moreover have "TC_verify L c q = Ok ()" if r: "r = Ok (Some q)" and "distinct (map fst (tc_votes q))"
      "unat (quorum_threshold c) \<le> sum (nstake c) (set (map fst (tc_votes q)))" for q
  proof -
    have q: "tc_votes q = tm_votes m'" "tc_round q = to_round t"
      using TCMaker_append_votes [OF app] r by auto
    show ?thesis
      using that sigs unfolding TC_verify_Ok_iff [OF c] q quorum_of_def
      by auto
  qed
  ultimately show ?thesis using sigs by (auto simp: tm_ok_def)
qed

lemma maker_at_upd:
  "maker_at (a\<lparr>votes_aggregators := (votes_aggregators a)(r \<mapsto> (votes_at a r)(d \<mapsto> m))\<rparr>) r' d' =
    (if r' = r \<and> d' = d then m else maker_at a r' d')"
  by (simp add: maker_at_def votes_at_def)

lemma maker_at_simps [simp]:
  "maker_at (a\<lparr>timeouts_aggregators := x\<rparr>) r d = maker_at a r d"
  "tmaker_at (a\<lparr>votes_aggregators := y\<rparr>) r = tmaker_at a r"
  "tmaker_at (a\<lparr>timeouts_aggregators := (timeouts_aggregators a)(r \<mapsto> t)\<rparr>) r' =
    (if r' = r then t else tmaker_at a r')"
  by (simp_all add: maker_at_def votes_at_def tmaker_at_def)

lemma agg_committee_simps [simp]:
  "agg_committee (snd (add_vote L v a)) = agg_committee a"
  "agg_committee (snd (add_timeout t a)) = agg_committee a"
  "agg_committee (agg_cleanup r a) = agg_committee a"
  by (simp_all add: add_vote_def add_timeout_def agg_cleanup_def split_def Let_def)

lemma add_vote_inv:
  assumes inv: "agg_inv L a" and v: "Vote_verify L (agg_committee a) v = Ok ()"
    and add: "add_vote L v a = (r, a')"
  shows "agg_inv L a' \<and> (\<forall>q. r = Ok (Some q) \<longrightarrow> QC_verify L (agg_committee a) q = Ok ())"
proof -
  obtain m' where app: "QCMaker_append v (agg_committee a)
      (maker_at a (vote_round v) (Vote_digest L v)) = (r, m')"
    and a': "a' = a\<lparr>votes_aggregators := (votes_aggregators a)(vote_round v \<mapsto>
      (votes_at a (vote_round v))(Vote_digest L v \<mapsto> m'))\<rparr>"
    using add by (auto simp: add_vote_def Let_def split: prod.splits)
  show ?thesis
    using QCMaker_append_ok [OF _ _ v app] inv unfolding a' agg_inv_def by (auto simp: maker_at_upd)
qed

lemma add_timeout_inv:
  assumes inv: "agg_inv L a" and v: "Timeout_verify L (agg_committee a) t = Ok ()"
    and add: "add_timeout t a = (r, a')"
  shows "agg_inv L a' \<and> (\<forall>q. r = Ok (Some q) \<longrightarrow> TC_verify L (agg_committee a) q = Ok ())"
proof -
  obtain m' where app: "TCMaker_append t (agg_committee a) (tmaker_at a (to_round t)) = (r, m')"
    and a': "a' = a\<lparr>timeouts_aggregators := (timeouts_aggregators a)(to_round t \<mapsto> m')\<rparr>"
    using add by (auto simp: add_timeout_def Let_def split: prod.splits)
  show ?thesis
    using TCMaker_append_ok [OF _ _ v app] inv unfolding a' agg_inv_def by auto
qed

lemma new_makers_ok:
  assumes "committee_valid c"
  shows "qm_ok L c d QCMaker_new" "tm_ok L c r TCMaker_new"
  using qcm.fresh_empty [OF assms] tcm.fresh_empty [OF assms]
  by (simp_all add: qm_ok_def tm_ok_def QCMaker_new_def TCMaker_new_def)

lemma agg_inv_new: "committee_valid c \<Longrightarrow> agg_inv L (Aggregator_new c)"
  by (simp add: agg_inv_def Aggregator_new_def maker_at_def votes_at_def tmaker_at_def new_makers_ok)

lemma agg_inv_cleanup: "agg_inv L a \<Longrightarrow> agg_inv L (agg_cleanup r a)"
  by (simp add: agg_inv_def agg_cleanup_def maker_at_def votes_at_def tmaker_at_def new_makers_ok)

lemma add_no_panic:
  "fst (add_vote L v a) \<noteq> Panic p" "fst (add_vote L v a) \<noteq> Diverge"
  "fst (add_timeout t a) \<noteq> Panic p" "fst (add_timeout t a) \<noteq> Diverge"
  by (simp_all add: add_vote_def add_timeout_def QCMaker_append_def TCMaker_append_def Let_def
      split_def)

end
