(* ===== verification/Wire.thy ===== *)
theory Wire
  imports Messages
begin

text \<open>
  What crosses the boundaries of the consensus crate: the network envelope
  (\<open>src/hotstuff/network/src/dvf_message.rs\<close>, \<open>src/common/dvf_version/src/lib.rs\<close>), the messages of
  the internal channels, and the serialisation library \<open>bincode\<close> as a parameter.  The record \<open>hs_lib\<close>
  joins all third-party code that the consensus tasks reach.
\<close>

record DvfMessage =
  version :: u64
  validator_id :: u64
  message :: bytes

definition ROOT_VERSION :: u64 where "ROOT_VERSION = 1"
definition MAJOR_VERSION :: u64 where "MAJOR_VERSION = 2"
definition MINOR_VERSION :: u64 where "MINOR_VERSION = 0"

definition VERSION :: u64 where
  "VERSION = ROOT_VERSION * 1000000000000 + MAJOR_VERSION * 1000000 + MINOR_VERSION"

datatype ProposerMessage =
    Make Round QC "TC option"
  | Cleanup "Digest list"

datatype ConsensusMempoolMessage =
    Synchronize "Digest list" PublicKey
  | MempoolCleanup Round

datatype PayloadWaiterMessage =
    Wait "Digest list" Block
  | WaiterCleanup Round

record hs_lib = crypto_lib +
  rocks :: rocks_lib
  ser_block :: "Block \<Rightarrow> lib_error + bytes"
  de_block :: "bytes \<Rightarrow> lib_error + Block"
  ser_msg :: "ConsensusMessage \<Rightarrow> lib_error + bytes"
  de_msg :: "bytes \<Rightarrow> lib_error + ConsensusMessage"
  ser_dvf :: "DvfMessage \<Rightarrow> lib_error + bytes"
  de_dvf :: "bytes \<Rightarrow> lib_error + DvfMessage"

text \<open>Serialise a consensus message and wrap it for the network.\<close>

definition seal_msg :: "hs_lib \<Rightarrow> u64 \<Rightarrow> ConsensusMessage \<Rightarrow> string \<Rightarrow> (ConsensusError, bytes) outcome" where
  "seal_msg L vid msg err =
    bindO (unwrap_sum (ser_msg L msg) err) (\<lambda>m.
    unwrap_sum (ser_dvf L \<lparr>version = VERSION, validator_id = vid, message = m\<rparr>)
      ''called `Result::unwrap()` on an `Err` value'')"

lemma VERSION_value: "VERSION = 1000002000000"
  by (simp add: VERSION_def ROOT_VERSION_def MAJOR_VERSION_def MINOR_VERSION_def)

end
