(* ===== verification/Core.thy ===== *)
theory Core
  imports Aggregator Wire
begin

text \<open>
  The consensus core (\<open>src/hotstuff/consensus/src/core.rs\<close>) with the parts of the synchronizer and of
  the mempool driver that run inside its handlers (\<open>synchronizer.rs\<close>: \<open>get_parent_block\<close>,
  \<open>get_ancestors\<close>; \<open>mempool.rs\<close>: \<open>verify\<close>, \<open>cleanup\<close>).

  The state \<open>core\<close> has the fields of the Rust struct; the channels and the network are one list \<open>out\<close>
  of effects in the order in which the code performs them.  A handler runs to its end before the next
  event is taken, as the single task of \<open>run\<close> does; the store actor serves the core's requests in
  order and its answers to other waiting tasks are effects too.  The only unbounded loop of the
  component, in \<open>prune\<close>, has fuel.
\<close>

section \<open>State and effects\<close>

datatype core_out =
    TimerReset
  | SleepMs nat
  | Broadcast "SocketAddr list" ConsensusMessage bytes
  | ToProposer ProposerMessage
  | ToCommit Block
  | ToMempool ConsensusMempoolMessage
  | ToPayloadWaiter PayloadWaiterMessage
  | ToSyncInner Block
  | StoreReply reply

record core =
  core_name :: PublicKey
  core_committee :: Committee
  core_store :: store_state
  core_secret :: SecretKey
  core_round :: Round
  last_voted_round :: Round
  last_committed_round :: Round
  high_qc :: QC
  aggregator :: Aggregator
  core_validator_id :: u64
  recover_count :: u64
  high_tc :: TC
  prune_depth :: u64
  fast_commit_request :: u64
  out :: "core_out list"

type_synonym 'a core_act = "(core, ConsensusError, 'a) act"

definition Core_new :: "PublicKey \<Rightarrow> Committee \<Rightarrow> SecretKey \<Rightarrow> store_state \<Rightarrow> u64 \<Rightarrow> core" where
  "Core_new name c secret st vid = \<lparr>core_name = name, core_committee = c, core_store = st,
    core_secret = secret, core_round = 1, last_voted_round = 0, last_committed_round = 0,
    high_qc = QC_genesis, aggregator = Aggregator_new c, core_validator_id = vid,
    recover_count = 0, high_tc = TC_default, prune_depth = 15, fast_commit_request = 0, out = []\<rparr>"

definition emit :: "core_out \<Rightarrow> unit core_act" where
  "emit e = modM (\<lambda>s. s\<lparr>out := out s @ [e]\<rparr>)"

definition store_op :: "(store_state \<Rightarrow> store_state \<times> reply list) \<Rightarrow> unit core_act" where
  "store_op f = modM (\<lambda>s. let (st, rs) = f (core_store s) in
    s\<lparr>core_store := st, out := out s @ map StoreReply rs\<rparr>)"

definition core_leader :: "Round \<Rightarrow> PublicKey core_act" where
  "core_leader r = bindM (getM core_committee) (\<lambda>c. liftO (get_leader c r))"

definition broadcast :: "hs_lib \<Rightarrow> ConsensusMessage \<Rightarrow> string \<Rightarrow> unit core_act" where
  "broadcast L msg err =
    bindM (getM (\<lambda>s. map snd (broadcast_addresses (core_committee s) (core_name s)))) (\<lambda>addresses.
    bindM (getM core_validator_id) (\<lambda>vid.
    bindM (liftO (seal_msg L vid msg err)) (\<lambda>wire.
    emit (Broadcast addresses msg wire))))"

section \<open>Blocks in the store\<close>

definition store_block :: "hs_lib \<Rightarrow> Block \<Rightarrow> unit core_act" where
  "store_block L block =
    bindM (liftO (unwrap_sum (ser_block L block) ''Failed to serialize block'')) (\<lambda>value.
    store_op (store_write (rocks L) (Block_digest L block) value))"

definition remove_block :: "hs_lib \<Rightarrow> Block \<Rightarrow> unit core_act" where
  "remove_block L block = store_op (store_delete (rocks L) (Block_digest L block))"

definition get_parent_block :: "hs_lib \<Rightarrow> Block \<Rightarrow> Block option core_act" where
  "get_parent_block L block =
    (if QC_eq (blk_qc block) QC_genesis then retM (Some Block_genesis)
     else bindM (getM core_store) (\<lambda>st.
       case store_read (rocks L) (parent block) st of
         Inr (Some b) \<Rightarrow>
           bindM (liftO (unwrap_sum (de_block L b) ''Failed to deserialize block'')) (\<lambda>x. retM (Some x))
       | _ \<Rightarrow> retM None))"

text \<open>The synchronizer's reading of a parent: a missing one is handed to its background task.\<close>

definition sync_get_parent_block :: "hs_lib \<Rightarrow> Block \<Rightarrow> Block option core_act" where
  "sync_get_parent_block L block =
    (if QC_eq (blk_qc block) QC_genesis then retM (Some Block_genesis)
     else bindM (getM core_store) (\<lambda>st.
       case store_read (rocks L) (parent block) st of
         Inl e \<Rightarrow> liftO (Err (CStoreError e))
       | Inr (Some b) \<Rightarrow>
           bindM (liftO (map_err SerializationError (of_sum (de_block L b)))) (\<lambda>x. retM (Some x))
       | Inr None \<Rightarrow> thenM (emit (ToSyncInner block)) (retM None)))"

definition get_ancestors :: "hs_lib \<Rightarrow> Block \<Rightarrow> (Block \<times> Block) option core_act" where
  "get_ancestors L block =
    bindM (sync_get_parent_block L block) (\<lambda>p1. case p1 of
      None \<Rightarrow> retM None
    | Some b1 \<Rightarrow> bindM (sync_get_parent_block L b1) (\<lambda>p0. case p0 of
        None \<Rightarrow> retM None
      | Some b0 \<Rightarrow> retM (Some (b0, b1))))"

section \<open>Voting\<close>

definition increase_last_voted_round :: "Round \<Rightarrow> unit core_act" where
  "increase_last_voted_round target =
    modM (\<lambda>s. s\<lparr>last_voted_round := max (last_voted_round s) target\<rparr>)"

text \<open>\<open>iter().max().expect(..)\<close>, and the rule evaluated before any early return.\<close>

fun max_round :: "Round list \<Rightarrow> (ConsensusError, Round) outcome" where
  "max_round [] = Panic ''Empty TC''"
| "max_round (r # rs) = Ok (fold max rs r)"

definition safety_rule_2 :: "Block \<Rightarrow> (ConsensusError, bool) outcome" where
  "safety_rule_2 block =
    (let direct = qc_round (blk_qc block) + 1 = blk_round block in
     case blk_tc block of
       None \<Rightarrow> Ok direct
     | Some tc \<Rightarrow> bindO (max_round (high_qc_rounds tc)) (\<lambda>m.
         Ok (direct \<or> (tc_round tc + 1 = blk_round block \<and> m \<le> qc_round (blk_qc block)))))"

definition make_vote :: "hs_lib \<Rightarrow> Block \<Rightarrow> Vote option core_act" where
  "make_vote L block =
    bindM (getM last_voted_round) (\<lambda>lvr.
    bindM (liftO (safety_rule_2 block)) (\<lambda>rule2.
    if \<not> (lvr < blk_round block \<and> rule2) then retM None
    else thenM (increase_last_voted_round (blk_round block))
      (bindM (getM core_secret) (\<lambda>secret.
       bindM (getM core_name) (\<lambda>name.
       bindM (liftO (Vote_new L secret block name)) (\<lambda>v. retM (Some v)))))))"

section \<open>Committing\<close>

fun prune_loop :: "hs_lib \<Rightarrow> nat \<Rightarrow> u64 \<Rightarrow> Block \<Rightarrow> unit core_act" where
  "prune_loop L 0 i par = liftO Diverge"
| "prune_loop L (Suc n) i par =
    bindM (get_parent_block L par) (\<lambda>ancestor. case ancestor of
      None \<Rightarrow> retM ()
    | Some a \<Rightarrow>
        if Block_eq par Block_genesis then retM ()
        else bindM (getM prune_depth) (\<lambda>depth.
          thenM (whenM (depth \<le> i + 1) (remove_block L a)) (prune_loop L n (i + 1) a)))"

definition prune :: "hs_lib \<Rightarrow> nat \<Rightarrow> Block \<Rightarrow> unit core_act" where
  "prune L n block = prune_loop L n 0 block"

text \<open>The walk that gathers the uncommitted ancestors; the list is the deque, front first.\<close>

fun gather_ancestors :: "hs_lib \<Rightarrow> nat \<Rightarrow> Block \<Rightarrow> Block list \<Rightarrow> Block list core_act" where
  "gather_ancestors L 0 par to_commit = retM to_commit"
| "gather_ancestors L (Suc k) par to_commit =
    bindM (getM last_committed_round) (\<lambda>lcr.
    if lcr + 1 < blk_round par
    then bindM (get_parent_block L par) (\<lambda>ancestor. case ancestor of
        Some a \<Rightarrow> gather_ancestors L k a (a # to_commit)
      | None \<Rightarrow> retM to_commit)
    else retM to_commit)"

definition send_commit :: "Block \<Rightarrow> unit core_act" where
  "send_commit b = whenM (blk_payload b \<noteq> []) (emit (ToCommit b))"

definition heuristic_history_rounds :: nat where "heuristic_history_rounds = 13"

definition commit :: "hs_lib \<Rightarrow> nat \<Rightarrow> Block \<Rightarrow> unit core_act" where
  "commit L n block =
    bindM (getM last_committed_round) (\<lambda>lcr.
    if blk_round block \<le> lcr then retM ()
    else bindM (gather_ancestors L heuristic_history_rounds block []) (\<lambda>ancestors.
      let to_commit = block # ancestors in
      thenM (modM (\<lambda>s. s\<lparr>last_committed_round := blk_round block\<rparr>))
      (thenM (prune L n block)
      (forM (rev to_commit) send_commit))))"

section \<open>Rounds and certificates\<close>

definition update_high_qc :: "QC \<Rightarrow> unit core_act" where
  "update_high_qc qc = modM (\<lambda>s. if qc_round (high_qc s) < qc_round qc then s\<lparr>high_qc := qc\<rparr> else s)"

definition update_high_tc :: "TC \<Rightarrow> unit core_act" where
  "update_high_tc tc = modM (\<lambda>s. if tc_round (high_tc s) < tc_round tc then s\<lparr>high_tc := tc\<rparr> else s)"

definition advance_round :: "Round \<Rightarrow> unit core_act" where
  "advance_round r =
    bindM (getM core_round) (\<lambda>cur.
    if r < cur then retM ()
    else thenM (emit TimerReset)
      (modM (\<lambda>s. s\<lparr>core_round := r + 1, aggregator := agg_cleanup (r + 1) (aggregator s)\<rparr>)))"

definition generate_proposal :: "TC option \<Rightarrow> unit core_act" where
  "generate_proposal tc =
    bindM (getM core_round) (\<lambda>r. bindM (getM high_qc) (\<lambda>qc. emit (ToProposer (Make r qc tc))))"

definition cleanup_proposer :: "Block \<Rightarrow> Block \<Rightarrow> Block \<Rightarrow> unit core_act" where
  "cleanup_proposer b0 b1 block =
    (let digests = blk_payload b0 @ blk_payload b1 @ blk_payload block in
     whenM (digests \<noteq> []) (emit (ToProposer (Cleanup digests))))"

definition process_qc :: "QC \<Rightarrow> unit core_act" where
  "process_qc qc = thenM (advance_round (qc_round qc)) (update_high_qc qc)"

definition process_tc :: "TC \<Rightarrow> unit core_act" where
  "process_tc tc = thenM (advance_round (tc_round tc)) (update_high_tc tc)"

section \<open>Handlers\<close>

definition core_add_vote :: "hs_lib \<Rightarrow> Vote \<Rightarrow> QC option core_act" where
  "core_add_vote L vote s = (let (r, a) = add_vote L vote (aggregator s) in (r, s\<lparr>aggregator := a\<rparr>))"

definition core_add_timeout :: "Timeout \<Rightarrow> TC option core_act" where
  "core_add_timeout timeout s =
    (let (r, a) = add_timeout timeout (aggregator s) in (r, s\<lparr>aggregator := a\<rparr>))"

definition handle_vote :: "hs_lib \<Rightarrow> Vote \<Rightarrow> unit core_act" where
  "handle_vote L vote =
    bindM (getM core_round) (\<lambda>cur.
    if vote_round vote < cur then retM ()
    else bindM (getM core_committee) (\<lambda>c.
      thenM (liftO (Vote_verify L c vote))
      (bindM (core_add_vote L vote) (\<lambda>res. case res of
        None \<Rightarrow> retM ()
      | Some qc \<Rightarrow>
          thenM (process_qc qc)
          (bindM (getM core_name) (\<lambda>name.
           bindM (getM core_round) (\<lambda>r.
           bindM (core_leader r) (\<lambda>leader.
           whenM (name = leader)
             (bindM (getM fast_commit_request) (\<lambda>fast.
              if 0 < vote_payload_size vote \<or> 0 < sint fast
              then thenM (modM (\<lambda>s. s\<lparr>fast_commit_request := fast_commit_request s - 1\<rparr>))
                (thenM (generate_proposal None)
                (whenM (0 < vote_payload_size vote)
                  (modM (\<lambda>s. s\<lparr>fast_commit_request := 2\<rparr>))))
              else thenM (emit (SleepMs 200)) (generate_proposal None)))))))))))"

definition handle_timeout :: "hs_lib \<Rightarrow> Timeout \<Rightarrow> unit core_act" where
  "handle_timeout L timeout =
    bindM (getM core_round) (\<lambda>cur.
    if to_round timeout < cur then retM ()
    else bindM (getM core_committee) (\<lambda>c.
      thenM (liftO (Timeout_verify L c timeout))
      (thenM (process_qc (to_high_qc timeout))
      (thenM (process_tc (to_high_tc timeout))
      (bindM (core_add_timeout timeout) (\<lambda>res. case res of
        None \<Rightarrow> retM ()
      | Some tc \<Rightarrow>
          thenM (process_tc tc)
          (thenM (broadcast L (TCMsg tc) ''Failed to serialize timeout certificate'')
          (bindM (getM core_name) (\<lambda>name.
           bindM (getM core_round) (\<lambda>r.
           bindM (core_leader r) (\<lambda>leader.
           whenM (name = leader) (generate_proposal (Some tc)))))))))))))"

definition local_timeout_round :: "hs_lib \<Rightarrow> unit core_act" where
  "local_timeout_round L =
    bindM (getM core_round) (\<lambda>r.
    thenM (increase_last_voted_round r)
    (bindM (getM (\<lambda>s. (core_secret s, high_qc s, high_tc s, core_name s))) (\<lambda>(secret, hqc, htc, name).
     bindM (liftO (Timeout_new L secret hqc htc r name)) (\<lambda>timeout.
     thenM (emit TimerReset)
     (thenM (broadcast L (TimeoutMsg timeout) ''Failed to serialize timeout message'')
     (handle_timeout L timeout))))))"

text \<open>\<open>MempoolDriver::verify\<close> and \<open>MempoolDriver::cleanup\<close>.\<close>

fun missing_payload :: "hs_lib \<Rightarrow> store_state \<Rightarrow> Digest list \<Rightarrow> (ConsensusError, Digest list) outcome" where
  "missing_payload L st [] = Ok []"
| "missing_payload L st (x # xs) = (case store_read (rocks L) x st of
      Inl e \<Rightarrow> Err (CStoreError e)
    | Inr None \<Rightarrow> bindO (missing_payload L st xs) (\<lambda>ms. Ok (x # ms))
    | Inr (Some _) \<Rightarrow> missing_payload L st xs)"

definition mempool_verify :: "hs_lib \<Rightarrow> Block \<Rightarrow> bool core_act" where
  "mempool_verify L block =
    bindM (getM core_store) (\<lambda>st.
    bindM (liftO (missing_payload L st (blk_payload block))) (\<lambda>missing.
    if missing = [] then retM True
    else thenM (emit (ToMempool (Synchronize missing (blk_author block))))
      (thenM (emit (ToPayloadWaiter (Wait missing block))) (retM False))))"

definition mempool_cleanup :: "Round \<Rightarrow> unit core_act" where
  "mempool_cleanup r = thenM (emit (ToMempool (MempoolCleanup r))) (emit (ToPayloadWaiter (WaiterCleanup r)))"

definition process_block :: "hs_lib \<Rightarrow> nat \<Rightarrow> Block \<Rightarrow> unit core_act" where
  "process_block L n block =
    thenM (store_block L block)
    (bindM (get_ancestors L block) (\<lambda>ancestors. case ancestors of
      None \<Rightarrow> retM ()
    | Some (b0, b1) \<Rightarrow>
        thenM (cleanup_proposer b0 b1 block)
        (thenM (whenM (blk_round b0 + 1 = blk_round b1)
            (thenM (mempool_cleanup (blk_round b0)) (commit L n b0)))
        (bindM (getM core_round) (\<lambda>r.
         if blk_round block \<noteq> r then retM ()
         else bindM (make_vote L block) (\<lambda>v. case v of
             None \<Rightarrow> retM ()
           | Some vote \<Rightarrow> thenM (handle_vote L vote)
               (broadcast L (VoteMsg vote) ''Failed to serialize vote'')))))))"

definition handle_proposal :: "hs_lib \<Rightarrow> nat \<Rightarrow> Block \<Rightarrow> unit core_act" where
  "handle_proposal L n block =
    bindM (core_leader (blk_round block)) (\<lambda>leader.
    thenM (liftO (ensure (blk_author block = leader)
      (WrongLeader (Block_digest L block) (blk_author block) (blk_round block))))
    (bindM (getM core_committee) (\<lambda>c.
     thenM (liftO (Block_verify L c block))
     (thenM (process_qc (blk_qc block))
     (thenM (case blk_tc block of Some tc \<Rightarrow> process_tc tc | None \<Rightarrow> retM ())
     (bindM (mempool_verify L block) (\<lambda>ok.
      if \<not> ok then retM () else process_block L n block)))))))"

definition handle_tc :: "TC \<Rightarrow> unit core_act" where
  "handle_tc tc =
    thenM (process_tc tc)
    (bindM (getM core_name) (\<lambda>name.
     bindM (getM core_round) (\<lambda>r.
     bindM (core_leader r) (\<lambda>leader.
     whenM (name = leader) (generate_proposal (Some tc))))))"

section \<open>The main loop\<close>

definition core_boot :: "unit core_act" where
  "core_boot =
    thenM (emit TimerReset)
    (bindM (getM core_name) (\<lambda>name.
     bindM (getM core_round) (\<lambda>r.
     bindM (core_leader r) (\<lambda>leader.
     whenM (name = leader) (generate_proposal None)))))"

datatype core_event = Message ConsensusMessage | Loopback Block | TimerFired

fun core_step :: "hs_lib \<Rightarrow> nat \<Rightarrow> core_event \<Rightarrow> unit core_act" where
  "core_step L n (Message (Propose block)) = handle_proposal L n block"
| "core_step L n (Message (VoteMsg vote)) = handle_vote L vote"
| "core_step L n (Message (TimeoutMsg timeout)) = handle_timeout L timeout"
| "core_step L n (Message (TCMsg tc)) = handle_tc tc"
| "core_step L n (Message (SyncRequest _ _)) = liftO (Panic ''Unexpected protocol message'')"
| "core_step L n (Loopback block) = process_block L n block"
| "core_step L n TimerFired = local_timeout_round L"

text \<open>Errors are logged and the loop goes on; a panic ends the task.\<close>

fun core_run :: "hs_lib \<Rightarrow> nat \<Rightarrow> core_event list \<Rightarrow> unit core_act" where
  "core_run L n [] s = (Ok (), s)"
| "core_run L n (e # es) s = (case core_step L n e s of
      (Ok _, s') \<Rightarrow> core_run L n es s'
    | (Err _, s') \<Rightarrow> core_run L n es s'
    | (Panic p, s') \<Rightarrow> (Panic p, s')
    | (Diverge, s') \<Rightarrow> (Diverge, s'))"

end
