(* ===== verification/CoreLemmas.thy ===== *)
theory CoreLemmas
  imports Core
begin

text \<open>
  Facts about the handlers of the consensus core: what they never change, what only grows, and
  which effects they may have.  Each is an instance of the preorder rules of the prelude.
\<close>

section \<open>Actions that only read\<close>

interpretation ro: state_preorder "\<lambda>s s' :: core. s' = s"
  by unfold_locales auto

lemma get_parent_block_ro: "keeps (\<lambda>s s'. s' = s) (get_parent_block L b)"
  unfolding get_parent_block_def by (intro ro.keeps_rules)

lemma gather_ancestors_ro: "keeps (\<lambda>s s'. s' = s) (gather_ancestors L k b acc)"
  by (induction k arbitrary: b acc)
    (auto intro!: ro.keeps_rules get_parent_block_ro)

lemma core_leader_ro: "keeps (\<lambda>s s'. s' = s) (core_leader r)"
  unfolding core_leader_def by (intro ro.keeps_rules)

lemma get_parent_block_state: "get_parent_block L b s = (r, s') \<Longrightarrow> s' = s"
  using keepsD [OF get_parent_block_ro] by blast

lemma gather_ancestors_state: "gather_ancestors L k b acc s = (r, s') \<Longrightarrow> s' = s"
  using keepsD [OF gather_ancestors_ro] by blast

section \<open>Monotone parts of the state\<close>

definition core_mono :: "core \<Rightarrow> core \<Rightarrow> bool" where
  "core_mono s s' \<longleftrightarrow> core_name s' = core_name s \<and> core_committee s' = core_committee s \<and>
    core_secret s' = core_secret s \<and> core_validator_id s' = core_validator_id s \<and>
    prune_depth s' = prune_depth s \<and>
    agg_committee (aggregator s') = agg_committee (aggregator s) \<and>
    last_voted_round s \<le> last_voted_round s' \<and> last_committed_round s \<le> last_committed_round s' \<and>
    qc_round (high_qc s) \<le> qc_round (high_qc s') \<and> tc_round (high_tc s) \<le> tc_round (high_tc s') \<and>
    (\<exists>new. out s' = out s @ new)"

interpretation mono: state_preorder core_mono
proof
  show "core_mono s u" if "core_mono s t" "core_mono t u" for s t u
    using that unfolding core_mono_def by (auto intro: order_trans)
qed (simp add: core_mono_def)

lemma emit_mono: "keeps core_mono (emit e)"
  unfolding emit_def by (rule mono.keeps_mod) (simp add: core_mono_def)

lemma store_op_mono: "keeps core_mono (store_op f)"
  unfolding store_op_def by (rule mono.keeps_mod) (simp add: core_mono_def split_def Let_def)

lemma ro_mono: "keeps (\<lambda>s s'. s' = s) m \<Longrightarrow> keeps core_mono m"
  by (simp add: keeps_def mono.R_refl)

lemmas mono_basics = emit_mono store_op_mono ro_mono [OF get_parent_block_ro]
  ro_mono [OF gather_ancestors_ro] ro_mono [OF core_leader_ro]

lemma broadcast_mono: "keeps core_mono (broadcast L m e)"
  unfolding broadcast_def by (intro mono.keeps_rules mono_basics)

lemma store_block_mono: "keeps core_mono (store_block L b)"
  unfolding store_block_def by (intro mono.keeps_rules mono_basics)

lemma remove_block_mono: "keeps core_mono (remove_block L b)"
  unfolding remove_block_def by (intro mono.keeps_rules mono_basics)

lemma get_ancestors_mono: "keeps core_mono (get_ancestors L b)"
  unfolding get_ancestors_def sync_get_parent_block_def by (intro mono.keeps_rules mono_basics)

lemma increase_mono: "keeps core_mono (increase_last_voted_round r)"
  unfolding increase_last_voted_round_def by (rule mono.keeps_mod) (simp add: core_mono_def)

lemma make_vote_mono: "keeps core_mono (make_vote L b)"
  unfolding make_vote_def by (intro mono.keeps_rules increase_mono)

lemma prune_loop_mono: "keeps core_mono (prune_loop L n i b)"
  by (induction n arbitrary: i b)
    (auto intro!: mono.keeps_rules mono_basics remove_block_mono)

lemma send_commit_mono: "keeps core_mono (send_commit b)"
  unfolding send_commit_def by (intro mono.keeps_rules mono_basics)

lemma commit_unfold:
  "commit L n b s = (if blk_round b \<le> last_committed_round s then (Ok (), s)
    else (case gather_ancestors L heuristic_history_rounds b [] s of
        (Ok anc, _) \<Rightarrow> thenM (prune L n b) (forM (rev (b # anc)) send_commit)
          (s\<lparr>last_committed_round := blk_round b\<rparr>)
      | (Err e, _) \<Rightarrow> (Err e, s) | (Panic p, _) \<Rightarrow> (Panic p, s) | (Diverge, _) \<Rightarrow> (Diverge, s)))"
proof -
  obtain r s' where g: "gather_ancestors L heuristic_history_rounds b [] s = (r, s')"
    by (cases "gather_ancestors L heuristic_history_rounds b [] s")
  have s': "s' = s" using gather_ancestors_state [OF g] .
  show ?thesis
    using g unfolding s' commit_def
    by (cases r) (simp_all add: act_simps Let_def thenM_def)
qed

lemma commit_mono: "keeps core_mono (commit L n b)"
  unfolding keeps_def
proof
  fix s
  have tail: "keeps core_mono (thenM (prune L n b) (forM (rev (b # anc)) send_commit))" for anc
    unfolding prune_def by (intro mono.keeps_rules prune_loop_mono send_commit_mono)
  have "core_mono s (s\<lparr>last_committed_round := blk_round b\<rparr>)"
    if "\<not> blk_round b \<le> last_committed_round s"
    using that by (simp add: core_mono_def)
  then show "core_mono s (snd (commit L n b s))"
    using tail unfolding commit_unfold keeps_def
    by (auto split: prod.splits outcome.splits intro: mono.R_refl mono.R_trans)
qed

lemma update_high_mono: "keeps core_mono (update_high_qc qc)" "keeps core_mono (update_high_tc tc)"
  unfolding update_high_qc_def update_high_tc_def
  by (rule mono.keeps_mod, auto simp: core_mono_def)+

lemma advance_round_mono: "keeps core_mono (advance_round r)"
  unfolding advance_round_def
  by (intro mono.keeps_rules mono_basics mono.keeps_mod) (simp add: core_mono_def)

lemma process_cert_mono: "keeps core_mono (process_qc qc)" "keeps core_mono (process_tc tc)"
  unfolding process_qc_def process_tc_def
  by (intro mono.keeps_rules advance_round_mono update_high_mono)+

lemma proposal_mono: "keeps core_mono (generate_proposal tc)" "keeps core_mono (cleanup_proposer a b c)"
  "keeps core_mono (mempool_cleanup r)" "keeps core_mono (mempool_verify L b)"
  unfolding generate_proposal_def cleanup_proposer_def mempool_cleanup_def mempool_verify_def Let_def
  by (intro mono.keeps_rules mono_basics)+

lemma core_add_mono: "keeps core_mono (core_add_vote L v)" "keeps core_mono (core_add_timeout t)"
  unfolding keeps_def core_add_vote_def core_add_timeout_def
  using agg_committee_simps by (auto simp: core_mono_def split_def Let_def)

lemma fast_mono: "keeps core_mono (modM (\<lambda>s. s\<lparr>fast_commit_request := f s\<rparr>))"
  by (rule mono.keeps_mod) (simp add: core_mono_def)

lemma handle_vote_mono: "keeps core_mono (handle_vote L v)"
  unfolding handle_vote_def
  by (intro mono.keeps_rules core_add_mono process_cert_mono proposal_mono mono_basics fast_mono)

lemma handle_timeout_mono: "keeps core_mono (handle_timeout L t)"
  unfolding handle_timeout_def
  by (intro mono.keeps_rules core_add_mono process_cert_mono proposal_mono mono_basics broadcast_mono)

lemma local_timeout_mono: "keeps core_mono (local_timeout_round L)"
  unfolding local_timeout_round_def
  by (intro mono.keeps_rules increase_mono mono_basics broadcast_mono handle_timeout_mono)

lemma process_block_mono: "keeps core_mono (process_block L n b)"
  unfolding process_block_def
  by (intro mono.keeps_rules store_block_mono get_ancestors_mono proposal_mono commit_mono
      make_vote_mono handle_vote_mono broadcast_mono)

lemma handle_proposal_mono: "keeps core_mono (handle_proposal L n b)"
  unfolding handle_proposal_def
  by (intro mono.keeps_rules mono_basics process_cert_mono proposal_mono process_block_mono)

lemma handle_tc_mono: "keeps core_mono (handle_tc tc)"
  unfolding handle_tc_def by (intro mono.keeps_rules mono_basics process_cert_mono proposal_mono)

lemma core_step_mono: "keeps core_mono (core_step L n e)"
proof (cases e)
  case (Message m)
  then show ?thesis
    by (cases m) (simp_all add: handle_proposal_mono handle_vote_mono handle_timeout_mono
        handle_tc_mono mono.keeps_lift)
qed (simp_all add: process_block_mono local_timeout_mono)

text \<open>A preorder kept by every step is kept by the main loop.\<close>

lemma core_run_keeps:
  assumes R: "state_preorder R" and step: "\<And>e. keeps R (core_step L n e)"
  shows "keeps R (core_run L n es)"
  unfolding keeps_def
proof
  fix s show "R s (snd (core_run L n es s))"
  proof (induction es arbitrary: s)
    case Nil
    then show ?case using state_preorder.R_refl [OF R] by simp
  next
    case (Cons e es)
    obtain r s' where st: "core_step L n e s = (r, s')" by (cases "core_step L n e s")
    have "R s s'" using keepsD [OF step st] .
    then show ?case
      using Cons.IH [of s'] state_preorder.R_trans [OF R] st by (cases r) auto
  qed
qed

lemma core_run_mono: "keeps core_mono (core_run L n es)"
  by (rule core_run_keeps [OF mono.state_preorder_axioms core_step_mono])

section \<open>Votes and timeouts\<close>

text \<open>
  The ballots of a list of effects: the rounds of the votes (\<open>True\<close>) and of the timeouts (\<open>False\<close>)
  broadcast, in order.  From the level \<open>l\<close> of rounds already used they are lawful when every vote is
  above all ballots before it.
\<close>

fun ballots :: "core_out list \<Rightarrow> (bool \<times> Round) list" where
  "ballots [] = []"
| "ballots (Broadcast _ (VoteMsg v) _ # es) = (True, vote_round v) # ballots es"
| "ballots (Broadcast _ (TimeoutMsg t) _ # es) = (False, to_round t) # ballots es"
| "ballots (_ # es) = ballots es"

fun lawful :: "Round \<Rightarrow> (bool \<times> Round) list \<Rightarrow> bool" where
  "lawful l [] \<longleftrightarrow> True"
| "lawful l ((True, r) # bs) \<longleftrightarrow> l < r \<and> lawful r bs"
| "lawful l ((False, r) # bs) \<longleftrightarrow> lawful (max l r) bs"

fun level :: "Round \<Rightarrow> (bool \<times> Round) list \<Rightarrow> Round" where
  "level l [] = l"
| "level l ((_, r) # bs) = level (max l r) bs"

lemma ballots_append [simp]: "ballots (xs @ ys) = ballots xs @ ballots ys"
  by (induction xs rule: ballots.induct) auto

lemma level_append [simp]: "level l (xs @ ys) = level (level l xs) ys"
  by (induction l xs rule: level.induct) auto

lemma level_mono: "l \<le> l' \<Longrightarrow> level l bs \<le> level l' bs"
  by (induction l bs arbitrary: l' rule: level.induct) (auto simp: max.coboundedI1 max.mono)

lemma level_ge: "l \<le> level l bs"
  by (induction l bs rule: level.induct) (auto intro: order_trans [OF max.cobounded1])

lemma lawful_antimono: "lawful l' bs \<Longrightarrow> l \<le> l' \<Longrightarrow> lawful l bs"
  by (induction l' bs arbitrary: l rule: lawful.induct) (auto intro: max.mono)

lemma lawful_append: "lawful l (xs @ ys) \<longleftrightarrow> lawful l xs \<and> lawful (level l xs) ys"
  by (induction l xs rule: lawful.induct) (auto simp: max_absorb2)

text \<open>
  What the order means: a vote's round is above the level and above every ballot before it, so no
  two votes share a round and no vote follows a timeout of its round or a later one.
\<close>

lemma lawful_vote_above:
  "lawful l bs \<Longrightarrow> i < length bs \<Longrightarrow> bs ! i = (True, r) \<Longrightarrow>
    l < r \<and> (\<forall>j < i. snd (bs ! j) < r)"
proof (induction l bs arbitrary: i rule: lawful.induct)
  case (2 l r0 bs)
  then show ?case
    by (cases i) (auto simp: less_Suc_eq_0_disj intro: less_trans)
next
  case (3 l r0 bs)
  then show ?case
    by (cases i) (auto simp: less_Suc_eq_0_disj)
qed simp

definition voting :: "core \<Rightarrow> core \<Rightarrow> bool" where
  "voting s s' \<longleftrightarrow> (\<exists>new. out s' = out s @ new \<and> lawful (last_voted_round s) (ballots new) \<and>
    level (last_voted_round s) (ballots new) \<le> last_voted_round s')"

interpretation vt: state_preorder voting
proof
  show "voting s u" if st: "voting s t" and tu: "voting t u" for s t u
  proof -
    obtain n1 n2 where n: "out t = out s @ n1" "lawful (last_voted_round s) (ballots n1)"
        "level (last_voted_round s) (ballots n1) \<le> last_voted_round t"
        "out u = out t @ n2" "lawful (last_voted_round t) (ballots n2)"
        "level (last_voted_round t) (ballots n2) \<le> last_voted_round u"
      using st tu unfolding voting_def by blast
    have "lawful (level (last_voted_round s) (ballots n1)) (ballots n2)"
      using n lawful_antimono by blast
    moreover have "level (level (last_voted_round s) (ballots n1)) (ballots n2) \<le> last_voted_round u"
      using n level_mono order_trans by blast
    ultimately show ?thesis
      unfolding voting_def using n by (intro exI [of _ "n1 @ n2"]) (simp add: lawful_append)
  qed
qed (simp add: voting_def)

text \<open>Actions that send no ballot.\<close>

definition no_ballot :: "core \<Rightarrow> core \<Rightarrow> bool" where
  "no_ballot s s' \<longleftrightarrow> last_voted_round s \<le> last_voted_round s' \<and>
    (\<exists>new. out s' = out s @ new \<and> ballots new = [])"

interpretation nb: state_preorder no_ballot
proof
  show "no_ballot s u" if "no_ballot s t" "no_ballot t u" for s t u
    using that unfolding no_ballot_def by (auto intro: order_trans)
qed (simp add: no_ballot_def)

lemma no_ballot_voting: "keeps no_ballot m \<Longrightarrow> keeps voting m"
  by (fastforce simp: keeps_def no_ballot_def voting_def)

lemma ro_no_ballot: "keeps (\<lambda>s s'. s' = s) m \<Longrightarrow> keeps no_ballot m"
  by (simp add: keeps_def nb.R_refl)

lemma emit_no_ballot: "ballots [e] = [] \<Longrightarrow> keeps no_ballot (emit e)"
  unfolding emit_def by (rule nb.keeps_mod) (simp add: no_ballot_def)

lemma ballots_replies [simp]: "ballots (map StoreReply rs) = []"
  by (induction rs) auto

lemma store_op_no_ballot: "keeps no_ballot (store_op f)"
  unfolding store_op_def by (rule nb.keeps_mod) (simp add: no_ballot_def split_def Let_def)

lemma mod_no_ballot:
  "(\<And>s. out (f s) = out s) \<Longrightarrow> (\<And>s. last_voted_round s \<le> last_voted_round (f s)) \<Longrightarrow>
    keeps no_ballot (modM f)"
  by (rule nb.keeps_mod) (simp add: no_ballot_def)

lemmas nb_basics = emit_no_ballot store_op_no_ballot ro_no_ballot [OF get_parent_block_ro]
  ro_no_ballot [OF gather_ancestors_ro] ro_no_ballot [OF core_leader_ro]

lemma broadcast_tc_nb: "keeps no_ballot (broadcast L (TCMsg tc) e)"
  unfolding broadcast_def by (intro nb.keeps_rules nb_basics) simp

lemma store_block_nb: "keeps no_ballot (store_block L b)" "keeps no_ballot (remove_block L b)"
  unfolding store_block_def remove_block_def by (intro nb.keeps_rules nb_basics)+

lemma get_ancestors_nb: "keeps no_ballot (get_ancestors L b)"
  unfolding get_ancestors_def sync_get_parent_block_def
  by (intro nb.keeps_rules nb_basics) simp_all

lemma prune_loop_nb: "keeps no_ballot (prune_loop L n i b)"
  by (induction n arbitrary: i b) (auto intro!: nb.keeps_rules nb_basics store_block_nb)

lemma commit_nb: "keeps no_ballot (commit L n b)"
proof -
  have "keeps no_ballot (send_commit x)" for x
    unfolding send_commit_def by (intro nb.keeps_rules nb_basics) simp
  moreover have "keeps no_ballot (modM (\<lambda>s. s\<lparr>last_committed_round := blk_round b\<rparr>))"
    by (rule mod_no_ballot) simp_all
  ultimately show ?thesis
    unfolding commit_def prune_def Let_def
    by (intro nb.keeps_rules nb_basics prune_loop_nb)
qed

lemma process_cert_nb: "keeps no_ballot (process_qc qc)" "keeps no_ballot (process_tc tc)"
  unfolding process_qc_def process_tc_def advance_round_def update_high_qc_def update_high_tc_def
  by (intro nb.keeps_rules nb_basics mod_no_ballot; simp)+

lemma proposal_nb: "keeps no_ballot (generate_proposal tc)" "keeps no_ballot (cleanup_proposer a b c)"
  "keeps no_ballot (mempool_cleanup r)" "keeps no_ballot (mempool_verify L b)"
  unfolding generate_proposal_def cleanup_proposer_def mempool_cleanup_def mempool_verify_def Let_def
  by (intro nb.keeps_rules nb_basics; simp)+

lemma core_add_nb: "keeps no_ballot (core_add_vote L v)" "keeps no_ballot (core_add_timeout t)"
  unfolding keeps_def core_add_vote_def core_add_timeout_def
  by (auto simp: no_ballot_def split_def Let_def)

lemma fast_nb: "keeps no_ballot (modM (\<lambda>s. s\<lparr>fast_commit_request := f s\<rparr>))"
  by (rule mod_no_ballot) simp_all

lemma handle_vote_nb: "keeps no_ballot (handle_vote L v)"
  unfolding handle_vote_def
  by (intro nb.keeps_rules core_add_nb process_cert_nb proposal_nb nb_basics fast_nb) simp

lemma handle_timeout_nb: "keeps no_ballot (handle_timeout L t)"
  unfolding handle_timeout_def
  by (intro nb.keeps_rules core_add_nb process_cert_nb proposal_nb nb_basics broadcast_tc_nb)

lemma handle_tc_nb: "keeps no_ballot (handle_tc tc)"
  unfolding handle_tc_def by (intro nb.keeps_rules nb_basics process_cert_nb proposal_nb)

text \<open>The two places that send a ballot.\<close>

lemma broadcast_state:
  assumes "broadcast L m e s = (r, s')"
  shows "last_voted_round s' = last_voted_round s \<and>
    (out s' = out s \<or> (\<exists>w. out s' = out s @ [Broadcast (map snd (broadcast_addresses
      (core_committee s) (core_name s))) m w]))"
  using assms unfolding broadcast_def
  by (cases "seal_msg L (core_validator_id s) m e") (auto simp: act_simps emit_def liftO_def)

lemma Vote_new_round: "Vote_new L k b name = Ok v \<Longrightarrow>
    vote_round v = blk_round b \<and> vote_hash v = Block_digest L b \<and> vote_author v = name"
  by (auto simp: Vote_new_def bindO_Ok_iff Let_def)

lemma Timeout_new_round: "Timeout_new L k qc tc r name = Ok t \<Longrightarrow>
    to_round t = r \<and> to_high_qc t = qc \<and> to_high_tc t = tc \<and> to_author t = name"
  by (auto simp: Timeout_new_def bindO_Ok_iff Let_def)

lemma make_vote_cases:
  assumes "make_vote L b s = (r, s')"
  shows "out s' = out s \<and> last_voted_round s \<le> last_voted_round s' \<and>
    (\<forall>v. r = Ok (Some v) \<longrightarrow> last_voted_round s < blk_round b \<and> last_voted_round s' = blk_round b \<and>
      vote_round v = blk_round b \<and> vote_hash v = Block_digest L b \<and> safety_rule_2 b = Ok True)"
proof (cases "safety_rule_2 b")
  case (Ok rule2)
  then show ?thesis
    using assms unfolding make_vote_def
    by (cases "Vote_new L (core_secret s) b (core_name s)")
      (auto simp: act_simps increase_last_voted_round_def liftO_def max_def thenM_def
        dest: Vote_new_round split: if_splits)
qed (use assms in \<open>auto simp: make_vote_def act_simps liftO_def\<close>)

lemma vote_tail_voting:
  "keeps voting (bindM (make_vote L b) (\<lambda>v. case v of None \<Rightarrow> retM ()
    | Some vote \<Rightarrow> thenM (handle_vote L vote) (broadcast L (VoteMsg vote) e)))"
  unfolding keeps_def
proof
  fix s
  let ?m = "bindM (make_vote L b) (\<lambda>v. case v of None \<Rightarrow> retM ()
    | Some vote \<Rightarrow> thenM (handle_vote L vote) (broadcast L (VoteMsg vote) e))"
  obtain r1 s1 where mv: "make_vote L b s = (r1, s1)" by (cases "make_vote L b s")
  note c1 = make_vote_cases [OF mv]
  show "voting s (snd (?m s))"
  proof (cases "\<exists>v. r1 = Ok (Some v)")
    case False
    then have "snd (?m s) = s1"
      using mv by (cases r1) (auto simp: bindM_def retM_def split: option.splits)
    then show ?thesis using c1 by (auto simp: voting_def)
  next
    case True
    then obtain v where v: "r1 = Ok (Some v)" by blast
    obtain r2 s2 where hv: "handle_vote L v s1 = (r2, s2)" by (cases "handle_vote L v s1")
    obtain n2 where n2: "out s2 = out s1 @ n2" "ballots n2 = []"
        "last_voted_round s1 \<le> last_voted_round s2"
      using keepsD [OF handle_vote_nb hv] by (auto simp: no_ballot_def)
    obtain r3 s3 where bc: "broadcast L (VoteMsg v) e s2 = (r3, s3)"
      by (cases "broadcast L (VoteMsg v) e s2")
    have "snd (?m s) = s2 \<or> snd (?m s) = s3"
      using mv v hv bc by (cases r2) (auto simp: bindM_def thenM_def)
    then show ?thesis
      using c1 v n2 broadcast_state [OF bc] by (auto simp: voting_def max_def)
  qed
qed

lemmas nb_voting = store_block_nb [THEN no_ballot_voting] get_ancestors_nb [THEN no_ballot_voting]
  proposal_nb [THEN no_ballot_voting] commit_nb [THEN no_ballot_voting]
  handle_vote_nb [THEN no_ballot_voting] handle_timeout_nb [THEN no_ballot_voting]
  handle_tc_nb [THEN no_ballot_voting] process_cert_nb [THEN no_ballot_voting]
  ro_no_ballot [OF core_leader_ro, THEN no_ballot_voting]

lemma process_block_voting: "keeps voting (process_block L n b)"
  unfolding process_block_def
  by (intro vote_tail_voting nb_voting vt.keeps_rules)

lemma handle_proposal_voting: "keeps voting (handle_proposal L n b)"
  unfolding handle_proposal_def
  by (intro process_block_voting nb_voting vt.keeps_rules)

lemma local_timeout_voting: "keeps voting (local_timeout_round L)"
  unfolding keeps_def
proof
  fix s :: core
  let ?s1 = "s\<lparr>last_voted_round := max (last_voted_round s) (core_round s)\<rparr>"
  let ?t = "Timeout_new L (core_secret s) (high_qc s) (high_tc s) (core_round s) (core_name s)"
  show "voting s (snd (local_timeout_round L s))"
  proof (cases ?t)
    case (Ok t)
    define s2 where "s2 = ?s1\<lparr>out := out s @ [TimerReset]\<rparr>"
    have run: "local_timeout_round L s = thenM (broadcast L (TimeoutMsg t)
        ''Failed to serialize timeout message'') (handle_timeout L t) s2"
      using Ok by (simp add: local_timeout_round_def increase_last_voted_round_def emit_def act_simps
          thenM_def s2_def)
    obtain r3 s3 where bc: "broadcast L (TimeoutMsg t) ''Failed to serialize timeout message'' s2
        = (r3, s3)"
      by (cases "broadcast L (TimeoutMsg t) ''Failed to serialize timeout message'' s2")
    have "voting s s3"
      using broadcast_state [OF bc] Timeout_new_round [OF Ok] by (auto simp: voting_def s2_def)
    moreover have "voting s3 (snd (handle_timeout L t s3))"
      using nb_voting by (auto simp: keeps_def)
    ultimately show ?thesis
      unfolding run using bc by (cases r3) (auto simp: thenM_def bindM_def intro: vt.R_trans)
  qed (auto simp: local_timeout_round_def increase_last_voted_round_def act_simps liftO_def
      thenM_def voting_def)
qed

lemma core_step_voting: "keeps voting (core_step L n e)"
proof (cases e)
  case (Message m)
  then show ?thesis
    by (cases m) (simp_all add: handle_proposal_voting nb_voting vt.keeps_lift)
qed (simp_all add: process_block_voting local_timeout_voting)

lemma core_run_voting: "keeps voting (core_run L n es)"
  by (rule core_run_keeps [OF vt.state_preorder_axioms core_step_voting])

section \<open>Certificates in the state\<close>

text \<open>
  The aggregator's invariant for the core's committee, and a highest certificate that is the genesis
  one or passes verification.
\<close>

definition certified :: "hs_lib \<Rightarrow> Committee \<Rightarrow> QC \<Rightarrow> bool" where
  "certified L c qc \<longleftrightarrow> QC_eq qc QC_genesis \<or> QC_verify L c qc = Ok ()"

definition cert_inv :: "hs_lib \<Rightarrow> Committee \<Rightarrow> core \<Rightarrow> bool" where
  "cert_inv L c s \<longleftrightarrow> core_committee s = c \<and> agg_committee (aggregator s) = c \<and>
    agg_inv L (aggregator s) \<and> certified L c (high_qc s)"

interpretation ci: state_invariant "cert_inv L c" for L c .

text \<open>Actions that leave the parts the invariant reads alone.\<close>

definition cert_frame :: "core \<Rightarrow> core \<Rightarrow> bool" where
  "cert_frame s s' \<longleftrightarrow> core_committee s' = core_committee s \<and> aggregator s' = aggregator s \<and>
    high_qc s' = high_qc s"

interpretation cf: state_preorder cert_frame
  by unfold_locales (auto simp: cert_frame_def)

lemma frame_cert: "keeps cert_frame m \<Longrightarrow> keeps (inv_rel (cert_inv L c)) m"
  by (simp add: keeps_def inv_rel_def cert_frame_def cert_inv_def)

lemma mod_frame:
  "(\<And>s. core_committee (f s) = core_committee s) \<Longrightarrow> (\<And>s. aggregator (f s) = aggregator s) \<Longrightarrow>
    (\<And>s. high_qc (f s) = high_qc s) \<Longrightarrow> keeps cert_frame (modM f)"
  by (rule cf.keeps_mod) (simp add: cert_frame_def)

lemma emit_frame: "keeps cert_frame (emit e)"
  unfolding emit_def by (rule mod_frame) simp_all

lemma store_op_frame: "keeps cert_frame (store_op f)"
  unfolding store_op_def by (rule mod_frame) (simp_all add: split_def Let_def)

lemma ro_frame: "keeps (\<lambda>s s'. s' = s) m \<Longrightarrow> keeps cert_frame m"
  by (simp add: keeps_def cf.R_refl)

lemmas cf_basics = emit_frame store_op_frame ro_frame [OF get_parent_block_ro]
  ro_frame [OF gather_ancestors_ro] ro_frame [OF core_leader_ro]

lemma broadcast_frame: "keeps cert_frame (broadcast L m e)"
  unfolding broadcast_def by (intro cf.keeps_rules cf_basics)

lemma blocks_frame: "keeps cert_frame (store_block L b)" "keeps cert_frame (remove_block L b)"
  "keeps cert_frame (get_ancestors L b)"
  unfolding store_block_def remove_block_def get_ancestors_def sync_get_parent_block_def
  by (intro cf.keeps_rules cf_basics)+

lemma prune_loop_frame: "keeps cert_frame (prune_loop L n i b)"
  by (induction n arbitrary: i b) (auto intro!: cf.keeps_rules cf_basics blocks_frame)

lemma commit_frame: "keeps cert_frame (commit L n b)"
proof -
  have "keeps cert_frame (modM (\<lambda>s. s\<lparr>last_committed_round := blk_round b\<rparr>))"
    by (rule mod_frame) simp_all
  then show ?thesis
    unfolding commit_def prune_def Let_def send_commit_def
    by (intro cf.keeps_rules cf_basics prune_loop_frame)
qed

lemma proposal_frame: "keeps cert_frame (generate_proposal tc)" "keeps cert_frame (cleanup_proposer a b c)"
  "keeps cert_frame (mempool_cleanup r)" "keeps cert_frame (mempool_verify L b)"
  "keeps cert_frame (increase_last_voted_round r)"
  "keeps cert_frame (modM (\<lambda>s. s\<lparr>fast_commit_request := f s\<rparr>))"
  unfolding generate_proposal_def cleanup_proposer_def mempool_cleanup_def mempool_verify_def Let_def
    increase_last_voted_round_def
  by (intro cf.keeps_rules cf_basics mod_frame; simp)+

lemma make_vote_frame: "keeps cert_frame (make_vote L b)"
  unfolding make_vote_def by (intro cf.keeps_rules proposal_frame)

lemmas cf_all = broadcast_frame blocks_frame commit_frame proposal_frame make_vote_frame cf_basics

lemma advance_round_cert: "keeps (inv_rel (cert_inv L c)) (advance_round r)"
  unfolding advance_round_def
  by (intro ci.keeps_rules cf_all [THEN frame_cert] ci.inv_mod)
    (simp add: cert_inv_def agg_inv_cleanup)

lemma process_qc_cert: "certified L c qc \<Longrightarrow> keeps (inv_rel (cert_inv L c)) (process_qc qc)"
  unfolding process_qc_def update_high_qc_def
  by (intro ci.keeps_then advance_round_cert ci.inv_mod) (simp add: cert_inv_def)

lemma process_tc_cert: "keeps (inv_rel (cert_inv L c)) (process_tc tc)"
proof -
  have "keeps cert_frame (update_high_tc tc)"
    unfolding update_high_tc_def by (rule mod_frame) simp_all
  then show ?thesis
    unfolding process_tc_def by (intro ci.keeps_then advance_round_cert frame_cert)
qed

lemma core_add_vote_cert:
  assumes "Vote_verify L c v = Ok ()"
  shows "keeps (inv_rel (cert_inv L c)) (core_add_vote L v)"
    and "cert_inv L c s \<Longrightarrow> core_add_vote L v s = (Ok (Some qc), s') \<Longrightarrow> certified L c qc"
proof -
  have *: "agg_inv L (snd (add_vote L v (aggregator s))) \<and>
      (\<forall>q. fst (add_vote L v (aggregator s)) = Ok (Some q) \<longrightarrow> QC_verify L c q = Ok ())"
    if "cert_inv L c s" for s
    using add_vote_inv [of L "aggregator s" v, OF _ _ surjective_pairing] that assms
    by (auto simp: cert_inv_def)
  show "keeps (inv_rel (cert_inv L c)) (core_add_vote L v)"
    using * by (auto simp: keeps_def inv_rel_def core_add_vote_def cert_inv_def split_def Let_def)
  show "cert_inv L c s \<Longrightarrow> core_add_vote L v s = (Ok (Some qc), s') \<Longrightarrow> certified L c qc"
    using * by (auto simp: core_add_vote_def certified_def split_def Let_def)
qed

lemma core_add_timeout_cert:
  assumes "Timeout_verify L c t = Ok ()"
  shows "keeps (inv_rel (cert_inv L c)) (core_add_timeout t)"
proof -
  have "agg_inv L (snd (add_timeout t (aggregator s)))" if "cert_inv L c s" for s
    using add_timeout_inv [of L "aggregator s" t, OF _ _ surjective_pairing] that assms
    by (auto simp: cert_inv_def)
  then show ?thesis
    by (auto simp: keeps_def inv_rel_def core_add_timeout_def cert_inv_def split_def Let_def)
qed

lemma handle_vote_cert: "keeps (inv_rel (cert_inv L c)) (handle_vote L v)"
  unfolding handle_vote_def
proof (rule ci.keeps_bind [OF ci.keeps_get], rule keeps_if [OF ci.keeps_ret],
    rule ci.inv_get [where v = c])
  show "core_committee s = c" if "cert_inv L c s" for s using that by (simp add: cert_inv_def)
qed (rule ci.inv_then_lift, rule ci.inv_bind_res [OF core_add_vote_cert(1)], simp,
    intro keeps_option_res ci.keeps_rules process_qc_cert cf_all [THEN frame_cert],
    auto intro: core_add_vote_cert(2))

lemma handle_timeout_cert: "keeps (inv_rel (cert_inv L c)) (handle_timeout L t)"
  unfolding handle_timeout_def
proof (rule ci.keeps_bind [OF ci.keeps_get], rule keeps_if [OF ci.keeps_ret],
    rule ci.inv_get [where v = c])
  show "core_committee s = c" if "cert_inv L c s" for s using that by (simp add: cert_inv_def)
qed (rule ci.inv_then_lift,
    intro ci.keeps_rules process_qc_cert process_tc_cert core_add_timeout_cert
      cf_all [THEN frame_cert],
    auto simp: Timeout_verify_Ok_iff certified_def)

lemma local_timeout_cert: "keeps (inv_rel (cert_inv L c)) (local_timeout_round L)"
  unfolding local_timeout_round_def
  by (intro ci.keeps_rules handle_timeout_cert cf_all [THEN frame_cert])

lemma process_block_cert: "keeps (inv_rel (cert_inv L c)) (process_block L n b)"
  unfolding process_block_def
  by (intro ci.keeps_rules handle_vote_cert cf_all [THEN frame_cert])

lemma handle_proposal_cert: "keeps (inv_rel (cert_inv L c)) (handle_proposal L n b)"
  unfolding handle_proposal_def
proof (rule ci.keeps_bind [OF frame_cert [OF ro_frame [OF core_leader_ro]]],
    rule ci.keeps_then [OF ci.keeps_lift], rule ci.inv_get [where v = c])
  show "core_committee s = c" if "cert_inv L c s" for s using that by (simp add: cert_inv_def)
qed (rule ci.inv_then_lift,
    intro ci.keeps_rules process_qc_cert process_tc_cert process_block_cert
      cf_all [THEN frame_cert],
    auto simp: Block_verify_Ok_iff certified_def)

lemma handle_tc_cert: "keeps (inv_rel (cert_inv L c)) (handle_tc tc)"
  unfolding handle_tc_def
  by (intro ci.keeps_rules process_tc_cert cf_all [THEN frame_cert])

lemma core_step_cert: "keeps (inv_rel (cert_inv L c)) (core_step L n e)"
proof (cases e)
  case (Message m)
  then show ?thesis
    by (cases m) (simp_all add: handle_proposal_cert handle_vote_cert handle_timeout_cert
        handle_tc_cert ci.keeps_lift)
qed (simp_all add: process_block_cert local_timeout_cert)

lemma core_run_cert: "keeps (inv_rel (cert_inv L c)) (core_run L n es)"
  by (rule core_run_keeps [OF ci.state_preorder_axioms core_step_cert])

lemma cert_inv_new: "committee_valid c \<Longrightarrow> cert_inv L c (Core_new name c secret st vid)"
  by (simp add: cert_inv_def Core_new_def agg_inv_new certified_def Aggregator_new_def
      agg_inv_new [unfolded Aggregator_new_def])

end
