(* ===== verification/CoreCommit.thy ===== *)
theory CoreCommit
  imports CoreLemmas
begin

text \<open>
  Committing and pruning: what the commit walk gathers and sends, that the pruning loop ends, and
  that a commit follows from a chain of two blocks in consecutive rounds.
\<close>

section \<open>Reading the chain\<close>

text \<open>Every stored value that decodes as a block is stored under that block's digest.\<close>

definition content_addressed :: "hs_lib \<Rightarrow> store_state \<Rightarrow> bool" where
  "content_addressed L st \<longleftrightarrow>
    (\<forall>k v b. content st k = Some v \<longrightarrow> de_block L v = Inr b \<longrightarrow> Block_digest L b = k)"

lemma get_parent_block_Some:
  assumes R: "rocks_ok (rocks L)" and g: "get_parent_block L p s = (Ok (Some a), s')"
  shows "QC_eq (blk_qc p) QC_genesis \<and> a = Block_genesis \<or>
    running (core_store s) \<and> (\<exists>v. content (core_store s) (parent p) = Some v \<and> de_block L v = Inr a)"
proof (cases "running (core_store s)")
  case True
  have read: "store_read (rocks L) k (core_store s) = Inr (content (core_store s) k)" for k
    using store_read_running [OF True R] .
  show ?thesis
    using g True unfolding get_parent_block_def
    by (auto simp: act_simps read liftO_def unwrap_sum_def retM_def bindM_def getM_def
        split: if_splits option.splits sum.splits)
next
  case False
  then show ?thesis
    using g store_read_stopped [OF False, of "rocks L" "parent p"] unfolding get_parent_block_def
    by (auto simp: act_simps retM_def bindM_def getM_def split: if_splits)
qed

lemma get_parent_block_total:
  "fst (get_parent_block L p s) \<noteq> Diverge" "fst (get_parent_block L p s) \<noteq> Err e"
  unfolding get_parent_block_def
  by (auto simp: act_simps liftO_def unwrap_sum_def retM_def bindM_def getM_def
      split: option.splits sum.splits)

lemma remove_block_run:
  assumes R: "rocks_ok (rocks L)" and run: "running (core_store s)"
  obtains s' where "remove_block L a s = (Ok (), s')" "prune_depth s' = prune_depth s"
    "content (core_store s') = (content (core_store s))(Block_digest L a := None)"
proof -
  obtain st rs where d: "store_delete (rocks L) (Block_digest L a) (core_store s) = (st, rs)"
    by (cases "store_delete (rocks L) (Block_digest L a) (core_store s)")
  show ?thesis
    using that [of "s\<lparr>core_store := st, out := out s @ map StoreReply rs\<rparr>"]
      store_delete_content [OF R run, of "Block_digest L a"] d
    by (simp add: remove_block_def store_op_def act_simps)
qed

lemma remove_block_Ok: "\<exists>s'. remove_block L a s = (Ok (), s') \<and> prune_depth s' = prune_depth s"
  by (simp add: remove_block_def store_op_def act_simps split_def Let_def)

section \<open>The pruning loop ends\<close>

text \<open>One round of the loop.\<close>

lemma prune_loop_Suc:
  "prune_loop L (Suc n) i p s = (case get_parent_block L p s of
      (Ok (Some a), _) \<Rightarrow>
        if Block_eq p Block_genesis then (Ok (), s)
        else if prune_depth s \<le> i + 1
        then prune_loop L n (i + 1) a (snd (remove_block L a s))
        else prune_loop L n (i + 1) a s
    | (Ok None, _) \<Rightarrow> (Ok (), s)
    | (Err e, _) \<Rightarrow> (Err e, s) | (Panic m, _) \<Rightarrow> (Panic m, s) | (Diverge, _) \<Rightarrow> (Diverge, s))"
proof -
  obtain r s' where g: "get_parent_block L p s = (r, s')" by (cases "get_parent_block L p s")
  have s': "s' = s" using get_parent_block_state [OF g] .
  have rm: "thenM (remove_block L a) k s = k (snd (remove_block L a s))" for a and k :: "unit core_act"
    using remove_block_Ok [of L a s] by (auto simp: thenM_def bindM_def)
  show ?thesis
    using g unfolding s'
    by (cases r) (auto simp: act_simps whenM_def rm thenM_def [of "retM ()"] split: option.splits)
qed

declare prune_loop.simps(2) [simp del]

lemma Block_genesis_eq [simp]: "Block_eq Block_genesis Block_genesis"
  by (simp add: Block_eq_def)

lemma prune_genesis: "fst (prune_loop L (Suc n) i Block_genesis s) = Ok ()"
proof -
  have "get_parent_block L Block_genesis s = (Ok (Some Block_genesis), s)"
    by (simp add: get_parent_block_def Block_genesis_def act_simps)
  then show ?thesis by (simp add: prune_loop_Suc)
qed

text \<open>
  Past the pruning depth every round of the loop deletes the block it has just read, so the number
  of stored keys bounds the rounds left, whatever the shape of the chain.
\<close>

lemma prune_loop_terminates:
  assumes R: "rocks_ok (rocks L)"
  shows "content_addressed L (core_store s) \<Longrightarrow> finite (dom (content (core_store s))) \<Longrightarrow>
    (unat (prune_depth s) - unat i) + card (dom (content (core_store s))) + 3 \<le> n \<Longrightarrow>
    max (unat i) (unat (prune_depth s)) + card (dom (content (core_store s))) + 3 < 2 ^ 64 \<Longrightarrow>
    fst (prune_loop L n i p s) \<noteq> Diverge"
proof (induction n arbitrary: i p s)
  case (Suc n)
  note ca = Suc.prems(1) and fin = Suc.prems(2) and fuel = Suc.prems(3) and small = Suc.prems(4)
  obtain r s' where g: "get_parent_block L p s = (r, s')" by (cases "get_parent_block L p s")
  have i1: "unat (i + 1) = unat i + 1"
    using small by (subst unat_word_ariths) simp
  show ?case
  proof (cases "\<exists>a. r = Ok (Some a) \<and> \<not> Block_eq p Block_genesis")
    case False
    then show ?thesis
      using g get_parent_block_total(1) [of L p s] unfolding prune_loop_Suc
      by (auto split: outcome.splits option.splits)
  next
    case True
    then obtain a where a: "r = Ok (Some a)" and ng: "\<not> Block_eq p Block_genesis" by blast
    obtain m where m: "n = Suc m" using fuel by (cases n) auto
    from get_parent_block_Some [OF R g [unfolded a]] show ?thesis
    proof (elim disjE conjE exE)
      assume "a = Block_genesis"
      then show ?thesis
        using g a ng m by (subst prune_loop_Suc) (simp add: prune_genesis)
    next
      fix v assume run: "running (core_store s)" and
        v: "content (core_store s) (parent p) = Some v" "de_block L v = Inr a"
      have k: "Block_digest L a = parent p" using ca v by (auto simp: content_addressed_def)
      show ?thesis
      proof (cases "prune_depth s \<le> i + 1")
        case True
        obtain s1 where s1: "remove_block L a s = (Ok (), s1)" "prune_depth s1 = prune_depth s"
            "content (core_store s1) = (content (core_store s))(Block_digest L a := None)"
          using remove_block_run [OF R run] by blast
        have dom1: "parent p \<in> dom (content (core_store s))"
          "dom (content (core_store s1)) = dom (content (core_store s)) - {parent p}"
          using v k s1(3) by auto
        have card1: "card (dom (content (core_store s1))) = card (dom (content (core_store s))) - 1"
          "card (dom (content (core_store s))) > 0"
          using fin dom1 by (auto simp: card_gt_0_iff)
        have "content_addressed L (core_store s1)"
          using ca s1(3) by (simp add: content_addressed_def)
        then have "fst (prune_loop L n (i + 1) a s1) \<noteq> Diverge"
          using fin fuel small i1 dom1(2) s1(2) card1
          by (intro Suc.IH; simp)
        then show ?thesis
          using g a ng True s1 unfolding prune_loop_Suc by simp
      next
        case False
        then have "unat (prune_depth s) > unat i + 1" using i1 by (simp add: word_le_nat_alt)
        then have "fst (prune_loop L n (i + 1) a s) \<noteq> Diverge"
          using ca fin fuel small i1 by (intro Suc.IH) auto
        then show ?thesis
          using g a ng False unfolding prune_loop_Suc by simp
      qed
    qed
  qed
qed simp

section \<open>Every handler ends\<close>

lemma seal_msg_ends [simp]: "seal_msg L vid m e \<noteq> Diverge"
  by (simp add: seal_msg_def)

lemma get_leader_ends [simp]: "get_leader c r \<noteq> Diverge"
  by (simp add: get_leader_def)

lemma emit_ends: "ends (emit e)" and store_op_ends: "ends (store_op f)"
  by (simp_all add: emit_def store_op_def ends_mod)

lemma core_leader_ends: "ends (core_leader r)"
  unfolding core_leader_def by (intro ends_rules ends_lift) simp

lemma broadcast_ends: "ends (broadcast L m e)"
  unfolding broadcast_def by (intro ends_rules ends_lift emit_ends) simp

lemma get_parent_ends: "ends (get_parent_block L b)"
  using get_parent_block_total by (simp add: ends_def)

lemma get_ancestors_ends: "ends (get_ancestors L b)"
  unfolding get_ancestors_def sync_get_parent_block_def
  by (intro ends_rules ends_lift emit_ends; simp)

lemma blocks_ends: "ends (store_block L b)" "ends (remove_block L b)"
  unfolding store_block_def remove_block_def by (intro ends_rules ends_lift store_op_ends; simp)+

lemma gather_ends: "ends (gather_ancestors L k b acc)"
  by (induction k arbitrary: b acc) (auto intro!: ends_rules get_parent_ends)

lemma process_cert_ends: "ends (process_qc qc)" "ends (process_tc tc)"
  unfolding process_qc_def process_tc_def advance_round_def update_high_qc_def update_high_tc_def
  by (intro ends_rules emit_ends)+

lemma proposal_ends: "ends (generate_proposal tc)" "ends (cleanup_proposer a b c)"
  "ends (mempool_cleanup r)"
  unfolding generate_proposal_def cleanup_proposer_def mempool_cleanup_def Let_def
  by (intro ends_rules emit_ends)+

lemma missing_payload_ends: "missing_payload L st xs \<noteq> Diverge"
  by (induction xs) (simp_all split: sum.splits option.splits)

lemma mempool_verify_ends: "ends (mempool_verify L b)"
  unfolding mempool_verify_def by (intro ends_rules ends_lift emit_ends missing_payload_ends)

lemma core_add_ends: "ends (core_add_vote L v)" "ends (core_add_timeout t)"
  by (simp_all add: ends_def core_add_vote_def core_add_timeout_def split_def Let_def add_no_panic)

lemma handle_vote_ends: "ends (handle_vote L v)"
  unfolding handle_vote_def
  by (intro ends_rules ends_lift emit_ends core_add_ends process_cert_ends proposal_ends
      core_leader_ends) simp

lemma handle_timeout_ends: "ends (handle_timeout L t)"
  unfolding handle_timeout_def
  by (intro ends_rules ends_lift emit_ends core_add_ends process_cert_ends proposal_ends
      core_leader_ends broadcast_ends) simp

lemma local_timeout_ends: "ends (local_timeout_round L)"
  unfolding local_timeout_round_def increase_last_voted_round_def
  by (intro ends_rules ends_lift emit_ends broadcast_ends handle_timeout_ends) simp

lemma handle_tc_ends: "ends (handle_tc tc)"
  unfolding handle_tc_def by (intro ends_rules process_cert_ends proposal_ends core_leader_ends)

lemma safety_rule_2_ends [simp]: "safety_rule_2 b \<noteq> Diverge"
proof -
  have "max_round rs \<noteq> Diverge" for rs by (cases rs) auto
  then show ?thesis
    by (simp add: safety_rule_2_def Let_def split: option.splits)
qed

lemma make_vote_ends: "ends (make_vote L b)"
  unfolding make_vote_def increase_last_voted_round_def by (intro ends_rules ends_lift; simp)

lemma bindM_ends_at:
  assumes "fst (m s) \<noteq> Diverge" "\<And>a s'. m s = (Ok a, s') \<Longrightarrow> fst (f a s') \<noteq> Diverge"
  shows "fst (bindM m f s) \<noteq> Diverge"
proof -
  obtain r s' where "m s = (r, s')" by (cases "m s")
  then show ?thesis using assms by (cases r) (auto simp: bindM_def)
qed

lemma thenM_ends_at:
  assumes "fst (m s) \<noteq> Diverge" "\<And>a s'. m s = (Ok a, s') \<Longrightarrow> fst (k s') \<noteq> Diverge"
  shows "fst (thenM m k s) \<noteq> Diverge"
  unfolding thenM_def using assms by (rule bindM_ends_at)

lemma endsD: "ends m \<Longrightarrow> fst (m s) \<noteq> Diverge"
  by (simp add: ends_def)

text \<open>Actions that leave the store and the pruning depth alone.\<close>

definition store_frame :: "core \<Rightarrow> core \<Rightarrow> bool" where
  "store_frame s s' \<longleftrightarrow> core_store s' = core_store s \<and> prune_depth s' = prune_depth s"

interpretation sf: state_preorder store_frame
  by unfold_locales (auto simp: store_frame_def)

lemma sf_mod: "(\<And>s. core_store (f s) = core_store s) \<Longrightarrow> (\<And>s. prune_depth (f s) = prune_depth s) \<Longrightarrow>
    keeps store_frame (modM f)"
  by (rule sf.keeps_mod) (simp add: store_frame_def)

lemma emit_sf: "keeps store_frame (emit e)"
  unfolding emit_def by (rule sf_mod) simp_all

lemma quiet_sf: "keeps store_frame (get_ancestors L b)" "keeps store_frame (cleanup_proposer x y z)"
  "keeps store_frame (mempool_cleanup r)" "keeps store_frame (mempool_verify L b)"
  "keeps store_frame (process_qc qc)" "keeps store_frame (process_tc tc)"
  unfolding get_ancestors_def sync_get_parent_block_def cleanup_proposer_def mempool_cleanup_def
    mempool_verify_def process_qc_def process_tc_def advance_round_def update_high_qc_def
    update_high_tc_def Let_def
  by (intro sf.keeps_rules emit_sf sf_mod; simp)+

text \<open>Fuel for the pruning loop: the depth, one step per stored key, and three more.\<close>

definition fuel_ok :: "hs_lib \<Rightarrow> nat \<Rightarrow> core \<Rightarrow> bool" where
  "fuel_ok L n s \<longleftrightarrow> rocks_ok (rocks L) \<and> content_addressed L (core_store s) \<and>
    finite (dom (content (core_store s))) \<and>
    unat (prune_depth s) + card (dom (content (core_store s))) + 3 \<le> n \<and> n < 2 ^ 64"

definition codec_ok :: "hs_lib \<Rightarrow> Block \<Rightarrow> bool" where
  "codec_ok L b \<longleftrightarrow> (\<forall>v. ser_block L b = Inr v \<longrightarrow> de_block L v = Inr b)"

lemma fuel_ok_frame: "store_frame s s' \<Longrightarrow> fuel_ok L n s \<Longrightarrow> fuel_ok L n s'"
  by (simp add: fuel_ok_def store_frame_def)

lemma commit_ends: "fuel_ok L n s \<Longrightarrow> fst (commit L n b s) \<noteq> Diverge"
proof -
  assume fuel: "fuel_ok L n s"
  have "fst (prune L n b (s\<lparr>last_committed_round := r\<rparr>)) \<noteq> Diverge" for r
    unfolding prune_def using fuel
    by (intro prune_loop_terminates) (auto simp: fuel_ok_def)
  moreover have "ends (forM xs send_commit)" for xs
    unfolding send_commit_def by (intro ends_rules emit_ends)
  ultimately have "fst (thenM (prune L n b) (forM xs send_commit) (s\<lparr>last_committed_round := r\<rparr>))
      \<noteq> Diverge" for xs r
    by (intro thenM_ends_at) (auto simp: ends_def)
  then show ?thesis
    using endsD [OF gather_ends, of L heuristic_history_rounds b "[]" s]
    unfolding commit_unfold by (auto split: prod.splits outcome.splits)
qed

lemma store_block_fuel:
  assumes "codec_ok L b" "fuel_ok L n s" "Suc n < 2 ^ 64" and st: "store_block L b s = (Ok u, s')"
  shows "fuel_ok L (Suc n) s'"
proof -
  obtain v where v: "ser_block L b = Inr v"
    using st by (cases "ser_block L b") (auto simp: store_block_def act_simps liftO_def)
  have R: "rocks_ok (rocks L)" using assms by (simp add: fuel_ok_def)
  have s': "s' = snd (store_op (store_write (rocks L) (Block_digest L b) v) s)"
    using st v by (simp add: store_block_def act_simps)
  have depth: "prune_depth s' = prune_depth s"
    unfolding s' by (simp add: store_op_def act_simps split_def Let_def)
  have st': "core_store s' = fst (store_write (rocks L) (Block_digest L b) v (core_store s))"
    unfolding s' by (simp add: store_op_def act_simps split_def Let_def)
  show ?thesis
  proof (cases "running (core_store s)")
    case True
    then have c: "content (core_store s') = (content (core_store s))(Block_digest L b \<mapsto> v)"
      using store_write_content(1) [OF R True] st' by simp
    have "card (insert (Block_digest L b) (dom (content (core_store s)))) \<le>
        Suc (card (dom (content (core_store s))))"
      by (rule card_insert_le_m1) auto
    moreover have "content_addressed L (core_store s')"
      using assms(1,2) v unfolding content_addressed_def c codec_ok_def fuel_ok_def by auto
    ultimately show ?thesis
      using assms(2,3) depth unfolding fuel_ok_def c by auto
  next
    case False
    then show ?thesis
      using assms(2,3) depth st' store_write_stopped [OF False]
      by (simp add: fuel_ok_def content_addressed_def)
  qed
qed

lemma process_block_ends:
  assumes "codec_ok L b" "fuel_ok L n s" "Suc n < 2 ^ 64"
  shows "fst (process_block L (Suc n) b s) \<noteq> Diverge"
  unfolding process_block_def
proof (rule thenM_ends_at [OF endsD [OF blocks_ends(1)]],
    rule bindM_ends_at [OF endsD [OF get_ancestors_ends]])
  fix u s1 anc s2
  assume "store_block L b s = (Ok u, s1)" and ga: "get_ancestors L b s1 = (Ok anc, s2)"
  then have f2: "fuel_ok L (Suc n) s2"
    using store_block_fuel [OF assms] fuel_ok_frame keepsD [OF quiet_sf(1) ga] by blast
  have rest: "ends (bindM (getM core_round) (\<lambda>r. if blk_round b \<noteq> r then retM ()
      else bindM (make_vote L b) (\<lambda>v. case v of None \<Rightarrow> retM ()
        | Some vote \<Rightarrow> thenM (handle_vote L vote)
            (broadcast L (VoteMsg vote) ''Failed to serialize vote''))))"
    by (intro ends_rules make_vote_ends handle_vote_ends broadcast_ends)
  have com: "fst (whenM (blk_round b0 + 1 = blk_round b1)
      (thenM (mempool_cleanup (blk_round b0)) (commit L (Suc n) b0)) s3) \<noteq> Diverge"
    if "fuel_ok L (Suc n) s3" for b0 b1 s3
  proof -
    have "fst (thenM (mempool_cleanup (blk_round b0)) (commit L (Suc n) b0) s3) \<noteq> Diverge"
      by (intro thenM_ends_at endsD [OF proposal_ends(3)] commit_ends)
        (rule fuel_ok_frame [OF keepsD [OF quiet_sf(3)] that])
    then show ?thesis by (simp add: whenM_run)
  qed
  have "fst (thenM (cleanup_proposer b0 b1 b) (thenM (whenM (blk_round b0 + 1 = blk_round b1)
      (thenM (mempool_cleanup (blk_round b0)) (commit L (Suc n) b0)))
      (bindM (getM core_round) (\<lambda>r. if blk_round b \<noteq> r then retM ()
      else bindM (make_vote L b) (\<lambda>v. case v of None \<Rightarrow> retM ()
        | Some vote \<Rightarrow> thenM (handle_vote L vote)
            (broadcast L (VoteMsg vote) ''Failed to serialize vote''))))) s2) \<noteq> Diverge" for b0 b1
    using f2 by (intro thenM_ends_at endsD [OF proposal_ends(2)] com endsD [OF rest])
      (auto dest!: keepsD [OF quiet_sf(2)] intro: fuel_ok_frame)
  then show "fst ((case anc of None \<Rightarrow> retM ()
    | Some (b0, b1) \<Rightarrow>
        thenM (cleanup_proposer b0 b1 b)
        (thenM (whenM (blk_round b0 + 1 = blk_round b1)
            (thenM (mempool_cleanup (blk_round b0)) (commit L (Suc n) b0)))
        (bindM (getM core_round) (\<lambda>r.
         if blk_round b \<noteq> r then retM ()
         else bindM (make_vote L b) (\<lambda>v. case v of
             None \<Rightarrow> retM ()
           | Some vote \<Rightarrow> thenM (handle_vote L vote)
               (broadcast L (VoteMsg vote) ''Failed to serialize vote'')))))) s2) \<noteq> Diverge"
    by (auto simp: retM_def split: option.splits)
qed

lemma core_leader_sf: "keeps store_frame (core_leader r)"
  unfolding core_leader_def by (intro sf.keeps_rules)

lemma handle_proposal_ends:
  assumes "codec_ok L b" "fuel_ok L n s" "Suc n < 2 ^ 64"
  shows "fst (handle_proposal L (Suc n) b s) \<noteq> Diverge"
proof -
  define pre where "pre = bindM (core_leader (blk_round b)) (\<lambda>leader.
    thenM (liftO (ensure (blk_author b = leader)
      (WrongLeader (Block_digest L b) (blk_author b) (blk_round b))))
    (bindM (getM core_committee) (\<lambda>c.
     thenM (liftO (Block_verify L c b))
     (thenM (process_qc (blk_qc b))
     (thenM (case blk_tc b of Some tc \<Rightarrow> process_tc tc | None \<Rightarrow> retM ())
     (mempool_verify L b))))))"
  have split: "handle_proposal L (Suc n) b =
      bindM pre (\<lambda>ok. if \<not> ok then retM () else process_block L (Suc n) b)"
    unfolding handle_proposal_def pre_def thenM_def
    by (rule ext) (auto simp: bindM_def split: prod.splits outcome.splits)
  have "ends pre"
    unfolding pre_def
    by (intro ends_rules ends_lift core_leader_ends process_cert_ends mempool_verify_ends) auto
  moreover have "keeps store_frame pre"
    unfolding pre_def by (intro sf.keeps_rules core_leader_sf quiet_sf)
  ultimately show ?thesis
    unfolding split using process_block_ends [OF assms(1) _ assms(3)] assms(2)
    by (intro bindM_ends_at) (auto simp: endsD retM_def dest!: keepsD intro: fuel_ok_frame)
qed

lemma core_step_ends:
  assumes "\<forall>b. codec_ok L b" "fuel_ok L n s" "Suc n < 2 ^ 64"
  shows "fst (core_step L (Suc n) e s) \<noteq> Diverge"
proof (cases e)
  case (Message m)
  then show ?thesis
    using assms handle_proposal_ends
    by (cases m) (auto simp: endsD handle_vote_ends handle_timeout_ends handle_tc_ends liftO_def)
qed (use assms process_block_ends in \<open>auto simp: endsD local_timeout_ends\<close>)

section \<open>What a commit delivers\<close>

fun delivered :: "core_out list \<Rightarrow> Block list" where
  "delivered [] = []"
| "delivered (ToCommit b # es) = b # delivered es"
| "delivered (_ # es) = delivered es"

lemma delivered_append [simp]: "delivered (xs @ ys) = delivered xs @ delivered ys"
  by (induction xs rule: delivered.induct) auto

lemma delivered_replies [simp]: "delivered (map StoreReply rs) = []"
  by (induction rs) auto

definition no_delivery :: "core \<Rightarrow> core \<Rightarrow> bool" where
  "no_delivery s s' \<longleftrightarrow> delivered (out s') = delivered (out s) \<and>
    last_committed_round s' = last_committed_round s"

interpretation nd: state_preorder no_delivery
  by unfold_locales (auto simp: no_delivery_def)

lemma nd_mod: "(\<And>s. out (f s) = out s) \<Longrightarrow> (\<And>s. last_committed_round (f s) = last_committed_round s) \<Longrightarrow>
    keeps no_delivery (modM f)"
  by (rule nd.keeps_mod) (simp add: no_delivery_def)

lemma emit_nd: "delivered [e] = [] \<Longrightarrow> keeps no_delivery (emit e)"
  unfolding emit_def by (rule nd.keeps_mod) (simp add: no_delivery_def)

lemma store_op_nd: "keeps no_delivery (store_op f)"
  unfolding store_op_def by (rule nd.keeps_mod) (simp add: no_delivery_def split_def Let_def)

lemma ro_nd: "keeps (\<lambda>s s'. s' = s) m \<Longrightarrow> keeps no_delivery m"
  by (simp add: keeps_def nd.R_refl)

lemmas nd_basics = emit_nd store_op_nd ro_nd [OF get_parent_block_ro] ro_nd [OF core_leader_ro]

lemma broadcast_nd: "keeps no_delivery (broadcast L m e)"
  unfolding broadcast_def by (intro nd.keeps_rules nd_basics) simp

lemma blocks_nd: "keeps no_delivery (store_block L b)" "keeps no_delivery (remove_block L b)"
  "keeps no_delivery (get_ancestors L b)"
  unfolding store_block_def remove_block_def get_ancestors_def sync_get_parent_block_def
  by (intro nd.keeps_rules nd_basics; simp)+

lemma prune_loop_nd: "keeps no_delivery (prune_loop L n i b)"
  by (induction n arbitrary: i b)
    (auto simp: prune_loop.simps intro!: nd.keeps_rules nd_basics blocks_nd)

lemma process_cert_nd: "keeps no_delivery (process_qc qc)" "keeps no_delivery (process_tc tc)"
  unfolding process_qc_def process_tc_def advance_round_def update_high_qc_def update_high_tc_def
  by (intro nd.keeps_rules nd_basics nd_mod; simp)+

lemma proposal_nd: "keeps no_delivery (generate_proposal tc)" "keeps no_delivery (cleanup_proposer a b c)"
  "keeps no_delivery (mempool_cleanup r)" "keeps no_delivery (mempool_verify L b)"
  "keeps no_delivery (increase_last_voted_round r)"
  "keeps no_delivery (modM (\<lambda>s. s\<lparr>fast_commit_request := f s\<rparr>))"
  unfolding generate_proposal_def cleanup_proposer_def mempool_cleanup_def mempool_verify_def Let_def
    increase_last_voted_round_def
  by (intro nd.keeps_rules nd_basics nd_mod; simp)+

lemma core_add_nd: "keeps no_delivery (core_add_vote L v)" "keeps no_delivery (core_add_timeout t)"
  by (simp_all add: keeps_def no_delivery_def core_add_vote_def core_add_timeout_def split_def Let_def)

lemma make_vote_nd: "keeps no_delivery (make_vote L b)"
  unfolding make_vote_def by (intro nd.keeps_rules proposal_nd)

lemma handle_vote_nd: "keeps no_delivery (handle_vote L v)"
  unfolding handle_vote_def
  by (intro nd.keeps_rules core_add_nd process_cert_nd proposal_nd nd_basics) simp

lemma handle_timeout_nd: "keeps no_delivery (handle_timeout L t)"
  unfolding handle_timeout_def
  by (intro nd.keeps_rules core_add_nd process_cert_nd proposal_nd nd_basics broadcast_nd)

lemma send_commits:
  "forM bs send_commit s = (Ok (), s\<lparr>out := out s @ map ToCommit (filter (\<lambda>b. blk_payload b \<noteq> []) bs)\<rparr>)"
  by (induction bs arbitrary: s)
    (simp_all add: act_simps send_commit_def emit_def thenM_def bindM_def whenM_def)

lemma delivered_map [simp]: "delivered (map ToCommit bs) = bs"
  by (induction bs) auto

text \<open>
  The blocks a commit hands over: nothing at or below the last committed round; otherwise the
  gathered ancestors from the newest to the oldest, then the block itself, without empty blocks.
\<close>

lemma commit_delivers:
  assumes c: "commit L n b s = (Ok (), s')"
  shows "if blk_round b \<le> last_committed_round s then s' = s
    else \<exists>anc. gather_ancestors L heuristic_history_rounds b [] s = (Ok anc, s) \<and>
      last_committed_round s' = blk_round b \<and>
      delivered (out s') = delivered (out s) @ filter (\<lambda>x. blk_payload x \<noteq> []) (rev anc @ [b])"
proof (cases "blk_round b \<le> last_committed_round s")
  case True
  then show ?thesis using c by (simp add: commit_unfold)
next
  case new: False
  obtain r s1 where g: "gather_ancestors L heuristic_history_rounds b [] s = (r, s1)"
    by (cases "gather_ancestors L heuristic_history_rounds b [] s")
  have s1: "s1 = s" using gather_ancestors_state [OF g] .
  obtain anc where anc: "r = Ok anc"
    using c g new by (cases r) (auto simp: commit_unfold)
  have run: "thenM (prune L n b) (forM (rev (b # anc)) send_commit)
      (s\<lparr>last_committed_round := blk_round b\<rparr>) = (Ok (), s')"
    using c g new anc by (simp add: commit_unfold)
  from thenM_OkE [OF this] obtain s2 where p: "prune L n b (s\<lparr>last_committed_round := blk_round b\<rparr>) = (Ok (), s2)"
      and f: "forM (rev (b # anc)) send_commit s2 = (Ok (), s')"
    by auto
  have "delivered (out s2) = delivered (out s) \<and> last_committed_round s2 = blk_round b"
    using keepsD [OF prune_loop_nd p [unfolded prune_def]] by (simp add: no_delivery_def)
  moreover have "s' = s2\<lparr>out := out s2 @ map ToCommit (filter (\<lambda>b. blk_payload b \<noteq> []) (rev (b # anc)))\<rparr>"
    using f unfolding send_commits by simp
  ultimately show ?thesis using new g s1 anc by simp
qed

section \<open>The chain in the store\<close>

text \<open>The parent of a block as a running store has it.\<close>

definition stored_parent :: "hs_lib \<Rightarrow> store_state \<Rightarrow> Block \<Rightarrow> Block option" where
  "stored_parent L st b =
    (if QC_eq (blk_qc b) QC_genesis then Some Block_genesis
     else case content st (parent b) of
       None \<Rightarrow> None
     | Some v \<Rightarrow> (case de_block L v of Inl _ \<Rightarrow> None | Inr x \<Rightarrow> Some x))"

fun ancestry :: "hs_lib \<Rightarrow> store_state \<Rightarrow> Block \<Rightarrow> Block list \<Rightarrow> bool" where
  "ancestry L st b [] \<longleftrightarrow> True"
| "ancestry L st b (x # xs) \<longleftrightarrow> stored_parent L st b = Some x \<and> ancestry L st x xs"

lemma get_parent_stored:
  assumes R: "rocks_ok (rocks L)" and run: "running (core_store s)"
    and g: "get_parent_block L b s = (Ok res, s')"
  shows "res = stored_parent L (core_store s) b"
  using g store_read_running [OF run R] unfolding get_parent_block_def stored_parent_def
  by (auto simp: act_simps liftO_def unwrap_sum_def retM_def bindM_def getM_def
      split: if_splits option.splits sum.splits)

lemma sync_parent_stored:
  assumes R: "rocks_ok (rocks L)" and run: "running (core_store s)"
    and g: "sync_get_parent_block L b s = (Ok res, s')"
  shows "res = stored_parent L (core_store s) b \<and> core_store s' = core_store s"
  using g store_read_running [OF run R] unfolding sync_get_parent_block_def stored_parent_def
  by (auto simp: act_simps liftO_def of_sum_def retM_def bindM_def getM_def emit_def thenM_def modM_def
      split: if_splits option.splits sum.splits)

lemma get_ancestors_stored:
  assumes R: "rocks_ok (rocks L)" and run: "running (core_store s)"
    and g: "get_ancestors L b s = (Ok (Some (b0, b1)), s')"
  shows "ancestry L (core_store s) b [b1, b0]"
proof -
  obtain p1 s1 where p1: "sync_get_parent_block L b s = (Ok p1, s1)"
    and rest: "(case p1 of None \<Rightarrow> retM None | Some b1 \<Rightarrow> bindM (sync_get_parent_block L b1)
      (\<lambda>p0. case p0 of None \<Rightarrow> retM None | Some b0 \<Rightarrow> retM (Some (b0, b1)))) s1 = (Ok (Some (b0, b1)), s')"
    using g unfolding get_ancestors_def by (rule bindM_OkE)
  note c1 = sync_parent_stored [OF R run p1]
  from rest obtain x where x: "p1 = Some x" by (cases p1) (auto simp: retM_def)
  with rest have "bindM (sync_get_parent_block L x)
      (\<lambda>p0. case p0 of None \<Rightarrow> retM None | Some b0 \<Rightarrow> retM (Some (b0, x))) s1 = (Ok (Some (b0, b1)), s')"
    by simp
  then obtain p0 s2 where p0: "sync_get_parent_block L x s1 = (Ok p0, s2)"
    and rest2: "(case p0 of None \<Rightarrow> retM None | Some b0 \<Rightarrow> retM (Some (b0, x))) s2 =
      (Ok (Some (b0, b1)) :: (ConsensusError, _) outcome, s')"
    by (rule bindM_OkE)
  have "running (core_store s1)" using c1 run by simp
  note c2 = sync_parent_stored [OF R this p0]
  obtain y where y: "p0 = Some y" using rest2 by (cases p0) (auto simp: retM_def)
  have "x = b1" "y = b0" using rest2 unfolding y by (auto simp: retM_def)
  then show ?thesis using c1 c2 x y by simp
qed

text \<open>
  The commit walk: it follows parents, takes another step only from a block more than one round above
  the last committed one, and takes at most \<open>k\<close> steps.
\<close>

lemma gather_ancestors_path:
  assumes R: "rocks_ok (rocks L)"
  shows "running (core_store s) \<Longrightarrow> gather_ancestors L k b acc s = (Ok l, s') \<Longrightarrow>
    \<exists>xs. l = rev xs @ acc \<and> ancestry L (core_store s) b xs \<and> length xs \<le> k \<and>
      (\<forall>i < length xs. last_committed_round s + 1 < blk_round ((b # xs) ! i)) \<and>
      (length xs < k \<longrightarrow> stored_parent L (core_store s) (last (b # xs)) = None \<or>
        \<not> last_committed_round s + 1 < blk_round (last (b # xs)))"
proof (induction k arbitrary: b acc)
  case 0
  then show ?case by (auto simp: retM_def)
next
  case (Suc k)
  show ?case
  proof (cases "last_committed_round s + 1 < blk_round b")
    case False
    then show ?thesis using Suc.prems by (auto simp: act_simps)
  next
    case True
    then have "bindM (get_parent_block L b) (\<lambda>anc. case anc of
        Some a \<Rightarrow> gather_ancestors L k a (a # acc) | None \<Rightarrow> retM acc) s = (Ok l, s')"
      using Suc.prems by (simp add: act_simps)
    then obtain res s1 where g: "get_parent_block L b s = (Ok res, s1)"
      and rest: "(case res of Some a \<Rightarrow> gather_ancestors L k a (a # acc) | None \<Rightarrow> retM acc) s1 = (Ok l, s')"
      by (rule bindM_OkE)
    have s1: "s1 = s" using get_parent_block_state [OF g] .
    have res: "res = stored_parent L (core_store s) b"
      using get_parent_stored [OF R Suc.prems(1) g] .
    show ?thesis
    proof (cases res)
      case None
      then show ?thesis using rest s1 res by (auto simp: retM_def intro!: exI [of _ "[]"])
    next
      case (Some a)
      then have "gather_ancestors L k a (a # acc) s = (Ok l, s')" using rest s1 by simp
      from Suc.IH [OF Suc.prems(1) this] obtain xs where
        xs: "l = rev xs @ a # acc" "ancestry L (core_store s) a xs" "length xs \<le> k"
          "\<forall>i < length xs. last_committed_round s + 1 < blk_round ((a # xs) ! i)"
          "length xs < k \<longrightarrow> stored_parent L (core_store s) (last (a # xs)) = None \<or>
            \<not> last_committed_round s + 1 < blk_round (last (a # xs))"
        by blast
      then show ?thesis
        using True Some res
        by (intro exI [of _ "a # xs"]) (auto simp: less_Suc_eq_0_disj)
    qed
  qed
qed

end
