(* ===== verification/CoreVotes.thy ===== *)
theory CoreVotes
  imports CoreCommit
begin

text \<open>
  Processing a block in two phases: everything up to the commit, and the vote.  From it: which votes
  a block can cause, which chain a commit rests on, and how the round of the core moves.
\<close>

section \<open>The two phases of \<open>process_block\<close>\<close>

definition process_pre :: "hs_lib \<Rightarrow> nat \<Rightarrow> Block \<Rightarrow> bool core_act" where
  "process_pre L n block =
    thenM (store_block L block)
    (bindM (get_ancestors L block) (\<lambda>ancestors. case ancestors of
      None \<Rightarrow> retM False
    | Some (b0, b1) \<Rightarrow>
        thenM (cleanup_proposer b0 b1 block)
        (thenM (whenM (blk_round b0 + 1 = blk_round b1)
            (thenM (mempool_cleanup (blk_round b0)) (commit L n b0)))
        (retM True))))"

definition process_vote :: "hs_lib \<Rightarrow> Block \<Rightarrow> unit core_act" where
  "process_vote L block =
    bindM (getM core_round) (\<lambda>r.
     if blk_round block \<noteq> r then retM ()
     else bindM (make_vote L block) (\<lambda>v. case v of
         None \<Rightarrow> retM ()
       | Some vote \<Rightarrow> thenM (handle_vote L vote)
           (broadcast L (VoteMsg vote) ''Failed to serialize vote'')))"

lemma process_block_split:
  "process_block L n b = bindM (process_pre L n b) (\<lambda>ok. if ok then process_vote L b else retM ())"
  unfolding process_block_def process_pre_def process_vote_def thenM_def
  by (rule ext) (auto simp: bindM_def retM_def split: prod.splits outcome.splits option.splits)

section \<open>Votes\<close>

text \<open>The vote \<open>v\<close> is for the block \<open>b\<close>, and the core in state \<open>s\<close> may cast it.\<close>

definition allowed_vote :: "hs_lib \<Rightarrow> Block \<Rightarrow> core \<Rightarrow> Vote \<Rightarrow> bool" where
  "allowed_vote L b s v \<longleftrightarrow> vote_hash v = Block_digest L b \<and> vote_round v = blk_round b \<and>
    safety_rule_2 b = Ok True \<and> last_voted_round s < blk_round b \<and> blk_round b = core_round s"

fun votes_in :: "core_out list \<Rightarrow> Vote list" where
  "votes_in [] = []"
| "votes_in (Broadcast _ (VoteMsg v) _ # es) = v # votes_in es"
| "votes_in (_ # es) = votes_in es"

lemma votes_in_append [simp]: "votes_in (xs @ ys) = votes_in xs @ votes_in ys"
  by (induction xs rule: votes_in.induct) auto

lemma votes_in_ballots: "ballots es = [] \<Longrightarrow> votes_in es = []"
  by (induction es rule: ballots.induct) auto

text \<open>What the first phase leaves alone.\<close>

definition vote_frame :: "core \<Rightarrow> core \<Rightarrow> bool" where
  "vote_frame s s' \<longleftrightarrow> core_round s' = core_round s \<and> core_name s' = core_name s \<and>
    last_voted_round s' = last_voted_round s \<and> (\<exists>new. out s' = out s @ new \<and> votes_in new = [])"

interpretation vf: state_preorder vote_frame
proof
  show "vote_frame s u" if "vote_frame s t" "vote_frame t u" for s t u
    using that unfolding vote_frame_def by auto
qed (simp add: vote_frame_def)

lemma vf_mod:
  "(\<And>s. core_round (f s) = core_round s) \<Longrightarrow> (\<And>s. core_name (f s) = core_name s) \<Longrightarrow>
    (\<And>s. last_voted_round (f s) = last_voted_round s) \<Longrightarrow> (\<And>s. out (f s) = out s) \<Longrightarrow>
    keeps vote_frame (modM f)"
  by (rule vf.keeps_mod) (simp add: vote_frame_def)

lemma emit_vf: "votes_in [e] = [] \<Longrightarrow> keeps vote_frame (emit e)"
  unfolding emit_def by (rule vf.keeps_mod) (simp add: vote_frame_def)

lemma votes_in_replies [simp]: "votes_in (map StoreReply rs) = []"
  by (induction rs) auto

lemma store_op_vf: "keeps vote_frame (store_op f)"
  unfolding store_op_def by (rule vf.keeps_mod) (simp add: vote_frame_def split_def Let_def)

lemma ro_vf: "keeps (\<lambda>s s'. s' = s) m \<Longrightarrow> keeps vote_frame m"
  by (simp add: keeps_def vf.R_refl)

lemmas vf_basics = emit_vf store_op_vf ro_vf [OF get_parent_block_ro] ro_vf [OF gather_ancestors_ro]
  ro_vf [OF core_leader_ro]

lemma blocks_vf: "keeps vote_frame (store_block L b)" "keeps vote_frame (remove_block L b)"
  "keeps vote_frame (get_ancestors L b)"
  unfolding store_block_def remove_block_def get_ancestors_def sync_get_parent_block_def
  by (intro vf.keeps_rules vf_basics; simp)+

lemma prune_loop_vf: "keeps vote_frame (prune_loop L n i b)"
  by (induction n arbitrary: i b)
    (auto simp: prune_loop.simps intro!: vf.keeps_rules vf_basics blocks_vf)

lemma commit_vf: "keeps vote_frame (commit L n b)"
proof -
  have "keeps vote_frame (modM (\<lambda>s. s\<lparr>last_committed_round := blk_round b\<rparr>))"
    by (rule vf_mod) simp_all
  then show ?thesis
    unfolding commit_def prune_def Let_def send_commit_def
    by (intro vf.keeps_rules vf_basics prune_loop_vf; simp)
qed

lemma process_pre_vf: "keeps vote_frame (process_pre L n b)"
  unfolding process_pre_def cleanup_proposer_def mempool_cleanup_def Let_def
  by (intro vf.keeps_rules vf_basics blocks_vf commit_vf; simp)

lemma handle_vote_votes: "handle_vote L v s = (r, s') \<Longrightarrow> \<exists>new. out s' = out s @ new \<and> votes_in new = []"
  using keepsD [OF handle_vote_nb] by (fastforce simp: no_ballot_def votes_in_ballots)

lemma process_vote_votes:
  assumes "process_vote L b s = (r, s')"
  shows "\<exists>new. out s' = out s @ new \<and> (\<forall>v \<in> set (votes_in new). allowed_vote L b s v)"
proof (cases "blk_round b = core_round s")
  case False
  then show ?thesis using assms by (auto simp: process_vote_def act_simps)
next
  case here: True
  obtain r1 s1 where mv: "make_vote L b s = (r1, s1)" by (cases "make_vote L b s")
  note c = make_vote_cases [OF mv]
  show ?thesis
  proof (cases "\<exists>v. r1 = Ok (Some v)")
    case False
    then have "s' = s1"
      using assms here mv
      by (cases r1) (auto simp: process_vote_def act_simps bindM_def retM_def split: option.splits)
    then show ?thesis using c by simp
  next
    case True
    then obtain v where v: "r1 = Ok (Some v)" by blast
    obtain r2 s2 where hv: "handle_vote L v s1 = (r2, s2)" by (cases "handle_vote L v s1")
    obtain n2 where n2: "out s2 = out s1 @ n2" "votes_in n2 = []"
      using handle_vote_votes [OF hv] by blast
    obtain r3 s3 where bc: "broadcast L (VoteMsg v) ''Failed to serialize vote'' s2 = (r3, s3)"
      by (cases "broadcast L (VoteMsg v) ''Failed to serialize vote'' s2")
    have "s' = s2 \<or> s' = s3"
      using assms here mv v hv bc
      by (cases r2) (auto simp: process_vote_def act_simps bindM_def thenM_def getM_def)
    then show ?thesis
      using c v n2 here broadcast_state [OF bc] by (auto simp: allowed_vote_def)
  qed
qed

lemma process_block_votes:
  assumes "process_block L n b s = (r, s')"
  shows "\<exists>new. out s' = out s @ new \<and> (\<forall>v \<in> set (votes_in new). allowed_vote L b s v)"
proof -
  obtain r1 s1 where pre: "process_pre L n b s = (r1, s1)" by (cases "process_pre L n b s")
  obtain n1 where f: "core_round s1 = core_round s" "last_voted_round s1 = last_voted_round s"
      "out s1 = out s @ n1" "votes_in n1 = []"
    using keepsD [OF process_pre_vf pre] by (auto simp: vote_frame_def)
  show ?thesis
  proof (cases "r1 = Ok True")
    case True
    then have "process_vote L b s1 = (r, s')"
      using assms pre unfolding process_block_split by (simp add: bindM_Ok)
    from process_vote_votes [OF this] obtain n2 where "out s' = out s1 @ n2"
        "\<forall>v \<in> set (votes_in n2). allowed_vote L b s v"
      using f by (auto simp: allowed_vote_def)
    then show ?thesis using f by (intro exI [of _ "n1 @ n2"]) simp
  next
    case False
    then have "s' = s1"
      using assms pre unfolding process_block_split
      by (cases r1) (auto simp: bindM_def retM_def)
    then show ?thesis using f by auto
  qed
qed

section \<open>The two-chain rule\<close>

lemma process_vote_nd: "keeps no_delivery (process_vote L b)"
  unfolding process_vote_def
  by (intro nd.keeps_rules make_vote_nd handle_vote_nd broadcast_nd)

text \<open>The last committed round stays, or moves up to \<open>r\<close>.\<close>

definition commits :: "Round \<Rightarrow> core \<Rightarrow> core \<Rightarrow> bool" where
  "commits r s s' \<longleftrightarrow> no_delivery s s' \<or>
    last_committed_round s < r \<and> last_committed_round s' \<in> {last_committed_round s, r}"

interpretation cm: state_preorder "commits r" for r
  by unfold_locales (auto simp: commits_def no_delivery_def)

lemma nd_commits: "keeps no_delivery m \<Longrightarrow> keeps (commits r) m"
  by (simp add: keeps_def commits_def)

lemma commit_commits: "keeps (commits (blk_round b)) (commit L n b)"
  unfolding keeps_def
proof
  fix s
  have "last_committed_round (snd (thenM (prune L n b) (forM xs send_commit)
      (s\<lparr>last_committed_round := blk_round b\<rparr>))) = blk_round b" for xs
  proof -
    have "keeps (\<lambda>s s'. last_committed_round s' = last_committed_round s)
        (thenM (prune L n b) (forM xs send_commit))"
    proof -
      have "keeps (\<lambda>s s'. last_committed_round s' = last_committed_round s) (prune L n b)"
        using prune_loop_nd [of L n 0 b] by (simp add: keeps_def no_delivery_def prune_def)
      then show ?thesis
        by (auto simp: keeps_def thenM_def bindM_def send_commits split: prod.splits outcome.splits)
          (metis snd_conv)+
    qed
    then show ?thesis by (simp add: keeps_def)
  qed
  then show "commits (blk_round b) s (snd (commit L n b s))"
    unfolding commit_unfold
    by (auto simp: commits_def no_delivery_def split: prod.splits outcome.splits)
qed

lemma process_rest_commits:
  "keeps (commits (blk_round b0)) (thenM (cleanup_proposer b0 b1 b)
    (thenM (whenM c (thenM (mempool_cleanup (blk_round b0)) (commit L n b0))) (process_vote L b)))"
  by (intro cm.keeps_rules commit_commits proposal_nd [THEN nd_commits] process_vote_nd [THEN nd_commits])

lemma process_rest_nd:
  "\<not> c \<Longrightarrow> keeps no_delivery (thenM (cleanup_proposer b0 b1 b) (thenM (whenM c m) (process_vote L b)))"
  by (simp add: whenM_def) (intro nd.keeps_rules proposal_nd process_vote_nd)

text \<open>
  A block is delivered or the last committed round moves only when the block's parent and grandparent
  in the store are in consecutive rounds, and then the grandparent is the block committed.
\<close>

lemma store_block_running:
  assumes "rocks_ok (rocks L)" "running (core_store s)" "store_block L b s = (r, s')"
  shows "running (core_store s')"
  using assms store_write_content(2) [OF assms(1,2)]
  by (cases "ser_block L b")
    (auto simp: store_block_def act_simps store_op_def liftO_def modM_def split_def Let_def)

lemma process_block_two_chain:
  assumes R: "rocks_ok (rocks L)" and run: "running (core_store s)"
    and p: "process_block L n b s = (r, s')"
  shows "no_delivery s s' \<or> (\<exists>s1 b0 b1. store_block L b s = (Ok (), s1) \<and>
    ancestry L (core_store s1) b [b1, b0] \<and> blk_round b0 + 1 = blk_round b1 \<and>
    last_committed_round s < blk_round b0 \<and> last_committed_round s' \<in> {last_committed_round s, blk_round b0})"
proof -
  define rest where "rest b0 b1 = thenM (cleanup_proposer b0 b1 b)
    (thenM (whenM (blk_round b0 + 1 = blk_round b1)
      (thenM (mempool_cleanup (blk_round b0)) (commit L n b0))) (process_vote L b))" for b0 b1
  have p': "thenM (store_block L b) (bindM (get_ancestors L b)
      (\<lambda>anc. case anc of None \<Rightarrow> retM () | Some (b0, b1) \<Rightarrow> rest b0 b1)) s = (r, s')"
    using p unfolding process_block_def rest_def process_vote_def .
  obtain r1 s1 where sb: "store_block L b s = (r1, s1)" by (cases "store_block L b s")
  obtain r2 s2 where ga: "get_ancestors L b s1 = (r2, s2)" by (cases "get_ancestors L b s1")
  have d: "no_delivery s s1" "no_delivery s s2"
    using keepsD [OF blocks_nd(1) sb] keepsD [OF blocks_nd(3) ga] nd.R_trans by blast+
  show ?thesis
  proof (cases "\<exists>b0 b1. r1 = Ok () \<and> r2 = Ok (Some (b0, b1))")
    case False
    then have "s' = s1 \<or> s' = s2"
      using p' sb ga by (cases r1; cases r2)
        (auto simp: thenM_def bindM_def retM_def split: option.splits)
    then show ?thesis using d by auto
  next
    case True
    then obtain b0 b1 where ok: "r1 = Ok ()" and b01: "r2 = Ok (Some (b0, b1))" by blast
    have rest: "rest b0 b1 s2 = (r, s')" using p' sb ga ok b01 by (simp add: thenM_Ok bindM_Ok)
    have anc: "ancestry L (core_store s1) b [b1, b0]"
      using get_ancestors_stored [OF R store_block_running [OF R run sb]] ga b01 by blast
    have com: "commits (blk_round b0) s2 s'"
      using keepsD [OF process_rest_commits rest [unfolded rest_def]] .
    have "blk_round b0 + 1 \<noteq> blk_round b1 \<Longrightarrow> no_delivery s2 s'"
      using keepsD [OF process_rest_nd rest [unfolded rest_def]] .
    then show ?thesis
      using com anc sb ok d(2) by (auto simp: commits_def no_delivery_def)
  qed
qed

section \<open>The round of the core\<close>

definition round_up :: "core \<Rightarrow> core \<Rightarrow> bool" where
  "round_up s s' \<longleftrightarrow> core_round s \<le> core_round s'"

interpretation ru: state_preorder round_up
  by unfold_locales (auto simp: round_up_def)

lemma word_succ_gt:
  assumes "(r::u64) \<noteq> - 1" shows "r < r + 1"
proof -
  have "unat r \<noteq> unat (- 1 :: u64)" using assms unfolding word_unat_eq_iff .
  moreover have "unat r < 2 ^ 64" using unsigned_less [of r, where ?'a = nat] by simp
  ultimately have "unat r + 1 < 2 ^ 64" by (simp add: unsigned_minus_1_eq_mask mask_eq_exp_minus_1)
  then have "unat (r + 1) = unat r + 1" by (subst unat_word_ariths) simp
  then show ?thesis by (simp add: word_less_nat_alt)
qed

lemma advance_round_run:
  "advance_round r s = (Ok (), if r < core_round s then s
    else s\<lparr>out := out s @ [TimerReset], core_round := r + 1,
      aggregator := agg_cleanup (r + 1) (aggregator s)\<rparr>)"
  by (simp add: advance_round_def emit_def act_simps thenM_def)

lemma process_tc_run:
  "\<exists>s1. process_tc tc s = (Ok (), s1) \<and>
    core_round s1 = (if tc_round tc < core_round s then core_round s else tc_round tc + 1)"
  by (simp add: process_tc_def thenM_Ok [OF advance_round_run] update_high_tc_def modM_def)

text \<open>Only the last round number makes the successor wrap.\<close>

lemma advance_round_up: "r \<noteq> - 1 \<Longrightarrow> keeps round_up (advance_round r)"
  unfolding keeps_def advance_round_def round_up_def emit_def
  using word_succ_gt [of r] by (auto simp: act_simps thenM_def)

lemma ru_mod: "(\<And>s. core_round (f s) = core_round s) \<Longrightarrow> keeps round_up (modM f)"
  by (rule ru.keeps_mod) (simp add: round_up_def)

lemma emit_ru: "keeps round_up (emit e)"
  unfolding emit_def by (rule ru_mod) simp

lemma store_op_ru: "keeps round_up (store_op f)"
  unfolding store_op_def by (rule ru_mod) (simp add: split_def Let_def)

lemma vf_ru: "keeps vote_frame m \<Longrightarrow> keeps round_up m"
  by (simp add: keeps_def vote_frame_def round_up_def)

lemma process_cert_ru: "qc_round qc \<noteq> - 1 \<Longrightarrow> keeps round_up (process_qc qc)"
  "tc_round tc \<noteq> - 1 \<Longrightarrow> keeps round_up (process_tc tc)"
  unfolding process_qc_def process_tc_def update_high_qc_def update_high_tc_def
  by (intro ru.keeps_rules advance_round_up ru_mod; simp)+

lemma misc_ru: "keeps round_up (generate_proposal tc)" "keeps round_up (mempool_verify L b)"
  "keeps round_up (increase_last_voted_round r)" "keeps round_up (core_leader r)"
  "keeps round_up (modM (\<lambda>s. s\<lparr>fast_commit_request := f s\<rparr>))" "keeps round_up (broadcast L m e)"
  unfolding generate_proposal_def mempool_verify_def increase_last_voted_round_def core_leader_def
    broadcast_def
  by (intro ru.keeps_rules emit_ru ru_mod; simp)+

lemma core_add_ru: "keeps round_up (core_add_vote L v)" "keeps round_up (core_add_timeout t)"
  by (simp_all add: keeps_def round_up_def core_add_vote_def core_add_timeout_def split_def Let_def)

lemma core_add_vote_round:
  assumes "core_add_vote L v s = (Ok (Some qc), s')" shows "qc_round qc = vote_round v"
proof -
  obtain m where "QCMaker_append v (agg_committee (aggregator s))
      (maker_at (aggregator s) (vote_round v) (Vote_digest L v)) = (Ok (Some qc), m)"
    using assms by (auto simp: core_add_vote_def add_vote_def Let_def split: prod.splits)
  from QCMaker_append_votes [OF this] show ?thesis by auto
qed

lemma core_add_timeout_round:
  assumes "core_add_timeout t s = (Ok (Some tc), s')" shows "tc_round tc = to_round t"
proof -
  obtain m where "TCMaker_append t (agg_committee (aggregator s))
      (tmaker_at (aggregator s) (to_round t)) = (Ok (Some tc), m)"
    using assms by (auto simp: core_add_timeout_def add_timeout_def Let_def split: prod.splits)
  from TCMaker_append_votes [OF this] show ?thesis by auto
qed

lemma handle_vote_ru:
  assumes "vote_round v \<noteq> - 1" shows "keeps round_up (handle_vote L v)"
  unfolding handle_vote_def
  by (rule ru.keeps_bind [OF ru.keeps_get], rule keeps_if [OF ru.keeps_ret],
      rule ru.keeps_bind [OF ru.keeps_get], rule ru.keeps_then [OF ru.keeps_lift],
      rule ru.keeps_bind_res [OF core_add_ru(1)])
    (intro keeps_option_res ru.keeps_rules process_cert_ru misc_ru emit_ru,
      use assms core_add_vote_round in auto)

lemma handle_timeout_ru:
  assumes "to_round t \<noteq> - 1" "qc_round (to_high_qc t) \<noteq> - 1" "tc_round (to_high_tc t) \<noteq> - 1"
  shows "keeps round_up (handle_timeout L t)"
  unfolding handle_timeout_def
  by (rule ru.keeps_bind [OF ru.keeps_get], rule keeps_if [OF ru.keeps_ret],
      rule ru.keeps_bind [OF ru.keeps_get], rule ru.keeps_then [OF ru.keeps_lift],
      rule ru.keeps_then [OF process_cert_ru(1)], simp add: assms,
      rule ru.keeps_then [OF process_cert_ru(2)], simp add: assms,
      rule ru.keeps_bind_res [OF core_add_ru(2)])
    (intro keeps_option_res ru.keeps_rules process_cert_ru misc_ru emit_ru,
      use assms core_add_timeout_round in auto)

lemma handle_tc_ru: "tc_round tc \<noteq> - 1 \<Longrightarrow> keeps round_up (handle_tc tc)"
  unfolding handle_tc_def by (intro ru.keeps_rules process_cert_ru misc_ru)

lemma make_vote_ru: "keeps round_up (make_vote L b)"
  unfolding make_vote_def by (intro ru.keeps_rules misc_ru)

lemma process_block_ru:
  assumes "blk_round b \<noteq> - 1" shows "keeps round_up (process_block L n b)"
proof -
  have vote: "keeps round_up (bindM (make_vote L b) (\<lambda>v. case v of None \<Rightarrow> retM ()
    | Some vote \<Rightarrow> thenM (handle_vote L vote) (broadcast L (VoteMsg vote) e)))" for e
    by (rule ru.keeps_bind_res [OF make_vote_ru])
      (intro keeps_option_res ru.keeps_rules handle_vote_ru misc_ru,
        use assms in \<open>auto dest!: make_vote_cases\<close>)
  show ?thesis
    unfolding process_block_split process_vote_def
    by (intro vote vf_ru [OF process_pre_vf] ru.keeps_rules)
qed

lemma handle_proposal_ru:
  assumes "blk_round b \<noteq> - 1" "qc_round (blk_qc b) \<noteq> - 1"
    "\<And>tc. blk_tc b = Some tc \<Longrightarrow> tc_round tc \<noteq> - 1"
  shows "keeps round_up (handle_proposal L n b)"
  unfolding handle_proposal_def
  by (intro ru.keeps_bind ru.keeps_then ru.keeps_lift ru.keeps_get keeps_if keeps_option_res
      ru.keeps_ret process_cert_ru misc_ru process_block_ru assms)

lemma local_timeout_ru:
  assumes "core_round s \<noteq> - 1" "qc_round (high_qc s) \<noteq> - 1" "tc_round (high_tc s) \<noteq> - 1"
  shows "round_up s (snd (local_timeout_round L s))"
proof (cases "Timeout_new L (core_secret s) (high_qc s) (high_tc s) (core_round s) (core_name s)")
  case (Ok t)
  have "keeps round_up (thenM (emit TimerReset) (thenM (broadcast L (TimeoutMsg t)
      ''Failed to serialize timeout message'') (handle_timeout L t)))"
    using assms Timeout_new_round [OF Ok]
    by (intro ru.keeps_rules emit_ru misc_ru handle_timeout_ru) simp_all
  then have "round_up (s\<lparr>last_voted_round := max (last_voted_round s) (core_round s)\<rparr>)
      (snd (local_timeout_round L s))"
    using Ok by (simp add: local_timeout_round_def increase_last_voted_round_def act_simps thenM_def
        keeps_def)
  then show ?thesis by (simp add: round_up_def)
qed (simp_all add: local_timeout_round_def increase_last_voted_round_def act_simps liftO_def
    thenM_def round_up_def)

fun event_rounds :: "core_event \<Rightarrow> Round list" where
  "event_rounds (Message (Propose b)) = blk_round b # qc_round (blk_qc b) #
    (case blk_tc b of None \<Rightarrow> [] | Some tc \<Rightarrow> [tc_round tc])"
| "event_rounds (Message (VoteMsg v)) = [vote_round v]"
| "event_rounds (Message (TimeoutMsg t)) =
    [to_round t, qc_round (to_high_qc t), tc_round (to_high_tc t)]"
| "event_rounds (Message (TCMsg tc)) = [tc_round tc]"
| "event_rounds (Message (SyncRequest _ _)) = []"
| "event_rounds (Loopback b) = [blk_round b]"
| "event_rounds TimerFired = []"

lemma core_step_round_up:
  assumes ev: "- 1 \<notin> set (event_rounds e)"
    and st: "core_round s \<noteq> - 1" "qc_round (high_qc s) \<noteq> - 1" "tc_round (high_tc s) \<noteq> - 1"
  shows "core_round s \<le> core_round (snd (core_step L n e s))"
proof -
  have "round_up s (snd (core_step L n e s))"
  proof (cases e)
    case (Message m)
    have "keeps round_up (core_step L n e)"
    proof (cases m)
      case (Propose b)
      then show ?thesis using ev Message by (auto intro!: handle_proposal_ru)
    qed (use ev Message in \<open>auto simp: ru.keeps_lift intro!: handle_vote_ru handle_timeout_ru handle_tc_ru\<close>)
    then show ?thesis by (simp add: keeps_def)
  next
    case (Loopback b)
    then show ?thesis using ev process_block_ru [of b L n] by (simp add: keeps_def)
  next
    case TimerFired
    then show ?thesis using local_timeout_ru [OF st] by simp
  qed
  then show ?thesis by (simp add: round_up_def)
qed

end
