(* ===== verification/Samples.thy ===== *)
theory Samples
  imports CoreVotes
begin

text \<open>
  Concrete instances for the witnesses of the consensus properties: a committee of four, a stand-in
  for each third-party library, and short chains of blocks.  The stand-in hash drops the author from
  a block's preimage, so that the round and the payload tell the blocks apart; the stand-in signature
  scheme refuses to parse one byte string and accepts exactly the all-zero signatures.
\<close>

definition key :: "byte \<Rightarrow> PublicKey" where
  "key i = [i]"

definition addr :: "u16 \<Rightarrow> SocketAddr" where
  "addr p = SocketAddr (V4 127 0 0 1) p"

definition com4 :: Committee where
  "com4 = \<lparr>authorities = [
      ([3], \<lparr>auth_stake = 1, auth_address = addr 3\<rparr>), ([1], \<lparr>auth_stake = 1, auth_address = addr 1\<rparr>),
      ([2], \<lparr>auth_stake = 1, auth_address = addr 2\<rparr>), ([4], \<lparr>auth_stake = 1, auth_address = addr 4\<rparr>)],
    epoch = 1\<rparr>"

definition zsig :: Signature where
  "zsig = \<lparr>part1 = [], part2 = []\<rparr>"

definition badsig :: Signature where
  "badsig = \<lparr>part1 = [255], part2 = []\<rparr>"

definition toy_rocks :: rocks_lib where
  "toy_rocks = \<lparr>rocks_put = (\<lambda>m k v. m(k \<mapsto> v)), rocks_get = (\<lambda>m k. Inr (m k)),
    rocks_delete = (\<lambda>m k. m(k := None)), rocks_destroy = (\<lambda>m. Inr ())\<rparr>"

definition mkblock :: "Round \<Rightarrow> QC \<Rightarrow> TC option \<Rightarrow> Digest list \<Rightarrow> Block" where
  "mkblock r qc tc pl = \<lparr>blk_qc = qc, blk_tc = tc, blk_author = key (1 + ucast (r mod 4)), blk_round = r,
    blk_payload = pl, blk_signature = zsig\<rparr>"

definition qc_at :: "Round \<Rightarrow> QC" where
  "qc_at r = \<lparr>qc_hash = [ucast r], qc_round = r, qc_payload_size = 0,
    qc_votes = [([1], zsig), ([2], zsig), ([3], zsig)]\<rparr>"

definition tc_at :: "Round \<Rightarrow> Round \<Rightarrow> TC" where
  "tc_at r q = \<lparr>tc_round = r, tc_votes = [([1], zsig, q, 0), ([2], zsig, q, 0), ([3], zsig, q, 0)]\<rparr>"

text \<open>A chain in rounds 1, 2, 3, and a branch from its first block in rounds 4, 5, 6.\<close>

definition chain1 :: "Block list" where
  "chain1 = [mkblock 1 QC_genesis None [[1]], mkblock 2 (qc_at 1) None [], mkblock 3 (qc_at 2) None [],
    mkblock 4 (qc_at 1) (Some (tc_at 3 1)) [[4]], mkblock 5 (qc_at 4) None [], mkblock 6 (qc_at 5) None []]"

text \<open>A chain with view changes, in rounds 1, 3, 5, 7, 8, 9.\<close>

definition chain2 :: "Block list" where
  "chain2 = [mkblock 1 QC_genesis None [[1]], mkblock 3 (qc_at 1) (Some (tc_at 2 1)) [[3]],
    mkblock 5 (qc_at 3) (Some (tc_at 4 3)) [[5]], mkblock 7 (qc_at 5) (Some (tc_at 6 5)) [[7]],
    mkblock 8 (qc_at 7) None [], mkblock 9 (qc_at 8) None []]"

text \<open>A block on the genesis certificate after a timeout, and one with a forged empty certificate.\<close>

definition empty_tc :: TC where "empty_tc = \<lparr>tc_round = 4, tc_votes = []\<rparr>"

definition chain3 :: "Block list" where
  "chain3 = [mkblock 2 QC_genesis (Some (tc_at 1 0)) [], mkblock 5 QC_genesis (Some empty_tc) []]"

text \<open>The libraries; the block codec knows the blocks of one chain.\<close>

definition toy :: "Block list \<Rightarrow> hs_lib" where
  "toy chain = \<lparr>
    from_compact = (\<lambda>b. if b = [255] then Inl 1 else Inr b),
    msg_from_slice = Inr, pk_from_slice = Inr, sk_from_slice = Inr,
    verify_ecdsa = (\<lambda>m s k. if list_all (\<lambda>x. x = 0) s then Inr () else Inl 2),
    sign_compact = (\<lambda>k m. replicate 64 0), sha512 = (\<lambda>b. take 1 (drop 1 b)),
    base64_encode = (\<lambda>b. []), base64_decode = (\<lambda>s. Inr []),
    rocks = toy_rocks,
    ser_block = (\<lambda>b. case find (\<lambda>x. blk_round x = blk_round b) chain of
        None \<Rightarrow> Inl 3 | Some x \<Rightarrow> if x = b then Inr (le_bytes64 (blk_round b)) else Inl 3),
    de_block = (\<lambda>v. case find (\<lambda>x. le_bytes64 (blk_round x) = v) chain of
        None \<Rightarrow> Inl 4 | Some x \<Rightarrow> Inr x),
    ser_msg = (\<lambda>m. Inr []), de_msg = (\<lambda>b. Inl 5), ser_dvf = (\<lambda>m. Inr []), de_dvf = (\<lambda>b. Inl 6)\<rparr>"

definition node :: "byte \<Rightarrow> core" where
  "node i = Core_new (key i) com4 [] Store_new 7"

section \<open>Evaluation\<close>

lemma toy_rocks_ok [simp]: "rocks_ok toy_rocks"
  by (simp add: rocks_ok_def toy_rocks_def)

lemma com4_valid [simp]: "committee_valid com4"
  by (simp add: committee_valid_def com4_def)

lemma com4_facts [simp]:
  "nstake com4 [1] = 1" "nstake com4 [2] = 1" "nstake com4 [3] = 1" "nstake com4 [4] = 1"
  "names com4 = {[1], [2], [3], [4]}" "quorum_threshold com4 = 3"
  by (auto simp: nstake_def stake_def names_def com4_def quorum_threshold_def total_votes_def)

text \<open>Three runs of the core.\<close>

lemma run_timeout_then_vote:
  "ballots (out (snd (core_run (toy chain3) 20
      [TimerFired, Message (TCMsg (tc_at 1 0)), Loopback (chain3 ! 0)] (node 1)))) = [(False, 1), (True, 2)]"
  by code_simp

lemma run_chain1:
  "delivered (out (snd (core_run (toy chain1) 20 (map Loopback chain1) (node 1)))) =
    [chain1 ! 0, chain1 ! 0, chain1 ! 3]"
  by code_simp

lemma run_chain2:
  "delivered (out (snd (core_run (toy chain2) 20 (map Loopback chain2) (node 1)))) =
    [chain2 ! 2, chain2 ! 1, chain2 ! 0, chain2 ! 3]"
  by code_simp

end
