(* ===== verification/ConsensusProps.thy ===== *)
theory ConsensusProps
  imports Samples
begin

text \<open>
  The properties of the consensus crate: certificates, voting, committing, rounds, leaders, and the
  behaviours of the handlers on hostile input.
\<close>

section \<open>Certificates\<close>

text \<open>C3: Quorum certificates that verify share an authority outside any set of authorities that holds
  less than a third of the stake: two conflicting certificates need an honest authority to sign both.\<close>

theorem verified_QCs_share_honest_voter:
  assumes "committee_valid c"
    and "QC_verify L c q1 = Ok ()" "QC_verify L c q2 = Ok ()"
    and "F \<subseteq> names c" "3 * sum (nstake c) F < sum (nstake c) (names c)"
  shows "\<exists>k. k \<notin> F \<and> k \<in> fst ` set (qc_votes q1) \<and> k \<in> fst ` set (qc_votes q2)"
proof -
  have q: "quorum_of c (map fst (qc_votes q1))" "quorum_of c (map fst (qc_votes q2))"
    using assms(2,3) by (simp_all add: QC_verify_Ok_iff [OF assms(1)])
  then have sub: "fst ` set (qc_votes q1) \<subseteq> names c" "fst ` set (qc_votes q2) \<subseteq> names c"
    by (auto simp: quorum_of_def intro: stake_pos_member)
  show ?thesis
    using cq.quorums_share_correct [OF assms(1) sub _ _ assms(4,5)] q by (auto simp: quorum_of_def)
qed

theorem verified_QCs_share_honest_voter_witness:
  "\<exists>k. k \<notin> {key 1} \<and> k \<in> fst ` set (qc_votes (qc_at 1)) \<and> k \<in> fst ` set (qc_votes (qc_at 2))"
proof -
  have v: "QC_verify (toy []) com4 (qc_at 1) = Ok ()" "QC_verify (toy []) com4 (qc_at 2) = Ok ()"
    by code_simp+
  have F: "{key 1} \<subseteq> names com4" by (simp add: key_def)
  have "3 * sum (nstake com4) {key 1} < sum (nstake com4) (names com4)" by (simp add: key_def)
  from verified_QCs_share_honest_voter [OF com4_valid v F this] show ?thesis .
qed

text \<open>C13: \<open>QC::verify\<close> accepts a certificate exactly when its voters are distinct authorities with
  stake, their stake reaches the quorum threshold (with no overflow of the \<open>u32\<close> sum), and each
  signature is valid for the certificate's digest.\<close>

theorem QC_verify_correct:
  assumes "committee_valid c"
  shows "QC_verify L c qc = Ok () \<longleftrightarrow>
    distinct (map fst (qc_votes qc)) \<and> (\<forall>(k, sig) \<in> set (qc_votes qc). 0 < stake c k) \<and>
    2 * sum (nstake c) (names c) < 3 * (\<Sum>k \<in> fst ` set (qc_votes qc). nstake c k) \<and>
    (\<forall>(k, sig) \<in> set (qc_votes qc). sig_ok L (QC_digest L qc) k sig)"
  unfolding QC_verify_Ok_iff [OF assms] quorum_of_def unat_quorum_threshold [OF assms]
  by (auto simp: div_less_iff_less_mult less_Suc_eq_le [symmetric] mult.commute)

theorem QC_verify_correct_witness:
  "distinct (map fst (qc_votes (qc_at 1))) \<and>
    2 * sum (nstake com4) (names com4) < 3 * (\<Sum>k \<in> fst ` set (qc_votes (qc_at 1)). nstake com4 k)"
proof -
  have "QC_verify (toy []) com4 (qc_at 1) = Ok ()" by code_simp
  with QC_verify_correct [OF com4_valid, of "toy []" "qc_at 1"] show ?thesis by blast
qed

text \<open>C14: \<open>TC::verify\<close> accepts exactly the certificates of a quorum of distinct authorities whose
  signatures are valid for the certificate's round and the certificate rounds they report; such a
  certificate reports at least one round, so taking the maximum of the rounds cannot fail.\<close>

theorem TC_verify_correct:
  assumes "committee_valid c"
  shows "(TC_verify L c tc = Ok () \<longleftrightarrow>
    distinct (map fst (tc_votes tc)) \<and> (\<forall>(k, r) \<in> set (tc_votes tc). 0 < stake c k) \<and>
    2 * sum (nstake c) (names c) < 3 * (\<Sum>k \<in> fst ` set (tc_votes tc). nstake c k) \<and>
    (\<forall>(k, sig, hq, ht) \<in> set (tc_votes tc). sig_ok L (timeout_digest L (tc_round tc) hq ht) k sig)) \<and>
    (TC_verify L c tc = Ok () \<longrightarrow> (\<exists>m. max_round (high_qc_rounds tc) = Ok m))"
proof -
  have "TC_verify L c tc = Ok () \<Longrightarrow> \<exists>m. max_round (high_qc_rounds tc) = Ok m"
    using TC_verify_nonempty [OF assms, of L tc] by (cases "high_qc_rounds tc") auto
  then show ?thesis
    unfolding TC_verify_Ok_iff [OF assms] quorum_of_def unat_quorum_threshold [OF assms]
    by (auto simp: div_less_iff_less_mult less_Suc_eq_le [symmetric] mult.commute)
qed

theorem TC_verify_correct_witness: "\<exists>m. max_round (high_qc_rounds (tc_at 1 0)) = Ok m"
proof -
  have "TC_verify (toy []) com4 (tc_at 1 0) = Ok ()" by code_simp
  with TC_verify_correct [OF com4_valid, of "toy []" "tc_at 1 0"] show ?thesis by blast
qed

text \<open>C15: A vote maker fed with votes of committee members returns exactly one certificate when the
  authors' stake reaches the quorum and none otherwise, whatever the order, the repetitions and the
  votes that follow the certificate.\<close>

theorem QCMaker_once:
  assumes "committee_valid c" "vote_author ` set vs \<subseteq> names c"
  shows "length (certs (fst (collect (\<lambda>v. QCMaker_append v c) vs QCMaker_new))) =
    (if unat (quorum_threshold c) \<le> sum (nstake c) (vote_author ` set vs) then 1 else 0)"
  by (rule qcm.collect_empty_once [OF assms])

definition vote_by :: "byte \<Rightarrow> Vote" where
  "vote_by i = \<lparr>vote_hash = [1], vote_round = 1, vote_payload_size = 0, vote_author = key i,
    vote_signature = zsig\<rparr>"

theorem QCMaker_once_witness:
  "length (certs (fst (collect (\<lambda>v. QCMaker_append v com4)
    [vote_by 1, vote_by 2, vote_by 1, vote_by 4, vote_by 3] QCMaker_new))) = 1"
proof -
  let ?vs = "[vote_by 1, vote_by 2, vote_by 1, vote_by 4, vote_by 3]"
  have vs: "vote_author ` set ?vs = {[1], [2], [3], [4]}"
    by (auto simp: vote_by_def key_def)
  have "vote_author ` set ?vs \<subseteq> names com4" unfolding vs by simp
  moreover have "unat (quorum_threshold com4) \<le> sum (nstake com4) (vote_author ` set ?vs)"
    unfolding vs by simp
  ultimately show ?thesis using QCMaker_once [OF com4_valid, of ?vs] by (simp only: if_True)
qed

text \<open>A timeout maker returns a certificate exactly once, when the authors' stake reaches the
  quorum, and its voters are then distinct and hold a quorum.\<close>

theorem TCMaker_once:
  assumes "committee_valid c" "to_author ` set ts \<subseteq> names c"
  shows "length (certs (fst (collect (\<lambda>t. TCMaker_append t c) ts TCMaker_new))) =
      (if unat (quorum_threshold c) \<le> sum (nstake c) (to_author ` set ts) then 1 else 0) \<and>
    (\<forall>tc \<in> set (certs (fst (collect (\<lambda>t. TCMaker_append t c) ts TCMaker_new))).
      distinct (map fst (tc_votes tc)) \<and>
      unat (quorum_threshold c) \<le> sum (nstake c) (set (map fst (tc_votes tc))))"
  using tcm.collect_empty_once [OF assms] tcm.collect_empty_quorum [OF assms] by blast

definition timeout_by :: "byte \<Rightarrow> Timeout" where
  "timeout_by i = \<lparr>to_high_qc = QC_genesis, to_high_tc = TC_default, to_round = 1, to_author = key i,
    to_signature = zsig\<rparr>"

theorem TCMaker_once_witness:
  "length (certs (fst (collect (\<lambda>t. TCMaker_append t com4)
    [timeout_by 1, timeout_by 2, timeout_by 2] TCMaker_new))) = 0"
proof -
  let ?ts = "[timeout_by 1, timeout_by 2, timeout_by 2]"
  have "to_author ` set ?ts \<subseteq> names com4"
    by (simp add: timeout_by_def key_def)
  moreover have "\<not> unat (quorum_threshold com4) \<le> sum (nstake com4) (to_author ` set ?ts)"
    by (simp add: timeout_by_def key_def)
  ultimately show ?thesis using TCMaker_once [OF com4_valid, of ?ts] by (simp only: if_False)
qed

text \<open>C16: The aggregator keeps its invariant when it is given a verified vote, and a certificate it
  returns is for the vote's block and round and passes \<open>QC::verify\<close>.\<close>

theorem add_vote_certificate_verifies:
  assumes "agg_inv L a" "Vote_verify L (agg_committee a) v = Ok ()" "add_vote L v a = (r, a')"
  shows "agg_inv L a' \<and> (\<forall>qc. r = Ok (Some qc) \<longrightarrow> qc_hash qc = vote_hash v \<and>
    qc_round qc = vote_round v \<and> QC_verify L (agg_committee a) qc = Ok ())"
proof -
  obtain m where "QCMaker_append v (agg_committee a)
      (maker_at a (vote_round v) (Vote_digest L v)) = (r, m)"
    using assms(3) by (auto simp: add_vote_def Let_def split: prod.splits)
  from QCMaker_append_votes [OF this] have
    "\<forall>qc. r = Ok (Some qc) \<longrightarrow> qc_hash qc = vote_hash v \<and> qc_round qc = vote_round v"
    by auto
  with add_vote_inv [OF assms] show ?thesis by blast
qed

theorem add_vote_certificate_verifies_witness:
  "agg_inv (toy []) (snd (add_vote (toy []) (vote_by 1) (Aggregator_new com4)))"
proof -
  have v: "Vote_verify (toy []) (agg_committee (Aggregator_new com4)) (vote_by 1) = Ok ()"
    by code_simp
  from add_vote_certificate_verifies [OF agg_inv_new [OF com4_valid] v surjective_pairing]
  show ?thesis by blast
qed

section \<open>Voting\<close>

text \<open>C1: In every run of the core from its initial state, whatever messages, loopback blocks and timer
  events arrive, a vote it broadcasts is for a higher round than every vote and every timeout it has
  broadcast before: it never votes twice in a round and never votes in a round it has timed out of.\<close>

theorem votes_strictly_increase:
  assumes "core_run L n es (Core_new name c secret st vid) = (r, s)"
    and "j < length (ballots (out s))" "ballots (out s) ! j = (True, rnd)" "i < j"
  shows "snd (ballots (out s) ! i) < rnd"
proof -
  obtain new where "out s = [] @ new" "lawful 0 (ballots new)"
    using keepsD [OF core_run_voting assms(1)] by (auto simp: voting_def Core_new_def)
  then show ?thesis using lawful_vote_above [of 0 "ballots (out s)" j rnd] assms by simp
qed

theorem votes_strictly_increase_witness:
  "snd (ballots (out (snd (core_run (toy chain3) 20
      [TimerFired, Message (TCMsg (tc_at 1 0)), Loopback (chain3 ! 0)] (node 1)))) ! 0) < 2"
proof -
  let ?run = "core_run (toy chain3) 20 [TimerFired, Message (TCMsg (tc_at 1 0)), Loopback (chain3 ! 0)]"
  have run: "?run (Core_new (key 1) com4 [] Store_new 7) = (fst (?run (node 1)), snd (?run (node 1)))"
    by (simp add: node_def)
  show ?thesis
    using votes_strictly_increase [OF run, of 1 2 0] run_timeout_then_vote by simp
qed

text \<open>C2: Processing a block broadcasts votes for that block only, and only if the block is in the
  core's current round, above the last round voted in, and either extends the certificate of the
  round before or carries a timeout certificate for the round before whose reported certificate
  rounds the block's own certificate reaches.\<close>

theorem votes_follow_safety_rules:
  assumes "process_block L n b s = (r, s')"
  shows "\<exists>new. out s' = out s @ new \<and> (\<forall>v \<in> set (votes_in new).
    vote_hash v = Block_digest L b \<and> vote_round v = blk_round b \<and>
    blk_round b = core_round s \<and> last_voted_round s < blk_round b \<and>
    (qc_round (blk_qc b) + 1 = blk_round b \<or>
     (\<exists>tc. blk_tc b = Some tc \<and> tc_round tc + 1 = blk_round b \<and>
       (\<forall>q \<in> set (high_qc_rounds tc). q \<le> qc_round (blk_qc b)))))"
proof -
  have mx: "max_round rs = Ok m \<Longrightarrow> q \<in> set rs \<Longrightarrow> q \<le> m" for rs m q
  proof (cases rs)
    case (Cons x xs)
    assume "max_round rs = Ok m" "q \<in> set rs"
    moreover have "Max (set (x # xs)) = fold max xs x" by (rule Max.set_eq_fold)
    moreover have "q \<in> set (x # xs) \<Longrightarrow> q \<le> Max (set (x # xs))" by (rule Max_ge) auto
    ultimately show "q \<le> m" using Cons by simp
  qed simp
  obtain new where new: "out s' = out s @ new" "\<forall>v \<in> set (votes_in new). allowed_vote L b s v"
    using process_block_votes [OF assms] by blast
  have "safety_rule_2 b = Ok True \<Longrightarrow> qc_round (blk_qc b) + 1 = blk_round b \<or>
     (\<exists>tc. blk_tc b = Some tc \<and> tc_round tc + 1 = blk_round b \<and>
       (\<forall>q \<in> set (high_qc_rounds tc). q \<le> qc_round (blk_qc b)))"
    by (auto simp: safety_rule_2_def Let_def bindO_Ok_iff split: option.splits
        intro: order_trans [OF mx])
  with new show ?thesis unfolding allowed_vote_def by blast
qed

theorem votes_follow_safety_rules_witness:
  "\<exists>new. out (snd (process_block (toy chain1) 20 (chain1 ! 0) (node 1))) = out (node 1) @ new \<and>
    (\<forall>v \<in> set (votes_in new). vote_round v = 1)"
proof -
  have "blk_round (chain1 ! 0) = 1" by (simp add: chain1_def mkblock_def)
  with votes_follow_safety_rules [OF surjective_pairing, of "toy chain1" 20 "chain1 ! 0" "node 1"]
  show ?thesis by metis
qed

text \<open>C7: In every run of the core, on any input, the highest quorum certificate it holds, which its
  proposals and timeouts carry, is the genesis certificate or passes verification against its
  committee; a certificate it assembled itself never fails verification elsewhere.\<close>

theorem high_qc_always_certified:
  assumes "committee_valid c"
    and "core_run L n es (Core_new name c secret st vid) = (r, s)"
  shows "QC_eq (high_qc s) QC_genesis \<or> QC_verify L c (high_qc s) = Ok ()"
  using keepsD [OF core_run_cert assms(2), of c] cert_inv_new [OF assms(1), of L name secret st vid]
  by (simp add: inv_rel_def cert_inv_def certified_def)

theorem high_qc_always_certified_witness:
  "\<exists>s. snd (core_run (toy chain1) 20 [Message (Propose (chain1 ! 1))] (node 1)) = s \<and>
    QC_verify (toy chain1) com4 (high_qc s) = Ok ()"
proof -
  let ?run = "core_run (toy chain1) 20 [Message (Propose (chain1 ! 1))]"
  have run: "?run (Core_new (key 1) com4 [] Store_new 7) = (fst (?run (node 1)), snd (?run (node 1)))"
    by (simp add: node_def)
  have "\<not> QC_eq (high_qc (snd (?run (node 1)))) QC_genesis" by code_simp
  then show ?thesis using high_qc_always_certified [OF com4_valid run] by blast
qed

section \<open>Committing\<close>

text \<open>C5: The two-chain rule: processing a block delivers blocks to the application or moves the last
  committed round only if the block's parent and grandparent, as stored, are in consecutive rounds;
  the last committed round then becomes the grandparent's round, which is above the old one.\<close>

theorem commit_needs_two_chain:
  assumes "rocks_ok (rocks L)" "running (core_store s)" "process_block L n b s = (r, s')"
  shows "(delivered (out s') = delivered (out s) \<and> last_committed_round s' = last_committed_round s) \<or>
    (\<exists>s1 p g. store_block L b s = (Ok (), s1) \<and> stored_parent L (core_store s1) b = Some p \<and>
      stored_parent L (core_store s1) p = Some g \<and> blk_round g + 1 = blk_round p \<and>
      last_committed_round s < blk_round g \<and>
      last_committed_round s' \<in> {last_committed_round s, blk_round g})"
  using process_block_two_chain [OF assms] by (auto simp: no_delivery_def)

theorem commit_needs_two_chain_witness:
  "\<exists>p g. \<exists>s1 :: core. stored_parent (toy chain1) (core_store s1) (chain1 ! 2) = Some p \<and>
    stored_parent (toy chain1) (core_store s1) p = Some g \<and> blk_round g + 1 = blk_round p"
proof -
  define s where "s = snd (core_run (toy chain1) 20 (map Loopback (take 2 chain1)) (node 1))"
  have run: "running (core_store s)" unfolding s_def by code_simp
  have "last_committed_round (snd (process_block (toy chain1) 20 (chain1 ! 2) s)) \<noteq> last_committed_round s"
    unfolding s_def by code_simp
  moreover have "rocks_ok (rocks (toy chain1))" by (simp add: toy_def)
  ultimately show ?thesis
    using commit_needs_two_chain [OF _ run surjective_pairing, of "toy chain1" 20 "chain1 ! 2"] by blast
qed

text \<open>C11: What a commit delivers, and in which order: nothing when the block is not above the last
  committed round; otherwise a run of at most 13 ancestors, each the stored parent of the one before,
  from the block's parent (the newest) back to the oldest, and then the block itself, leaving out the
  blocks with no payload.  The walk goes on from a block exactly while that block is more than one
  round above the last committed round and its parent is stored.\<close>

theorem commit_delivery:
  assumes "rocks_ok (rocks L)" "running (core_store s)" "commit L n b s = (Ok (), s')"
  shows "if blk_round b \<le> last_committed_round s then s' = s
    else last_committed_round s' = blk_round b \<and>
      (\<exists>xs. ancestry L (core_store s) b xs \<and> length xs \<le> 13 \<and>
        delivered (out s') = delivered (out s) @ filter (\<lambda>x. blk_payload x \<noteq> []) (xs @ [b]) \<and>
        (\<forall>i < length xs. last_committed_round s + 1 < blk_round ((b # xs) ! i)) \<and>
        (length xs < 13 \<longrightarrow> stored_parent L (core_store s) (last (b # xs)) = None \<or>
          \<not> last_committed_round s + 1 < blk_round (last (b # xs))))"
proof (cases "blk_round b \<le> last_committed_round s")
  case True
  then show ?thesis using commit_delivers [OF assms(3)] by simp
next
  case False
  then obtain anc where g: "gather_ancestors L heuristic_history_rounds b [] s = (Ok anc, s)"
      and d: "last_committed_round s' = blk_round b"
        "delivered (out s') = delivered (out s) @ filter (\<lambda>x. blk_payload x \<noteq> []) (rev anc @ [b])"
    using commit_delivers [OF assms(3)] by auto
  from gather_ancestors_path [OF assms(1,2) g] obtain xs where xs:
    "anc = rev xs" "ancestry L (core_store s) b xs" "length xs \<le> 13"
    "\<forall>i < length xs. last_committed_round s + 1 < blk_round ((b # xs) ! i)"
    "length xs < 13 \<longrightarrow> stored_parent L (core_store s) (last (b # xs)) = None \<or>
      \<not> last_committed_round s + 1 < blk_round (last (b # xs))"
    by (auto simp: heuristic_history_rounds_def)
  show ?thesis
    unfolding if_not_P [OF False]
    using d(1) xs(2-5) d(2) [unfolded xs(1) rev_rev_ident] by blast
qed

theorem commit_delivery_witness:
  "last_committed_round (snd (commit (toy chain2) 20 (chain2 ! 3)
    (snd (core_run (toy chain2) 20 (map Loopback (take 4 chain2)) (node 1))))) = 7"
proof -
  define s where "s = snd (core_run (toy chain2) 20 (map Loopback (take 4 chain2)) (node 1))"
  have run: "running (core_store s)" unfolding s_def by code_simp
  have "fst (commit (toy chain2) 20 (chain2 ! 3) s) = Ok ()" unfolding s_def by code_simp
  then have c: "commit (toy chain2) 20 (chain2 ! 3) s = (Ok (), snd (commit (toy chain2) 20 (chain2 ! 3) s))"
    by (simp add: prod_eq_iff)
  have "rocks_ok (rocks (toy chain2))" by (simp add: toy_def)
  note t = commit_delivery [OF this run c]
  have "\<not> blk_round (chain2 ! 3) \<le> last_committed_round s" unfolding s_def by code_simp
  moreover have "blk_round (chain2 ! 3) = 7" by (simp add: chain2_def mkblock_def)
  ultimately show ?thesis using t by (simp add: s_def)
qed

text \<open>A commit after a view change can deliver a block a second time: with the chain in rounds 1,
  2, 3 and a branch from its first block in rounds 4, 5, 6, the block of round 1, committed by the
  block of round 3, is delivered again when the block of round 4 is committed.\<close>

theorem commit_delivers_twice:
  "delivered (out (snd (core_run (toy chain1) 20 (map Loopback chain1) (node 1)))) =
    [chain1 ! 0, chain1 ! 0, chain1 ! 3]"
  by (rule run_chain1)

text \<open>Several uncommitted ancestors are delivered out of chain order: with blocks in rounds 1, 3,
  5, 7, 8, 9 the commit of the block of round 7 delivers rounds 5, 3, 1 and then 7.\<close>

theorem commit_delivers_out_of_order:
  "map blk_round (delivered (out (snd (core_run (toy chain2) 20 (map Loopback chain2) (node 1))))) =
    [5, 3, 1, 7]"
  by (simp add: run_chain2) (simp add: chain2_def mkblock_def)

text \<open>C12: Every event handler of the core ends: with fuel for the pruning loop of one more than the
  pruning depth, the number of stored keys and three, no handler runs out of it, for any chain of
  blocks in the store, cyclic ones included.  The hypotheses are that the store holds a block only
  under its digest and that decoding undoes encoding.\<close>

theorem core_step_terminates:
  assumes "\<forall>b v. ser_block L b = Inr v \<longrightarrow> de_block L v = Inr b"
    and "rocks_ok (rocks L)" "content_addressed L (core_store s)"
    and "finite (dom (content (core_store s)))"
    and "unat (prune_depth s) + card (dom (content (core_store s))) + 3 \<le> n" "n + 1 < 2 ^ 64"
  shows "fst (core_step L (n + 1) e s) \<noteq> Diverge"
  using core_step_ends [of L n s e] assms by (simp add: codec_ok_def fuel_ok_def)

theorem core_step_terminates_witness:
  "fst (core_step (toy chain1) (18 + 1) (Loopback (chain1 ! 0)) (node 1)) \<noteq> Diverge"
proof (rule core_step_terminates)
  show "\<forall>b v. ser_block (toy chain1) b = Inr v \<longrightarrow> de_block (toy chain1) v = Inr b"
    by (auto simp: toy_def chain1_def mkblock_def le_bytes64_def upt_rec split: if_splits)
qed (simp_all add: toy_def node_def Core_new_def Store_new_def content_addressed_def)

section \<open>Monotone state and rounds\<close>

text \<open>Over any sequence of events, on every branch (errors and panics included), the last voted
  round, the last committed round, the round of the highest quorum certificate and that of the highest
  timeout certificate never decrease, the identity and the committee never change, and effects are
  only appended.\<close>

theorem core_run_monotone:
  assumes "core_run L n es s = (r, s')"
  shows "last_voted_round s \<le> last_voted_round s' \<and> last_committed_round s \<le> last_committed_round s' \<and>
    qc_round (high_qc s) \<le> qc_round (high_qc s') \<and> tc_round (high_tc s) \<le> tc_round (high_tc s') \<and>
    core_name s' = core_name s \<and> core_committee s' = core_committee s \<and> (\<exists>new. out s' = out s @ new)"
  using keepsD [OF core_run_mono assms] by (simp add: core_mono_def)

theorem core_run_monotone_witness:
  "last_committed_round (node 1) \<le>
    last_committed_round (snd (core_run (toy chain1) 20 (map Loopback chain1) (node 1)))"
  using core_run_monotone [OF surjective_pairing,
    where L = "toy chain1" and n = 20 and es = "map Loopback chain1" and s = "node 1"]
  by blast

text \<open>C17: The core's round never decreases in a step, unless the event or the state carries the last
  round number \<open>u64::MAX\<close>, whose successor wraps to zero.\<close>

theorem core_round_never_decreases:
  assumes "- 1 \<notin> set (event_rounds e)"
    and "core_round s \<noteq> - 1" "qc_round (high_qc s) \<noteq> - 1" "tc_round (high_tc s) \<noteq> - 1"
  shows "core_round s \<le> core_round (snd (core_step L n e s))"
  using assms by (rule core_step_round_up)

theorem core_round_never_decreases_witness:
  "core_round (node 1) \<le> core_round (snd (core_step (toy []) 20 (Message (TCMsg (tc_at 1 0))) (node 1)))"
  by (rule core_round_never_decreases) (simp_all add: node_def Core_new_def tc_at_def QC_genesis_def TC_default_def)

text \<open>A proposal that is not from the leader of its round, or that does not verify, is refused with
  the error and leaves the whole state as it was: no round change, no store access, no message.\<close>

theorem bad_proposal_changes_nothing:
  assumes "get_leader (core_committee s) (blk_round b) = (Ok leader :: (ConsensusError, PublicKey) outcome)"
    and "blk_author b \<noteq> leader \<or> Block_verify L (core_committee s) b = Err e"
  shows "\<exists>e'. handle_proposal L n b s = (Err e', s) \<and>
    (blk_author b \<noteq> leader \<longrightarrow> e' = WrongLeader (Block_digest L b) (blk_author b) (blk_round b)) \<and>
    (blk_author b = leader \<longrightarrow> e' = e)"
  using assms by (auto simp: handle_proposal_def core_leader_def ensure_def act_simps bindM_def thenM_def liftO_def getM_def)

theorem bad_proposal_changes_nothing_witness:
  "\<exists>e'. handle_proposal (toy []) 20 ((mkblock 1 QC_genesis None [])\<lparr>blk_author := key 1\<rparr>) (node 1) = (Err e', node 1)"
proof -
  let ?b = "(mkblock 1 QC_genesis None [])\<lparr>blk_author := key 1\<rparr>"
  have l: "get_leader (core_committee (node 1)) (blk_round ?b) =
      (Ok (key 2) :: (ConsensusError, PublicKey) outcome)"
    by code_simp
  have "blk_author ?b \<noteq> key 2" by (simp add: key_def)
  then show ?thesis using bad_proposal_changes_nothing [OF l, of "toy []" QCRequiresQuorum 20] by blast
qed

section \<open>Leaders\<close>

text \<open>C18: Among as many successive rounds as the committee has members (and no overflow of the round
  number) every member is leader in exactly one, and nobody else is.\<close>

theorem leader_rotation:
  assumes "distinct (map fst (authorities c))" "0 < size_c c"
    and "unat r + size_c c \<le> 2 ^ 64" "size_c c < 2 ^ 64"
  shows "\<forall>k. (\<exists>!i. i < size_c c \<and> get_leader c (r + of_nat i) = (Ok k :: (unit, PublicKey) outcome)) \<longleftrightarrow> k \<in> names c"
proof (intro allI iffI)
  have len: "length (sorted_keys c) = size_c c" and ks: "set (sorted_keys c) = names c"
    by (auto simp: sorted_keys_def size_c_def names_def)
  have d: "distinct (sorted_keys c)" using assms(1) by (simp add: sorted_keys_def)
  fix k
  show "k \<in> names c" if ex: "\<exists>!i. i < size_c c \<and> get_leader c (r + of_nat i) = (Ok k :: (unit, PublicKey) outcome)"
  proof -
    obtain i where "get_leader c (r + of_nat i) = (Ok k :: (unit, PublicKey) outcome)" using ex by blast
    moreover have "sorted_keys c \<noteq> []" using assms(2) len by auto
    ultimately show ?thesis using rr.leader_member [of c "r + of_nat i"] assms(4) len ks by auto
  qed
  show "\<exists>!i. i < size_c c \<and> get_leader c (r + of_nat i) = (Ok k :: (unit, PublicKey) outcome)" if k: "k \<in> names c"
  proof -
    obtain i where i: "i < size_c c" "get_leader c (r + of_nat i) = (Ok k :: (unit, PublicKey) outcome)"
      using rr.leader_fair [of k c r] k assms(3,4) len ks by auto
    moreover have "j = i" if "j < size_c c" "get_leader c (r + of_nat j) = (Ok k :: (unit, PublicKey) outcome)" for j
      using rr.leader_inj [OF d, of r j i] that i assms(3,4) len by simp
    ultimately show ?thesis by blast
  qed
qed

theorem leader_rotation_witness:
  "\<exists>!i. i < size_c com4 \<and> get_leader com4 (5 + of_nat i) = (Ok (key 3) :: (unit, PublicKey) outcome)"
proof -
  have "distinct (map fst (authorities com4))" "0 < size_c com4" "size_c com4 < 2 ^ 64"
    "unat (5::u64) + size_c com4 \<le> 2 ^ 64"
    by (simp_all add: com4_def size_c_def)
  from leader_rotation [OF this(1,2,4,3)] show ?thesis by (simp add: key_def)
qed

text \<open>Nodes agree on the leader: committees with the same members, in whatever order their tables
  are iterated, elect the same leader in every round.\<close>

theorem leader_agreement:
  assumes "distinct (map fst (authorities c))" "distinct (map fst (authorities d))" "names c = names d"
  shows "get_leader c r = get_leader d r"
proof -
  have "sorted_keys c = sorted_keys d"
    unfolding sorted_keys_def using assms
    by (intro sorted_distinct_set_unique) (simp_all add: names_def)
  moreover have "size_c c = size_c d"
    using assms by (metis distinct_card length_map list.set_map names_def size_c_def)
  ultimately show ?thesis by (simp add: get_leader_def)
qed

definition com4_rev :: Committee where
  "com4_rev = com4\<lparr>authorities := rev (authorities com4)\<rparr>"

theorem leader_agreement_witness:
  "get_leader com4 6 = (get_leader com4_rev 6 :: (unit, PublicKey) outcome)"
  by (rule leader_agreement) (auto simp: com4_rev_def com4_def names_def)

section \<open>Hostile input\<close>

text \<open>C21: A timeout certificate that arrives as a message is never verified: one with no votes at all,
  which \<open>TC::verify\<close> refuses, moves the core to the round after the one it names, for every round from
  the current one on; for the last round number the core falls back to round zero.\<close>

theorem handle_tc_trusts_anyone:
  assumes "committee_valid (core_committee s)" "core_round s \<le> r"
  shows "TC_verify L (core_committee s) \<lparr>tc_round = r, tc_votes = []\<rparr> = Err TCRequiresQuorum \<and>
    core_round (snd (handle_tc \<lparr>tc_round = r, tc_votes = []\<rparr> s)) = r + 1"
proof
  have "quorum_threshold (core_committee s) \<noteq> 0"
    using unat_quorum_threshold [OF assms(1)] by (auto simp: unat_eq_zero)
  then show "TC_verify L (core_committee s) \<lparr>tc_round = r, tc_votes = []\<rparr> = Err TCRequiresQuorum"
    by (simp add: TC_verify_def ensure_def)
  let ?tc = "\<lparr>tc_round = r, tc_votes = []\<rparr>"
  have rest: "keeps vote_frame (bindM (getM core_name) (\<lambda>name. bindM (getM core_round) (\<lambda>r.
      bindM (core_leader r) (\<lambda>leader. whenM (name = leader) (generate_proposal (Some ?tc))))))"
    unfolding generate_proposal_def by (intro vf.keeps_rules vf_basics) simp
  obtain s1 where p: "process_tc ?tc s = (Ok (), s1)" "core_round s1 = r + 1"
  proof -
    have "\<not> tc_round ?tc < core_round s" using assms(2) by simp
    with process_tc_run [of ?tc s] that show ?thesis by auto
  qed
  show "core_round (snd (handle_tc ?tc s)) = r + 1"
    unfolding handle_tc_def using rest p(2)
    by (subst thenM_Ok [where m = "process_tc ?tc" and s = s, OF p(1)])
      (simp add: keeps_def vote_frame_def)
qed

theorem handle_tc_trusts_anyone_witness:
  "core_round (snd (handle_tc \<lparr>tc_round = - 1, tc_votes = []\<rparr> (node 1))) = 0"
proof -
  have "committee_valid (core_committee (node 1))" by (simp add: node_def Core_new_def)
  moreover have "core_round (node 1) \<le> - 1" by simp
  ultimately show ?thesis using handle_tc_trusts_anyone [of "node 1" "- 1" "toy []"] by simp
qed

text \<open>A leader that has been moved by such an empty certificate proposes a block with it, and that
  block, looped back to the core, ends the core's task: the vote rule takes the maximum of an empty
  list.  The run starts a core at round 5, and the block is the one its proposer builds.\<close>

theorem forged_tc_kills_leader:
  assumes "blk_tc b = Some tc" "tc_votes tc = []"
    and "process_pre L n b s = (Ok True, s1)" "core_round s1 = blk_round b"
  shows "process_block L n b s = (Panic ''Empty TC'', s1)"
proof -
  have "make_vote L b s1 = (Panic ''Empty TC'', s1)"
    using assms(1,2)
    by (simp add: make_vote_def safety_rule_2_def high_qc_rounds_def act_simps liftO_def)
  then have "process_vote L b s1 = (Panic ''Empty TC'', s1)"
    using assms(4) by (simp add: process_vote_def act_simps)
  with assms(3) show ?thesis by (simp add: process_block_split bindM_Ok)
qed

theorem forged_tc_kills_leader_witness:
  "fst (core_run (toy chain3) 20 [Message (TCMsg empty_tc), Loopback (chain3 ! 1)] (node 2)) =
    Panic ''Empty TC'' \<and>
   last (out (snd (core_step (toy chain3) 20 (Message (TCMsg empty_tc)) (node 2)))) =
     ToProposer (Make 5 QC_genesis (Some empty_tc))"
proof -
  define s where "s = snd (core_step (toy chain3) 20 (Message (TCMsg empty_tc)) (node 2))"
  define s1 where "s1 = snd (process_pre (toy chain3) 20 (chain3 ! 1) s)"
  have ok: "fst (core_step (toy chain3) 20 (Message (TCMsg empty_tc)) (node 2)) = Ok ()" by code_simp
  have pre: "process_pre (toy chain3) 20 (chain3 ! 1) s = (Ok True, s1)"
  proof -
    have "fst (process_pre (toy chain3) 20 (chain3 ! 1) s) = Ok True" unfolding s_def by code_simp
    then show ?thesis by (simp add: s1_def prod_eq_iff)
  qed
  have rd: "core_round s1 = blk_round (chain3 ! 1)" unfolding s1_def s_def by code_simp
  have b: "blk_tc (chain3 ! 1) = Some empty_tc" "tc_votes empty_tc = []"
    by (simp_all add: chain3_def mkblock_def empty_tc_def)
  have st: "core_step (toy chain3) 20 (Message (TCMsg empty_tc)) (node 2) = (Ok (), s)"
    using ok by (simp add: s_def prod_eq_iff)
  have "fst (core_run (toy chain3) 20 [Message (TCMsg empty_tc), Loopback (chain3 ! 1)] (node 2)) =
      Panic ''Empty TC''"
    using forged_tc_kills_leader [OF b pre rd] st by simp
  moreover have "last (out (snd (core_step (toy chain3) 20 (Message (TCMsg empty_tc)) (node 2)))) =
      ToProposer (Make 5 QC_genesis (Some empty_tc))"
    by code_simp
  ultimately show ?thesis by simp
qed

text \<open>A vote that names an authority of the committee and has a signature the curve library cannot
  parse ends the core's task, although nobody in the committee signed it: \<open>Signature::verify\<close> unwraps
  the parse.  The same signature inside a certificate is an ordinary error.\<close>

theorem malformed_signature_kills_core:
  assumes "from_compact L (flatten (vote_signature v)) = Inl e"
    and "0 < stake (core_committee s) (vote_author v)" "core_round s \<le> vote_round v"
  shows "handle_vote L v s =
      (Panic ''compact signatures are 64 bytes; DER signatures are 68-72 bytes'', s) \<and>
    (\<forall>d m. msg_from_slice L d = Inr m \<longrightarrow>
      verify_batch L d [(vote_author v, vote_signature v)] = Err e)"
  using assms
  by (simp add: handle_vote_def act_simps not_less Vote_verify_def ensure_def Signature_verify_def
      liftO_def thenM_def bindM_def verify_batch_def getM_def)

theorem malformed_signature_kills_core_witness:
  "handle_vote (toy []) ((vote_by 2)\<lparr>vote_signature := badsig\<rparr>) (node 1) =
    (Panic ''compact signatures are 64 bytes; DER signatures are 68-72 bytes'', node 1)"
proof -
  let ?v = "(vote_by 2)\<lparr>vote_signature := badsig\<rparr>"
  have "from_compact (toy []) (flatten (vote_signature ?v)) = Inl 1"
    by (simp add: toy_def badsig_def flatten_def)
  moreover have "0 < stake (core_committee (node 1)) (vote_author ?v)" by code_simp
  moreover have "core_round (node 1) \<le> vote_round ?v" by (simp add: node_def Core_new_def vote_by_def)
  ultimately show ?thesis using malformed_signature_kills_core by blast
qed

end
