(* ===== verification/StoreProps.thy ===== *)
theory StoreProps
  imports Samples
begin

text \<open>The properties of the store actor.\<close>

text \<open>C19: No reader is left waiting for a key that is present: in every run of the store task from an
  empty table, each waiting reader waits for an absent key, and the table has one entry per key.\<close>

theorem store_no_lost_wakeup:
  assumes "rocks_ok R"
  shows "distinct (map fst (obligations (fst (store_run R cs Store_new)))) \<and>
    (\<forall>(k, senders) \<in> set (obligations (fst (store_run R cs Store_new))).
      senders \<noteq> [] \<and> content (fst (store_run R cs Store_new)) k = None)"
  using store_run_inv [OF assms store_inv_new, of cs] by (auto simp: store_inv_def)

theorem store_no_lost_wakeup_witness:
  "content (fst (store_run toy_rocks [NotifyRead [1] 7, Write [2] [5], NotifyRead [2] 8] Store_new)) [1] = None"
proof -
  let ?st = "fst (store_run toy_rocks [NotifyRead [1] 7, Write [2] [5], NotifyRead [2] 8] Store_new)"
  have "([1], [7]) \<in> set (obligations ?st)" by code_simp
  with store_no_lost_wakeup [OF toy_rocks_ok] show ?thesis by fast
qed

text \<open>C20: A reader that asks to be notified of an absent key hears nothing until the key is written,
  and is then sent exactly the value written, whatever other commands (reads, deletions, writes to
  other keys, other readers of the same key) are served in between.\<close>

theorem notify_read_delivers_first_write:
  assumes "rocks_ok R" "running st" "content st k = None" "\<forall>k'. s \<notin> set (senders_of st k')"
    and "\<forall>c \<in> set cs. (\<forall>v. c \<noteq> Write k v) \<and> (\<forall>t. c \<noteq> Exit t \<and> c \<noteq> NotifyDestroy t) \<and>
      s \<notin> set (command_sender c)"
  shows "notify_read_result s (snd (store_run R (NotifyRead k s # cs) st)) = None \<and>
    notify_read_result s (snd (store_run R (NotifyRead k s # cs @ [Write k v]) st)) = Some (Inr v)"
proof -
  let ?st1 = "fst (store_step R (NotifyRead k s) st)"
  let ?st2 = "fst (store_run R cs ?st1)"
  have reg: "waits ?st1 k s" "snd (store_step R (NotifyRead k s) st) = []"
    using waits_register [OF assms(1-4)] by auto
  have "\<forall>c \<in> set cs. quiet k s c" using assms(5) by (simp add: quiet_def)
  from waits_run [OF assms(1) reg(1) this]
  have mid: "waits ?st2 k s" "notify_read_result s (snd (store_run R cs ?st1)) = None" by auto
  have "notify_read_result s (snd (store_step R (Write k v) ?st2)) = Some (Inr v)"
    using mid(1) by (simp add: store_step_def waits_def)
  with mid(2) reg(2) show ?thesis
    by (simp add: store_run_append split_def Let_def notify_read_result_append)
qed

theorem notify_read_delivers_first_write_witness:
  "notify_read_result 7 (snd (store_run toy_rocks
    (NotifyRead [1] 7 # [NotifyRead [1] 8, Write [2] [9], Delete [1]] @ [Write [1] [5]]) Store_new)) =
    Some (Inr [5])"
  by (rule notify_read_delivers_first_write [THEN conjunct2])
    (simp_all add: Store_new_def senders_of_def)

text \<open>Reading back: while the task runs, a read returns the value of the last write of the key, or
  nothing after its deletion; writes and deletions of other keys do not matter.  Once the task has
  stopped every read is an error.\<close>

theorem store_read_after_write:
  assumes "rocks_ok R"
  shows "(running st \<longrightarrow>
      store_read R k (fst (store_write R k v st)) = Inr (Some v) \<and>
      store_read R k (fst (store_delete R k st)) = Inr None \<and>
      (k' \<noteq> k \<longrightarrow> store_read R k' (fst (store_write R k v st)) = store_read R k' st \<and>
        store_read R k' (fst (store_delete R k st)) = store_read R k' st)) \<and>
    (\<not> running st \<longrightarrow> (\<exists>e. store_read R k (fst (store_write R k v st)) = Inl e))"
proof (cases "running st")
  case True
  then show ?thesis
    using store_read_running [OF store_write_content(2) [OF assms True] assms]
      store_read_running [OF store_delete_content(2) [OF assms True] assms]
      store_read_running [OF True assms] store_write_content(1) [OF assms True]
      store_delete_content(1) [OF assms True]
    by simp
next
  case False
  then show ?thesis by (simp add: store_write_stopped store_read_stopped)
qed

theorem store_read_after_write_witness:
  "store_read toy_rocks [1] (fst (store_write toy_rocks [1] [5] Store_new)) = Inr (Some [5])"
  using store_read_after_write [OF toy_rocks_ok, of Store_new "[1]" "[5]" "[2]"] by (simp add: Store_new_def)

end
