(* ===== verification/Network.thy ===== *)
theory Network
  imports Wire "HOL-Library.Multiset" "HOL-Library.Sublist"
begin

text \<open>
  The network crate (\<open>src/hotstuff/network/src\<close>): the reliable sender, which retransmits a message
  until the peer answers or the caller cancels; the best-effort simple sender; and the receiver, which
  unwraps an envelope and hands it to the handler of a validator.

  Sockets and timers are the environment: what they do (a connection is made or refused, a write
  succeeds or fails, a frame arrives, a delay elapses) is an event.  One event is one turn of a
  \<open>select!\<close> or one write of the loop that empties the buffer; an event that the code is not waiting
  for gives \<open>None\<close>.  A cancel handler is a number; \<open>closed\<close> is the set of handlers whose receiving
  side has been dropped.
\<close>

section \<open>The reliable sender\<close>

datatype NetworkError =
    FailedToConnect SocketAddr u16
  | FailedToListen
  | FailedToSendMessage SocketAddr
  | FailedToReceiveMessage SocketAddr
  | FailedToReceiveAck SocketAddr
  | UnexpectedAck SocketAddr
  | TokioChannelClosed SocketAddr

type_synonym InnerMessage = "bytes \<times> nat"

datatype rc_mode = Connecting | Backoff | Alive | Stopped

record Connection =
  rc_address :: SocketAddr
  rc_receiver :: "InnerMessage list"
  rc_retry_delay :: u64
  rc_buffer :: "InnerMessage list"
  rc_pending_replies :: "InnerMessage list"
  rc_delay :: u64
  rc_retry :: u16
  rc_mode :: rc_mode

datatype rc_out =
    Wrote bytes
  | Acked InnerMessage bytes
  | Discarded InnerMessage
  | Warned NetworkError

datatype rc_event =
    Connected
  | ConnectFailed
  | DelayElapsed
  | NextMessage
  | ChannelClosed
  | ExitFired
  | Drain bool
  | Response "bytes option"

definition Connection_new :: "SocketAddr \<Rightarrow> Connection" where
  "Connection_new a = \<lparr>rc_address = a, rc_receiver = [], rc_retry_delay = 200, rc_buffer = [],
    rc_pending_replies = [], rc_delay = 200, rc_retry = 0, rc_mode = Connecting\<rparr>"

text \<open>The messages the connection has taken responsibility for, in the order they were submitted.\<close>

definition outstanding :: "Connection \<Rightarrow> InnerMessage list" where
  "outstanding c = rc_pending_replies c @ rc_buffer c @ rc_receiver c"

text \<open>The task returns: what it holds is dropped, and the waiting sides see a closed channel.\<close>

definition rc_stop :: "Connection \<Rightarrow> Connection \<times> rc_out list" where
  "rc_stop c = (c\<lparr>rc_receiver := [], rc_buffer := [], rc_pending_replies := [], rc_mode := Stopped\<rparr>,
    map Discarded (outstanding c))"

text \<open>
  The end of \<open>keep_alive\<close>: messages without an answer go back to the front of the buffer, and \<open>run\<close>
  connects again, unless the channel is closed.
\<close>

function requeue :: "InnerMessage list \<Rightarrow> InnerMessage list \<Rightarrow> InnerMessage list" where
  "requeue pend buf = (if pend = [] then buf else requeue (butlast pend) (last pend # buf))"
  by pat_completeness auto
termination
  by (relation "measure (length \<circ> fst)") auto

declare requeue.simps [simp del]

definition rc_break :: "NetworkError \<Rightarrow> Connection \<Rightarrow> Connection \<times> rc_out list" where
  "rc_break e c =
    (let c1 = c\<lparr>rc_buffer := requeue (rc_pending_replies c) (rc_buffer c), rc_pending_replies := []\<rparr> in
     case e of
       TokioChannelClosed _ \<Rightarrow> (let (c2, o2) = rc_stop c1 in (c2, Warned e # o2))
     | _ \<Rightarrow> (c1\<lparr>rc_mode := Connecting\<rparr>, [Warned e]))"

definition rc_backoff :: "nat set \<Rightarrow> rc_event \<Rightarrow> Connection \<Rightarrow> (Connection \<times> rc_out list) option" where
  "rc_backoff closed e c = (case e of
      DelayElapsed \<Rightarrow> Some (c\<lparr>rc_delay := min (2 * rc_delay c) 60000, rc_retry := rc_retry c + 1,
        rc_mode := Connecting\<rparr>, [])
    | NextMessage \<Rightarrow> (case rc_receiver c of
        [] \<Rightarrow> None
      | m # ms \<Rightarrow>
          let buf = rc_buffer c @ [m] in
          Some (c\<lparr>rc_receiver := ms, rc_buffer := filter (\<lambda>x. snd x \<notin> closed) buf\<rparr>,
            map Discarded (filter (\<lambda>x. snd x \<in> closed) buf)))
    | ChannelClosed \<Rightarrow> if rc_receiver c = [] then Some (rc_stop c) else None
    | ExitFired \<Rightarrow> Some (rc_stop c)
    | _ \<Rightarrow> None)"

definition rc_keep_alive :: "nat set \<Rightarrow> rc_event \<Rightarrow> Connection \<Rightarrow> (Connection \<times> rc_out list) option" where
  "rc_keep_alive closed e c = (case rc_buffer c of
      m # buf \<Rightarrow> (case e of
        Drain ok \<Rightarrow>
          if snd m \<in> closed then Some (c\<lparr>rc_buffer := buf\<rparr>, [Discarded m])
          else if ok then Some (c\<lparr>rc_buffer := buf, rc_pending_replies := rc_pending_replies c @ [m]\<rparr>,
            [Wrote (fst m)])
          else Some (rc_break (FailedToSendMessage (rc_address c)) c)
      | _ \<Rightarrow> None)
    | [] \<Rightarrow> (case e of
        NextMessage \<Rightarrow> (case rc_receiver c of
          [] \<Rightarrow> None | m # ms \<Rightarrow> Some (c\<lparr>rc_receiver := ms, rc_buffer := [m]\<rparr>, []))
      | ChannelClosed \<Rightarrow> if rc_receiver c = [] then Some (rc_break (TokioChannelClosed (rc_address c)) c) else None
      | ExitFired \<Rightarrow> Some (rc_break (TokioChannelClosed (rc_address c)) c)
      | Response r \<Rightarrow> (case rc_pending_replies c of
          [] \<Rightarrow> Some (rc_break (UnexpectedAck (rc_address c)) c)
        | m # ms \<Rightarrow> (case r of
            Some reply \<Rightarrow> Some (c\<lparr>rc_pending_replies := ms\<rparr>, [Acked m reply])
          | None \<Rightarrow> Some (rc_break (FailedToReceiveAck (rc_address c)) c)))
      | _ \<Rightarrow> None))"

definition rc_step :: "nat set \<Rightarrow> rc_event \<Rightarrow> Connection \<Rightarrow> (Connection \<times> rc_out list) option" where
  "rc_step closed e c = (case rc_mode c of
      Connecting \<Rightarrow> (case e of
        Connected \<Rightarrow> Some (c\<lparr>rc_delay := rc_retry_delay c, rc_retry := 0, rc_pending_replies := [],
          rc_mode := Alive\<rparr>, [])
      | ConnectFailed \<Rightarrow> Some (c\<lparr>rc_mode := Backoff\<rparr>, [Warned (FailedToConnect (rc_address c) (rc_retry c))])
      | _ \<Rightarrow> None)
    | Backoff \<Rightarrow> rc_backoff closed e c
    | Alive \<Rightarrow> rc_keep_alive closed e c
    | Stopped \<Rightarrow> None)"

text \<open>
  The sender itself: one connection per address, made on first use.  A new \<open>oneshot\<close> channel gives
  a fresh handler.  The shuffle of the \<open>rand\<close> crate is a parameter.
\<close>

record ReliableSender =
  rs_connections :: "(SocketAddr \<times> Connection) list"
  rs_next :: nat

type_synonym 'a rs_act = "(ReliableSender, NetworkError, 'a) act"

definition ReliableSender_new :: ReliableSender where
  "ReliableSender_new = \<lparr>rs_connections = [], rs_next = 0\<rparr>"

definition rs_connection :: "ReliableSender \<Rightarrow> SocketAddr \<Rightarrow> Connection" where
  "rs_connection rs a = (case map_of (rs_connections rs) a of
      Some c \<Rightarrow> c | None \<Rightarrow> Connection_new a)"

definition rs_send :: "SocketAddr \<Rightarrow> bytes \<Rightarrow> nat rs_act" where
  "rs_send a data rs =
    (let h = rs_next rs; c = rs_connection rs a; rs1 = rs\<lparr>rs_next := h + 1\<rparr> in
     if rc_mode c = Stopped
     then (Panic ''Failed to send internal message'', rs1)
     else (Ok h, rs1\<lparr>rs_connections := AList.update a
       (c\<lparr>rc_receiver := rc_receiver c @ [(data, h)]\<rparr>) (rs_connections rs)\<rparr>))"

fun rs_broadcast :: "SocketAddr list \<Rightarrow> bytes \<Rightarrow> nat list rs_act" where
  "rs_broadcast [] data = retM []"
| "rs_broadcast (a # as) data =
    bindM (rs_send a data) (\<lambda>h. bindM (rs_broadcast as data) (\<lambda>hs. retM (h # hs)))"

definition rs_lucky_broadcast :: "(SocketAddr list \<Rightarrow> SocketAddr list) \<Rightarrow> SocketAddr list \<Rightarrow> bytes \<Rightarrow> nat
    \<Rightarrow> nat list rs_act" where
  "rs_lucky_broadcast shuffle as data nodes = rs_broadcast (take nodes (shuffle as)) data"

text \<open>Dropping the sender fires the exit signal of every connection that is listening for it.\<close>

definition rs_drop :: "nat set \<Rightarrow> ReliableSender \<Rightarrow> ReliableSender \<times> rc_out list" where
  "rs_drop closed rs =
    (let rs' = map (\<lambda>(a, c). (a, case rc_step closed ExitFired c of Some r \<Rightarrow> r | None \<Rightarrow> (c, [])))
        (rs_connections rs) in
     (rs\<lparr>rs_connections := map (\<lambda>(a, c, out). (a, c)) rs'\<rparr>, concat (map (\<lambda>(a, c, out). out) rs')))"

section \<open>What the reliable sender promises\<close>

text \<open>
  The specification: a queue of messages.  The answered message is always the oldest; a message
  leaves the queue without an answer only if its handler was closed, or when the sender is dropped.
\<close>

fun noise :: "rc_out \<Rightarrow> bool" where
  "noise (Wrote _) = True"
| "noise (Warned _) = True"
| "noise _ = False"

inductive outbox :: "nat set \<Rightarrow> InnerMessage list \<Rightarrow> rc_out list \<Rightarrow> InnerMessage list \<Rightarrow> bool"
  for closed :: "nat set" where
  stutter: "list_all noise out \<Longrightarrow> outbox closed q out q"
| answer: "outbox closed (m # q) [Acked m reply] q"
| cancel: "outbox closed (xs @ ys @ zs) (map Discarded (filter (\<lambda>m. snd m \<in> closed) ys))
    (xs @ filter (\<lambda>m. snd m \<notin> closed) ys @ zs)"
| stop: "list_all noise out \<Longrightarrow> outbox closed q (out @ map Discarded q) []"

definition rc_inv :: "Connection \<Rightarrow> bool" where
  "rc_inv c \<longleftrightarrow> (rc_mode c \<noteq> Alive \<longrightarrow> rc_pending_replies c = []) \<and> rc_retry_delay c = 200 \<and>
    200 \<le> rc_delay c \<and> rc_delay c \<le> 60000"

lemma requeue_eq [simp]: "requeue pend buf = pend @ buf"
  by (induction pend arbitrary: buf rule: rev_induct) (subst requeue.simps, simp)+

lemma rc_inv_new: "rc_inv (Connection_new a)"
  by (simp add: rc_inv_def Connection_new_def)

lemma delay_doubles:
  fixes d :: u64
  assumes "200 \<le> d" "d \<le> 60000"
  shows "200 \<le> min (2 * d) 60000" "min (2 * d) 60000 \<le> 60000"
proof -
  have "unat d \<le> 60000" using assms(2) by (simp add: word_le_nat_alt)
  then have "unat (2 * d) = 2 * unat d" by (simp add: unat_word_ariths)
  then have "200 \<le> 2 * d" using assms(1) by (simp add: word_le_nat_alt)
  then show "200 \<le> min (2 * d) 60000" "min (2 * d) 60000 \<le> 60000" by (simp_all add: min_def)
qed

lemma rc_stop_inv: "rc_inv c \<Longrightarrow> rc_stop c = (c', out) \<Longrightarrow> rc_inv c'"
  by (auto simp: rc_inv_def rc_stop_def)

lemma rc_break_inv: "rc_inv c \<Longrightarrow> rc_break e c = (c', out) \<Longrightarrow> rc_inv c'"
  by (cases e) (auto simp: rc_break_def rc_inv_def rc_stop_def Let_def)

lemma rc_backoff_inv:
  assumes "rc_inv c" "rc_mode c = Backoff" "rc_backoff closed e c = Some (c', out)"
  shows "rc_inv c'"
proof (cases e)
  case DelayElapsed
  then show ?thesis
    using assms delay_doubles [of "rc_delay c"] by (auto simp: rc_backoff_def rc_inv_def)
next
  case NextMessage
  then show ?thesis
    using assms by (auto simp: rc_backoff_def rc_inv_def Let_def split: list.splits)
qed (use assms in \<open>auto simp: rc_backoff_def intro: rc_stop_inv split: if_splits\<close>)

lemma rc_keep_alive_inv:
  assumes "rc_inv c" "rc_mode c = Alive" "rc_keep_alive closed e c = Some (c', out)"
  shows "rc_inv c'"
proof -
  consider err where "rc_break err c = (c', out)"
    | "rc_mode c' = Alive" "rc_retry_delay c' = rc_retry_delay c" "rc_delay c' = rc_delay c"
    using assms(2,3) by (auto simp: rc_keep_alive_def
        split: rc_event.splits list.splits if_splits option.splits)
  then show ?thesis
  proof cases
    case 1
    with assms(1) show ?thesis by (rule rc_break_inv)
  qed (use assms(1) in \<open>simp add: rc_inv_def\<close>)
qed

lemma rc_step_inv:
  assumes "rc_inv c" "rc_step closed e c = Some (c', out)"
  shows "rc_inv c'"
proof (cases "rc_mode c")
  case Connecting
  then show ?thesis
    using assms by (cases e) (auto simp: rc_step_def rc_inv_def)
qed (use assms in \<open>auto simp: rc_step_def intro: rc_backoff_inv rc_keep_alive_inv\<close>)

text \<open>Every turn of the connection is a turn of the specification.\<close>

lemma rc_stop_outbox: "rc_stop c = (c', out) \<Longrightarrow> outbox closed (outstanding c) out (outstanding c')"
  using outbox.stop [of "[]" closed "outstanding c"] by (auto simp: rc_stop_def outstanding_def)

lemma rc_break_outbox:
  assumes "rc_break e c = (c', out)"
  shows "outbox closed (outstanding c) out (outstanding c')"
proof (cases "\<exists>a. e = TokioChannelClosed a")
  case True
  then show ?thesis
    using assms outbox.stop [of "[Warned e]" closed "outstanding c"]
    by (auto simp: rc_break_def rc_stop_def outstanding_def Let_def)
next
  case False
  then show ?thesis
    using assms by (cases e) (auto simp: rc_break_def outstanding_def Let_def intro!: outbox.stutter)
qed

lemma rc_backoff_outbox:
  assumes "rc_pending_replies c = []" "rc_backoff closed e c = Some (c', out)"
  shows "outbox closed (outstanding c) out (outstanding c')"
proof -
  consider "rc_stop c = (c', out)"
    | "outstanding c' = outstanding c" "out = []"
    | m ms where "rc_receiver c = m # ms"
      "c' = c\<lparr>rc_receiver := ms, rc_buffer := filter (\<lambda>x. snd x \<notin> closed) (rc_buffer c @ [m])\<rparr>"
      "out = map Discarded (filter (\<lambda>x. snd x \<in> closed) (rc_buffer c @ [m]))"
    using assms by (auto simp: rc_backoff_def outstanding_def Let_def
        split: rc_event.splits list.splits if_splits)
  then show ?thesis
  proof cases
    case 3
    then show ?thesis
      using outbox.cancel [of closed "[]" "rc_buffer c @ [m]" ms] assms(1)
      by (simp add: outstanding_def)
  qed (auto intro: rc_stop_outbox outbox.stutter)
qed

lemma rc_keep_alive_outbox:
  assumes "rc_keep_alive closed e c = Some (c', out)"
  shows "outbox closed (outstanding c) out (outstanding c')"
proof -
  consider err where "rc_break err c = (c', out)"
    | "outstanding c' = outstanding c" "list_all noise out"
    | m where "outstanding c = m # outstanding c'" "\<exists>reply. out = [Acked m reply]"
    | m buf where "rc_buffer c = m # buf" "snd m \<in> closed" "c' = c\<lparr>rc_buffer := buf\<rparr>" "out = [Discarded m]"
    using assms by (auto simp: rc_keep_alive_def outstanding_def
        split: rc_event.splits list.splits if_splits option.splits)
  then show ?thesis
  proof cases
    case 4
    then show ?thesis
      using outbox.cancel [of closed "rc_pending_replies c" "[m]" "buf @ rc_receiver c"]
      by (simp add: outstanding_def)
  qed (auto intro: rc_break_outbox outbox.stutter outbox.answer)
qed

lemma rc_step_outbox:
  assumes "rc_inv c" "rc_step closed e c = Some (c', out)"
  shows "outbox closed (outstanding c) out (outstanding c')"
proof (cases "rc_mode c")
  case Connecting
  then show ?thesis
    using assms by (auto simp: rc_step_def rc_inv_def outstanding_def split: rc_event.splits
        intro!: outbox.stutter)
qed (use assms in \<open>auto simp: rc_step_def rc_inv_def intro: rc_backoff_outbox rc_keep_alive_outbox\<close>)

text \<open>
  A history of one connection: the callers submit messages, the connection takes turns.  \<open>None\<close> is a
  history the code cannot have.
\<close>

datatype rc_action = Submit InnerMessage | Turn "nat set" rc_event

fun rc_run :: "rc_action list \<Rightarrow> Connection \<Rightarrow> (Connection \<times> rc_out list) option" where
  "rc_run [] c = Some (c, [])"
| "rc_run (Submit m # as) c = (if rc_mode c = Stopped then None
    else rc_run as (c\<lparr>rc_receiver := rc_receiver c @ [m]\<rparr>))"
| "rc_run (Turn closed e # as) c = (case rc_step closed e c of
      None \<Rightarrow> None
    | Some (c1, o1) \<Rightarrow> (case rc_run as c1 of None \<Rightarrow> None | Some (c2, o2) \<Rightarrow> Some (c2, o1 @ o2)))"

fun submitted :: "rc_action list \<Rightarrow> InnerMessage list" where
  "submitted [] = []"
| "submitted (Submit m # as) = m # submitted as"
| "submitted (Turn _ _ # as) = submitted as"

fun answered :: "rc_out list \<Rightarrow> InnerMessage list" where
  "answered [] = []"
| "answered (Acked m _ # os) = m # answered os"
| "answered (_ # os) = answered os"

fun discarded :: "rc_out list \<Rightarrow> InnerMessage list" where
  "discarded [] = []"
| "discarded (Discarded m # os) = m # discarded os"
| "discarded (_ # os) = discarded os"

fun closed_in :: "rc_action list \<Rightarrow> nat set" where
  "closed_in [] = {}"
| "closed_in (Submit _ # as) = closed_in as"
| "closed_in (Turn closed _ # as) = closed \<union> closed_in as"

lemma answered_append [simp]: "answered (xs @ ys) = answered xs @ answered ys"
  by (induction xs rule: answered.induct) auto

lemma discarded_append [simp]: "discarded (xs @ ys) = discarded xs @ discarded ys"
  by (induction xs rule: discarded.induct) auto

lemma noise_silent [simp]:
  "list_all noise out \<Longrightarrow> answered out = [] \<and> discarded out = []"
  by (induction out rule: answered.induct) auto

lemma answered_Discarded [simp]: "answered (map Discarded q) = []"
  and discarded_Discarded [simp]: "discarded (map Discarded q) = q"
  by (induction q) auto

lemma outbox_order:
  assumes "outbox closed q out q'"
  shows "subseq (answered out @ q') q"
  using assms
proof cases
  case (cancel xs ys zs)
  then show ?thesis by (auto intro!: list_emb_append_mono)
qed auto

lemma outbox_conserves:
  assumes "outbox closed q out q'"
  shows "mset q = mset (answered out) + mset (discarded out) + mset q'"
  using assms
proof cases
  case (cancel xs ys zs)
  have "mset ys = mset (filter (\<lambda>m. snd m \<in> closed) ys) + mset (filter (\<lambda>m. snd m \<notin> closed) ys)"
    by (induction ys) auto
  with cancel show ?thesis by (simp add: ac_simps)
qed auto

lemma rc_break_discards:
  "rc_break e c = (c', out) \<Longrightarrow> rc_mode c' \<noteq> Stopped \<Longrightarrow> discarded out = []"
  by (cases e) (auto simp: rc_break_def rc_stop_def Let_def)

lemma rc_step_discards:
  assumes "rc_step closed e c = Some (c', out)" "rc_mode c' \<noteq> Stopped"
  shows "\<forall>m \<in> set (discarded out). snd m \<in> closed"
proof -
  consider err where "rc_break err c = (c', out)" | "discarded out = []"
    | q where "out = map Discarded (filter (\<lambda>m. snd m \<in> closed) q)"
    | m where "out = [Discarded m]" "snd m \<in> closed"
    using assms by (auto simp: rc_step_def rc_backoff_def rc_keep_alive_def rc_stop_def Let_def
        simp del: filter_append
        split: rc_mode.splits rc_event.splits list.splits if_splits option.splits)
  then show ?thesis
    by cases (use assms(2) rc_break_discards in auto)
qed

lemma rc_run_Turn:
  assumes "rc_run (Turn closed e # as) c = Some (c', out)"
  obtains c1 o1 o2 where "rc_step closed e c = Some (c1, o1)" "rc_run as c1 = Some (c', o2)" "out = o1 @ o2"
  using assms by (auto split: option.splits)

lemma rc_run_Stopped: "rc_run as c = Some (c', out) \<Longrightarrow> rc_mode c = Stopped \<Longrightarrow> rc_mode c' = Stopped"
  by (cases "(as, c)" rule: rc_run.cases) (auto simp: rc_step_def)

lemma rc_run_inv: "rc_run as c = Some (c', out) \<Longrightarrow> rc_inv c \<Longrightarrow> rc_inv c'"
proof (induction as c arbitrary: out rule: rc_run.induct)
  case (2 m as c)
  then show ?case by (simp add: rc_inv_def split: if_splits)
next
  case (3 closed e as c)
  from 3(2) show ?case
    by (rule rc_run_Turn) (use 3 rc_step_inv in blast)
qed simp

lemma rc_run_order:
  "rc_run as c = Some (c', out) \<Longrightarrow> rc_inv c \<Longrightarrow>
    subseq (answered out @ outstanding c') (outstanding c @ submitted as)"
proof (induction as c arbitrary: out rule: rc_run.induct)
  case (2 m as c)
  then show ?case by (simp add: rc_inv_def outstanding_def split: if_splits)
next
  case (3 closed e as c)
  from 3(2) obtain c1 o1 o2 where s: "rc_step closed e c = Some (c1, o1)"
    "rc_run as c1 = Some (c', o2)" "out = o1 @ o2" by (rule rc_run_Turn)
  have "subseq (answered o2 @ outstanding c') (outstanding c1 @ submitted as)"
    using 3 s rc_step_inv by blast
  then have "subseq (answered out @ outstanding c') ((answered o1 @ outstanding c1) @ submitted as)"
    using s(3) by (simp add: list_emb_append_mono)
  also have "subseq \<dots> (outstanding c @ submitted as)"
    using outbox_order [OF rc_step_outbox [OF 3(3) s(1)]] by (rule list_emb_append_mono) simp
  finally show ?case by simp
qed simp

lemma rc_run_conserves:
  "rc_run as c = Some (c', out) \<Longrightarrow> rc_inv c \<Longrightarrow>
    mset (outstanding c) + mset (submitted as) =
      mset (answered out) + mset (discarded out) + mset (outstanding c')"
proof (induction as c arbitrary: out rule: rc_run.induct)
  case (2 m as c)
  then show ?case by (simp add: rc_inv_def outstanding_def ac_simps split: if_splits)
next
  case (3 closed e as c)
  from 3(2) obtain c1 o1 o2 where s: "rc_step closed e c = Some (c1, o1)"
    "rc_run as c1 = Some (c', o2)" "out = o1 @ o2" by (rule rc_run_Turn)
  have "mset (outstanding c1) + mset (submitted as) =
      mset (answered o2) + mset (discarded o2) + mset (outstanding c')"
    using 3 s rc_step_inv by blast
  with outbox_conserves [OF rc_step_outbox [OF 3(3) s(1)]] s(3) show ?case
    by (simp add: ac_simps)
qed simp

lemma rc_run_discards:
  "rc_run as c = Some (c', out) \<Longrightarrow> rc_mode c' \<noteq> Stopped \<Longrightarrow>
    snd ` set (discarded out) \<subseteq> closed_in as"
proof (induction as c arbitrary: out rule: rc_run.induct)
  case (3 closed e as c)
  from 3(2) obtain c1 o1 o2 where s: "rc_step closed e c = Some (c1, o1)"
    "rc_run as c1 = Some (c', o2)" "out = o1 @ o2" by (rule rc_run_Turn)
  have "rc_mode c1 \<noteq> Stopped" using rc_run_Stopped [OF s(2)] 3(3) by blast
  then have "snd ` set (discarded o1) \<subseteq> closed" using rc_step_discards [OF s(1)] by blast
  moreover have "snd ` set (discarded o2) \<subseteq> closed_in as" using 3 s by blast
  ultimately show ?case using s(3) by auto
qed (auto split: if_splits)

text \<open>The handlers a broadcast returns are fresh, in the order of the addresses.\<close>

lemma rs_send_run:
  "rs_send a data rs = (Ok h, rs') \<longleftrightarrow> rc_mode (rs_connection rs a) \<noteq> Stopped \<and> h = rs_next rs \<and>
    rs' = rs\<lparr>rs_next := rs_next rs + 1, rs_connections := AList.update a ((rs_connection rs a)
      \<lparr>rc_receiver := rc_receiver (rs_connection rs a) @ [(data, rs_next rs)]\<rparr>) (rs_connections rs)\<rparr>"
  by (auto simp: rs_send_def Let_def)

lemma rs_broadcast_handlers:
  "rs_broadcast as data rs = (Ok hs, rs') \<Longrightarrow>
    hs = [rs_next rs..<rs_next rs + length as] \<and> rs_next rs' = rs_next rs + length as"
proof (induction as arbitrary: rs hs)
  case (Cons a as)
  from Cons(2) obtain h rs1 hs1 where "rs_send a data rs = (Ok h, rs1)"
    "rs_broadcast as data rs1 = (Ok hs1, rs')" "hs = h # hs1"
    by (auto elim!: bindM_OkE simp: retM_run)
  with Cons(1) [of rs1 hs1] show ?case by (auto simp: rs_send_run upt_conv_Cons simp del: upt_Suc)
qed (simp add: retM_run)

end
