(* ===== verification/SimpleSender.thy ===== *)
theory SimpleSender
  imports Network
begin

text \<open>
  The best-effort sender (\<open>src/hotstuff/network/src/simple_sender.rs\<close>).  A connection takes commands
  from its channel: \<open>Feed\<close> hands a frame to the buffered writer, \<open>Flush\<close> pushes what is buffered to
  the socket, \<open>Send\<close> does both.  A failure ends the connection's task and loses its channel; the
  sender notices when it next uses the address and starts a new connection.  A refused connection
  keeps its channel open for ten seconds, and what is sent meanwhile is lost.
\<close>

datatype Command = Send bytes | Feed bytes | Flush

datatype sc_mode = Dialing | Cooling | Open | Closed

record SimpleConnection =
  sc_address :: SocketAddr
  sc_receiver :: "Command list"
  sc_staged :: "bytes list"
  sc_wire :: "bytes list"
  sc_mode :: sc_mode

definition SimpleConnection_new :: "SocketAddr \<Rightarrow> SimpleConnection" where
  "SimpleConnection_new a = \<lparr>sc_address = a, sc_receiver = [], sc_staged = [], sc_wire = [],
    sc_mode = Dialing\<rparr>"

datatype sc_event = Dialed | Refused | Cooled | NextCommand bool | Incoming bool

fun sc_command :: "Command \<Rightarrow> SimpleConnection \<Rightarrow> SimpleConnection" where
  "sc_command (Send x) c = c\<lparr>sc_wire := sc_wire c @ sc_staged c @ [x], sc_staged := []\<rparr>"
| "sc_command (Feed x) c = c\<lparr>sc_staged := sc_staged c @ [x]\<rparr>"
| "sc_command Flush c = c\<lparr>sc_wire := sc_wire c @ sc_staged c, sc_staged := []\<rparr>"

text \<open>One turn of \<open>run\<close>; the flag says whether the write, or the read of a reply, succeeded.\<close>

definition sc_step :: "sc_event \<Rightarrow> SimpleConnection \<Rightarrow> SimpleConnection option" where
  "sc_step e c = (case (sc_mode c, e) of
      (Dialing, Dialed) \<Rightarrow> Some (c\<lparr>sc_mode := Open\<rparr>)
    | (Dialing, Refused) \<Rightarrow> Some (c\<lparr>sc_mode := Cooling\<rparr>)
    | (Cooling, Cooled) \<Rightarrow> Some (c\<lparr>sc_mode := Closed\<rparr>)
    | (Open, NextCommand ok) \<Rightarrow> (case sc_receiver c of
        [] \<Rightarrow> None
      | cmd # cmds \<Rightarrow>
          let c1 = c\<lparr>sc_receiver := cmds\<rparr> in
          Some (if ok then sc_command cmd c1 else c1\<lparr>sc_mode := Closed\<rparr>))
    | (Open, Incoming ok) \<Rightarrow> Some (if ok then c else c\<lparr>sc_mode := Closed\<rparr>)
    | _ \<Rightarrow> None)"

text \<open>The sender: one connection per address; the shuffle of the \<open>rand\<close> crate is a parameter.\<close>

type_synonym SimpleSender = "(SocketAddr \<times> SimpleConnection) list"

definition ss_execute :: "SocketAddr \<Rightarrow> Command \<Rightarrow> SimpleSender \<Rightarrow> SimpleSender" where
  "ss_execute a cmd ss =
    (let fresh = AList.update a ((SimpleConnection_new a)\<lparr>sc_receiver := [cmd]\<rparr>) ss in
     case map_of ss a of
       Some c \<Rightarrow> if sc_mode c \<noteq> Closed
         then AList.update a (c\<lparr>sc_receiver := sc_receiver c @ [cmd]\<rparr>) ss else fresh
     | None \<Rightarrow> fresh)"

definition ss_send :: "SocketAddr \<Rightarrow> bytes \<Rightarrow> SimpleSender \<Rightarrow> SimpleSender" where
  "ss_send a data = ss_execute a (Send data)"

definition ss_feed :: "SocketAddr \<Rightarrow> bytes \<Rightarrow> SimpleSender \<Rightarrow> SimpleSender" where
  "ss_feed a data = ss_execute a (Feed data)"

definition ss_flush :: "SocketAddr \<Rightarrow> SimpleSender \<Rightarrow> SimpleSender" where
  "ss_flush a = ss_execute a Flush"

definition ss_broadcast :: "SocketAddr list \<Rightarrow> bytes \<Rightarrow> SimpleSender \<Rightarrow> SimpleSender" where
  "ss_broadcast as data = fold (\<lambda>a. ss_send a data) as"

definition ss_broadcast_feed :: "SocketAddr list \<Rightarrow> bytes \<Rightarrow> SimpleSender \<Rightarrow> SimpleSender" where
  "ss_broadcast_feed as data = fold (\<lambda>a. ss_feed a data) as"

definition ss_broadcast_flush :: "SocketAddr list \<Rightarrow> SimpleSender \<Rightarrow> SimpleSender" where
  "ss_broadcast_flush as = fold ss_flush as"

definition ss_lucky_broadcast :: "(SocketAddr list \<Rightarrow> SocketAddr list) \<Rightarrow> SocketAddr list \<Rightarrow> bytes \<Rightarrow> nat
    \<Rightarrow> SimpleSender \<Rightarrow> SimpleSender" where
  "ss_lucky_broadcast shuffle as data nodes = ss_broadcast (take nodes (shuffle as)) data"

definition ss_lucky_broadcast_feed :: "(SocketAddr list \<Rightarrow> SocketAddr list) \<Rightarrow> SocketAddr list \<Rightarrow> bytes
    \<Rightarrow> nat \<Rightarrow> SimpleSender \<Rightarrow> SimpleSender" where
  "ss_lucky_broadcast_feed shuffle as data nodes = ss_broadcast_feed (take nodes (shuffle as)) data"

text \<open>The calls other tasks make, as values; \<open>net_exec\<close> is what the sender does for each.\<close>

datatype net_op =
    NetSend SocketAddr bytes
  | NetFeed SocketAddr bytes
  | NetFlush SocketAddr
  | NetBroadcast "SocketAddr list" bytes
  | NetBroadcastFeed "SocketAddr list" bytes
  | NetBroadcastFlush "SocketAddr list"
  | NetLuckyFeed "SocketAddr list" bytes nat

fun net_exec :: "(SocketAddr list \<Rightarrow> SocketAddr list) \<Rightarrow> net_op \<Rightarrow> SimpleSender \<Rightarrow> SimpleSender" where
  "net_exec shuffle (NetSend a data) = ss_send a data"
| "net_exec shuffle (NetFeed a data) = ss_feed a data"
| "net_exec shuffle (NetFlush a) = ss_flush a"
| "net_exec shuffle (NetBroadcast as data) = ss_broadcast as data"
| "net_exec shuffle (NetBroadcastFeed as data) = ss_broadcast_feed as data"
| "net_exec shuffle (NetBroadcastFlush as) = ss_broadcast_flush as"
| "net_exec shuffle (NetLuckyFeed as data nodes) = ss_lucky_broadcast_feed shuffle as data nodes"

section \<open>Order and loss\<close>

fun payloads :: "Command list \<Rightarrow> bytes list" where
  "payloads [] = []"
| "payloads (Send x # cs) = x # payloads cs"
| "payloads (Feed x # cs) = x # payloads cs"
| "payloads (Flush # cs) = payloads cs"

lemma payloads_append [simp]: "payloads (xs @ ys) = payloads xs @ payloads ys"
  by (induction xs rule: payloads.induct) auto

text \<open>
  While a connection lives, what was submitted to it is on the wire, staged, or still in its channel,
  in this order; nothing is reordered or repeated.
\<close>

definition sc_data :: "SimpleConnection \<Rightarrow> bytes list" where
  "sc_data c = sc_wire c @ sc_staged c @ payloads (sc_receiver c)"

lemma sc_step_data:
  assumes "sc_step e c = Some c'" "sc_mode c' \<noteq> Closed"
  shows "sc_data c' = sc_data c"
proof (cases "\<exists>cmd cmds. sc_mode c = Open \<and> e = NextCommand True \<and> sc_receiver c = cmd # cmds")
  case True
  then obtain cmd cmds where "sc_mode c = Open" "e = NextCommand True" "sc_receiver c = cmd # cmds"
    by blast
  then show ?thesis
    using assms by (cases cmd) (auto simp: sc_step_def sc_data_def)
next
  case False
  then show ?thesis
    using assms by (auto simp: sc_step_def sc_data_def Let_def
        split: sc_mode.splits sc_event.splits list.splits if_splits)
qed

lemma sc_step_wire: "sc_step e c = Some c' \<Longrightarrow> prefix (sc_wire c) (sc_wire c')"
  by (cases "hd (sc_receiver c)")
    (auto simp: sc_step_def Let_def split: sc_mode.splits sc_event.splits list.splits if_splits)

lemma ss_execute_other: "b \<noteq> a \<Longrightarrow> map_of (ss_execute a cmd ss) b = map_of ss b"
  by (auto simp: ss_execute_def Let_def update_conv' split: option.splits)

lemma ss_execute_same:
  "\<exists>c. map_of (ss_execute a cmd ss) a = Some c \<and> sc_mode c \<noteq> Closed \<and>
    (\<exists>cmds. sc_receiver c = cmds @ [cmd])"
  by (auto simp: ss_execute_def SimpleConnection_new_def Let_def update_conv' split: option.splits)

lemma ss_broadcast_reaches:
  "a \<in> set as \<Longrightarrow> \<exists>c. map_of (ss_broadcast as data ss) a = Some c \<and> sc_mode c \<noteq> Closed \<and>
    data \<in> set (payloads (sc_receiver c))"
proof (induction as arbitrary: ss rule: rev_induct)
  case (snoc b as)
  show ?case
  proof (cases "a = b")
    case True
    then show ?thesis
      using ss_execute_same [of b "Send data" "ss_broadcast as data ss"]
      by (fastforce simp: ss_broadcast_def ss_send_def)
  next
    case False
    then show ?thesis
      using snoc by (auto simp: ss_broadcast_def ss_send_def ss_execute_other)
  qed
qed simp

end
