(* ===== verification/Receiver.thy ===== *)
theory Receiver
  imports Wire
begin

text \<open>
  The network receiver (\<open>src/hotstuff/network/src/receiver.rs\<close>).  A runner per connection reads
  frames; it checks the version of the envelope, looks up the handler of the validator in a table that
  other tasks may change between two frames, and lets the handler dispatch the message.  Any fault
  ends the connection.  The handler type and its \<open>dispatch\<close> are arguments, as the trait
  \<open>MessageHandler\<close> is a type parameter in the source; the consensus, mempool and transaction handlers
  are in the theories of their tasks.
\<close>

definition ascii :: "string \<Rightarrow> bytes" where
  "ascii s = map of_char s"

datatype 'd rx_out = Reply bytes | Deliver 'd | SleepSecs nat

datatype rx_end = PeerClosed | Killed | HandlerPanicked string

definition INVALID_MESSAGE_DELAY :: nat where
  "INVALID_MESSAGE_DELAY = 10"

type_synonym ('h, 'd) dispatcher = "'h \<Rightarrow> bytes \<Rightarrow> (lib_error, unit) outcome \<times> 'd rx_out list"

text \<open>One frame: \<open>None\<close> says that the loop goes on.\<close>

definition rx_frame :: "hs_lib \<Rightarrow> ('h, 'd) dispatcher \<Rightarrow> (u64 \<rightharpoonup> 'h) \<Rightarrow> bytes option
    \<Rightarrow> rx_end option \<times> 'd rx_out list" where
  "rx_frame L dispatch handler_map frame = (case frame of
      None \<Rightarrow> (Some Killed, [])
    | Some data \<Rightarrow> (case de_dvf L data of
        Inl e \<Rightarrow> (Some Killed, [Reply (ascii ''Invalid message''), SleepSecs INVALID_MESSAGE_DELAY])
      | Inr dvf_message \<Rightarrow>
          if version dvf_message \<noteq> VERSION
          then (Some Killed, [Reply (ascii ''Version mismatch''), SleepSecs INVALID_MESSAGE_DELAY])
          else case handler_map (validator_id dvf_message) of
            None \<Rightarrow> (Some Killed, [Reply (ascii ''No handler found''), SleepSecs INVALID_MESSAGE_DELAY])
          | Some handler \<Rightarrow> (case dispatch handler (message dvf_message) of
              (Ok _, out) \<Rightarrow> (None, out)
            | (Err _, out) \<Rightarrow> (Some Killed, out)
            | (Panic p, out) \<Rightarrow> (Some (HandlerPanicked p), out)
            | (Diverge, out) \<Rightarrow> (Some Killed, out))))"

fun rx_run :: "hs_lib \<Rightarrow> ('h, 'd) dispatcher \<Rightarrow> ((u64 \<rightharpoonup> 'h) \<times> bytes option) list
    \<Rightarrow> rx_end \<times> 'd rx_out list" where
  "rx_run L dispatch [] = (PeerClosed, [])"
| "rx_run L dispatch ((handler_map, frame) # fs) = (case rx_frame L dispatch handler_map frame of
      (Some e, out) \<Rightarrow> (e, out)
    | (None, out) \<Rightarrow> (let (e, out') = rx_run L dispatch fs in (e, out @ out')))"

fun delivered_by :: "'d rx_out list \<Rightarrow> 'd list" where
  "delivered_by [] = []"
| "delivered_by (Deliver d # os) = d # delivered_by os"
| "delivered_by (_ # os) = delivered_by os"

lemma delivered_by_append [simp]: "delivered_by (xs @ ys) = delivered_by xs @ delivered_by ys"
  by (induction xs rule: delivered_by.induct) auto

text \<open>A frame is delivered only to the handler of the validator its envelope names.\<close>

lemma rx_frame_delivers:
  assumes "d \<in> set (delivered_by (snd (rx_frame L dispatch hm frame)))"
  shows "\<exists>data m h. frame = Some data \<and> de_dvf L data = Inr m \<and> version m = VERSION \<and>
    hm (validator_id m) = Some h \<and> d \<in> set (delivered_by (snd (dispatch h (message m))))"
  using assms by (auto simp: rx_frame_def split: option.splits sum.splits if_splits prod.splits outcome.splits)

lemma rx_run_delivers:
  "d \<in> set (delivered_by (snd (rx_run L dispatch fs))) \<Longrightarrow>
    \<exists>(hm, frame) \<in> set fs. d \<in> set (delivered_by (snd (rx_frame L dispatch hm frame)))"
proof (induction L dispatch fs rule: rx_run.induct)
  case (2 L dispatch hm frame fs)
  obtain e out where r: "rx_frame L dispatch hm frame = (e, out)" by (cases "rx_frame L dispatch hm frame")
  show ?case
  proof (cases "d \<in> set (delivered_by out)")
    case True
    with r show ?thesis by auto
  next
    case False
    with 2(2) r have "e = None" "d \<in> set (delivered_by (snd (rx_run L dispatch fs)))"
      by (auto split: option.splits prod.splits)
    with 2(1) [OF r [symmetric]] show ?thesis by auto
  qed
qed simp

lemma rx_frame_dispatches:
  assumes "de_dvf L data = Inr \<lparr>version = VERSION, validator_id = vid, message = m\<rparr>"
    and "hm vid = Some h" "dispatch h m = (Ok (), out)"
  shows "rx_frame L dispatch hm (Some data) = (None, out)"
  using assms by (simp add: rx_frame_def)

end
