(* ===== verification/ConsensusTasks.thy ===== *)
theory ConsensusTasks
  imports Core SimpleSender Receiver
begin

text \<open>
  The tasks around the consensus core: the proposer (\<open>proposer.rs\<close>), the helper that answers
  synchronisation requests (\<open>helper.rs\<close>), the handler of incoming messages and the wiring of the tasks
  (\<open>consensus.rs\<close>), the background task of the synchronizer (\<open>synchronizer.rs\<close>) and the payload
  waiter (\<open>mempool.rs\<close>).  Each task is an action on its own state; what it sends is appended to an
  output list.  A hash set that is drained in arbitrary order is a list without repetitions.  An event
  that the task cannot be waiting for (a future that does not exist) changes nothing.
\<close>

section \<open>The proposer\<close>

datatype proposer_out = PropNet net_op | PropLoopback Block

record Proposer =
  prop_name :: PublicKey
  prop_committee :: Committee
  prop_secret :: SecretKey
  prop_buffer :: "Digest list"
  prop_validator_id :: u64
  prop_core_up :: bool
  prop_out :: "proposer_out list"

type_synonym 'a proposer_act = "(Proposer, ConsensusError, 'a) act"

definition Proposer_spawn :: "PublicKey \<Rightarrow> Committee \<Rightarrow> SecretKey \<Rightarrow> u64 \<Rightarrow> Proposer" where
  "Proposer_spawn name c secret vid = \<lparr>prop_name = name, prop_committee = c, prop_secret = secret,
    prop_buffer = [], prop_validator_id = vid, prop_core_up = True, prop_out = []\<rparr>"

definition prop_emit :: "proposer_out \<Rightarrow> unit proposer_act" where
  "prop_emit e = modM (\<lambda>s. s\<lparr>prop_out := prop_out s @ [e]\<rparr>)"

definition drain_buffer :: "Digest list proposer_act" where
  "drain_buffer = bindM (getM prop_buffer) (\<lambda>ds. thenM (modM (\<lambda>s. s\<lparr>prop_buffer := []\<rparr>)) (retM ds))"

text \<open>The loopback channel is closed once the core's task has ended.\<close>

definition make_block :: "hs_lib \<Rightarrow> Round \<Rightarrow> QC \<Rightarrow> TC option \<Rightarrow> unit proposer_act" where
  "make_block L round qc tc =
    bindM drain_buffer (\<lambda>payload.
    bindM (getM id) (\<lambda>s.
    bindM (liftO (Block_new L (prop_secret s) qc tc (prop_name s) round payload)) (\<lambda>block.
    bindM (liftO (seal_msg L (prop_validator_id s) (Propose block) ''Failed to serialize block'')) (\<lambda>wire.
    thenM (prop_emit (PropNet (NetBroadcast
      (map snd (broadcast_addresses (prop_committee s) (prop_name s))) wire)))
    (if prop_core_up s then prop_emit (PropLoopback block)
     else liftO (Panic ''Failed to send block''))))))"

datatype proposer_event = NewDigest Digest | ProposerMsg ProposerMessage

fun proposer_step :: "hs_lib \<Rightarrow> proposer_event \<Rightarrow> unit proposer_act" where
  "proposer_step L (NewDigest digest) = modM (\<lambda>s.
    if digest \<in> set (prop_buffer s) then s else s\<lparr>prop_buffer := prop_buffer s @ [digest]\<rparr>)"
| "proposer_step L (ProposerMsg (Make round qc tc)) = make_block L round qc tc"
| "proposer_step L (ProposerMsg (Cleanup digests)) =
    forM digests (\<lambda>x. modM (\<lambda>s. s\<lparr>prop_buffer := remove1 x (prop_buffer s)\<rparr>))"

definition proposer_run :: "hs_lib \<Rightarrow> proposer_event list \<Rightarrow> unit proposer_act" where
  "proposer_run L es = forM es (proposer_step L)"

section \<open>The helper\<close>

definition helper_request :: "hs_lib \<Rightarrow> Committee \<Rightarrow> u64 \<Rightarrow> store_state \<Rightarrow> Digest \<Rightarrow> PublicKey
    \<Rightarrow> (ConsensusError, net_op list) outcome" where
  "helper_request L c vid st digest origin = (case address c origin of
      None \<Rightarrow> Ok []
    | Some a \<Rightarrow>
        bindO (unwrap_sum (store_read (rocks L) digest st) ''Failed to read from storage'') (\<lambda>r. case r of
          None \<Rightarrow> Ok []
        | Some bytes \<Rightarrow>
            bindO (unwrap_sum (de_block L bytes) ''Failed to deserialize our own block'') (\<lambda>block.
            bindO (seal_msg L vid (Propose block) ''Failed to serialize block'') (\<lambda>wire.
            Ok [NetSend a wire]))))"

section \<open>Incoming messages\<close>

text \<open>The two channels of the handler, and whether the tasks at their ends are running.\<close>

record ConsensusReceiverHandler =
  crh_core_up :: bool
  crh_helper_up :: bool

datatype crh_delivery = ToCore ConsensusMessage | ToHelper Digest PublicKey

definition consensus_dispatch :: "hs_lib \<Rightarrow> (ConsensusReceiverHandler, crh_delivery) dispatcher" where
  "consensus_dispatch L h serialized = (case de_msg L serialized of
      Inl e \<Rightarrow> (Err e, [])
    | Inr (SyncRequest missing origin) \<Rightarrow>
        if crh_helper_up h then (Ok (), [Deliver (ToHelper missing origin)])
        else (Panic ''Failed to send consensus message'', [])
    | Inr (Propose block) \<Rightarrow>
        if crh_core_up h then (Ok (), [Reply (ascii ''Ack''), Deliver (ToCore (Propose block))])
        else (Panic ''Failed to consensus message'', [Reply (ascii ''Ack'')])
    | Inr m \<Rightarrow>
        if crh_core_up h then (Ok (), [Deliver (ToCore m)])
        else (Panic ''Failed to consensus message'', []))"

section \<open>The background task of the synchronizer\<close>

definition TIMER_ACCURACY :: u64 where "TIMER_ACCURACY = 5000"

datatype sync_out = SyncNet net_op | SyncLoopback Block

text \<open>
  \<open>sy_waiting\<close> holds the futures of \<open>waiter\<close>: the digest waited for and the block to deliver.
  \<open>sy_requests\<close> maps a requested digest to the time (ms) of its last request.
\<close>

record Synchronizer =
  sy_name :: PublicKey
  sy_committee :: Committee
  sy_retry_delay :: u64
  sy_validator_id :: u64
  sy_core_up :: bool
  sy_waiting :: "(Digest \<times> Block) list"
  sy_pending :: "Digest set"
  sy_requests :: "(Digest \<times> nat) list"
  sy_out :: "sync_out list"

type_synonym 'a sync_act = "(Synchronizer, ConsensusError, 'a) act"

definition Synchronizer_new :: "PublicKey \<Rightarrow> Committee \<Rightarrow> u64 \<Rightarrow> u64 \<Rightarrow> Synchronizer" where
  "Synchronizer_new name c delay vid = \<lparr>sy_name = name, sy_committee = c, sy_retry_delay = delay,
    sy_validator_id = vid, sy_core_up = True, sy_waiting = [], sy_pending = {}, sy_requests = [],
    sy_out = []\<rparr>"

definition sy_emit :: "sync_out \<Rightarrow> unit sync_act" where
  "sy_emit e = modM (\<lambda>s. s\<lparr>sy_out := sy_out s @ [e]\<rparr>)"

text \<open>What a waiter returns for the answer of the store, or for none within twenty seconds.\<close>

fun sync_waiter :: "Digest \<Rightarrow> Block \<Rightarrow> (StoreError + bytes) option \<Rightarrow> ConsensusError + Block" where
  "sync_waiter wait_on deliver (Some (Inr _)) = Inr deliver"
| "sync_waiter wait_on deliver (Some (Inl e)) = Inl (CStoreError e)"
| "sync_waiter wait_on deliver None = Inl (StoreReadTimeout wait_on deliver)"

definition sync_request :: "hs_lib \<Rightarrow> nat \<Rightarrow> Block \<Rightarrow> unit sync_act" where
  "sync_request L now block =
    bindM (getM id) (\<lambda>s.
    whenM (map_of (sy_requests s) (parent block) = None)
      (thenM (modM (\<lambda>s. s\<lparr>sy_requests := AList.update (parent block) now (sy_requests s)\<rparr>))
      (case address (sy_committee s) (blk_author block) of
        None \<Rightarrow> liftO (Panic ''Author of valid block is not in the committee'')
      | Some a \<Rightarrow>
          bindM (liftO (seal_msg L (sy_validator_id s) (SyncRequest (parent block) (sy_name s))
            ''Failed to serialize sync request'')) (\<lambda>wire.
          sy_emit (SyncNet (NetFeed a wire))))))"

definition sync_block :: "hs_lib \<Rightarrow> nat \<Rightarrow> Block \<Rightarrow> unit sync_act" where
  "sync_block L now block =
    bindM (getM sy_pending) (\<lambda>pending.
    if Block_digest L block \<in> pending then retM ()
    else
      thenM (modM (\<lambda>s. s\<lparr>sy_pending := insert (Block_digest L block) (sy_pending s),
        sy_waiting := sy_waiting s @ [(parent block, block)]\<rparr>))
      (sync_request L now block))"

definition sync_done :: "hs_lib \<Rightarrow> ConsensusError + Block \<Rightarrow> unit sync_act" where
  "sync_done L result = (case result of
      Inr block \<Rightarrow>
        thenM (modM (\<lambda>s. s\<lparr>sy_pending := sy_pending s - {Block_digest L block},
          sy_requests := AList.delete (parent block) (sy_requests s)\<rparr>))
        (bindM (getM sy_core_up) (\<lambda>up.
         if up then sy_emit (SyncLoopback block)
         else liftO (Panic ''Failed to send message through core channel'')))
    | Inl (StoreReadTimeout wait_on deliver) \<Rightarrow>
        modM (\<lambda>s. s\<lparr>sy_pending := sy_pending s - {Block_digest L deliver},
          sy_requests := AList.delete wait_on (sy_requests s)\<rparr>)
    | Inl _ \<Rightarrow> retM ())"

definition sync_retry :: "hs_lib \<Rightarrow> SocketAddr list \<Rightarrow> (Digest \<Rightarrow> nat) \<Rightarrow> Digest \<times> nat \<Rightarrow> unit sync_act" where
  "sync_retry L addresses now = (\<lambda>(digest, timestamp).
    bindM (getM id) (\<lambda>s.
    whenM (timestamp + unat (sy_retry_delay s) < now digest \<and> digest \<notin> sy_pending s)
      (bindM (liftO (seal_msg L (sy_validator_id s) (SyncRequest digest (sy_name s))
          ''Failed to serialize sync request'')) (\<lambda>wire.
       thenM (sy_emit (SyncNet (NetBroadcastFeed addresses wire)))
       (modM (\<lambda>s. s\<lparr>sy_requests := AList.update digest (now digest) (sy_requests s)\<rparr>))))))"

text \<open>The flag says whether the first flush ends within \<open>TIMER_ACCURACY\<close>.\<close>

definition sync_timer :: "hs_lib \<Rightarrow> bool \<Rightarrow> (Digest \<Rightarrow> nat) \<Rightarrow> unit sync_act" where
  "sync_timer L flushed now =
    bindM (getM id) (\<lambda>s.
    let addresses = map snd (broadcast_addresses (sy_committee s) (sy_name s)) in
    thenM (sy_emit (SyncNet (NetBroadcastFlush addresses)))
    (whenM flushed (thenM (forM (sy_requests s) (sync_retry L addresses now))
      (sy_emit (SyncNet (NetBroadcastFlush addresses))))))"

datatype sync_event =
    SyncBlock nat Block
  | WaiterDone nat "(StoreError + bytes) option"
  | SyncTimer bool "Digest \<Rightarrow> nat"

definition drop_nth :: "nat \<Rightarrow> 'a list \<Rightarrow> 'a list" where
  "drop_nth i xs = take i xs @ drop (Suc i) xs"

fun sync_step :: "hs_lib \<Rightarrow> sync_event \<Rightarrow> unit sync_act" where
  "sync_step L (SyncBlock now block) = sync_block L now block"
| "sync_step L (WaiterDone i answer) =
    bindM (getM sy_waiting) (\<lambda>w.
    whenM (i < length w)
      (thenM (modM (\<lambda>s. s\<lparr>sy_waiting := drop_nth i w\<rparr>))
        (sync_done L (sync_waiter (fst (w ! i)) (snd (w ! i)) answer))))"
| "sync_step L (SyncTimer flushed now) = sync_timer L flushed now"

definition sync_run :: "hs_lib \<Rightarrow> sync_event list \<Rightarrow> unit sync_act" where
  "sync_run L es = forM es (sync_step L)"

section \<open>The payload waiter\<close>

text \<open>
  A future of \<open>waiter\<close> reads every missing digest through its own sender of the store and joins the
  answers: the first error ends it, otherwise it delivers the block when all have come.
\<close>

fun join_reads :: "nat list \<Rightarrow> reply list \<Rightarrow> (StoreError + unit) option" where
  "join_reads [] rs = Some (Inr ())"
| "join_reads (s # ss) rs = (case (notify_read_result s rs, join_reads ss rs) of
      (Some (Inl e), _) \<Rightarrow> Some (Inl e)
    | (_, Some (Inl e)) \<Rightarrow> Some (Inl e)
    | (Some (Inr _), j) \<Rightarrow> j
    | (None, _) \<Rightarrow> None)"

record pw_future =
  pf_channel :: nat
  pf_missing :: "Digest list"
  pf_deliver :: Block
  pf_cancelled :: bool

record PayloadWaiter =
  pw_waiting :: "pw_future list"
  pw_pending :: "(Digest \<times> Round \<times> nat) list"
  pw_next :: nat
  pw_core_up :: bool
  pw_out :: "Block list"

type_synonym 'a pw_act = "(PayloadWaiter, ConsensusError, 'a) act"

definition PayloadWaiter_spawn :: PayloadWaiter where
  "PayloadWaiter_spawn = \<lparr>pw_waiting = [], pw_pending = [], pw_next = 0, pw_core_up = True, pw_out = []\<rparr>"

datatype pw_result = Joined "StoreError + unit" | CancelReceived

datatype pw_event = PwMessage PayloadWaiterMessage | PwDone nat pw_result

fun pw_message :: "hs_lib \<Rightarrow> PayloadWaiterMessage \<Rightarrow> unit pw_act" where
  "pw_message L (Wait missing block) = modM (\<lambda>s.
    if map_of (pw_pending s) (Block_digest L block) \<noteq> None then s
    else s\<lparr>pw_next := pw_next s + 1,
      pw_pending := AList.update (Block_digest L block) (blk_round block, pw_next s) (pw_pending s),
      pw_waiting := pw_waiting s @ [\<lparr>pf_channel = pw_next s, pf_missing = missing,
        pf_deliver = block, pf_cancelled = False\<rparr>]\<rparr>)"
| "pw_message L (WaiterCleanup round) = modM (\<lambda>s.
    let gone = (\<lambda>(_, _, ch). ch) ` set (filter (\<lambda>(_, r, _). r \<le> round) (pw_pending s)) in
    s\<lparr>pw_waiting := map (\<lambda>f. if pf_channel f \<in> gone then f\<lparr>pf_cancelled := True\<rparr> else f) (pw_waiting s),
      pw_pending := filter (\<lambda>(_, r, _). round < r) (pw_pending s)\<rparr>)"

definition pw_done :: "hs_lib \<Rightarrow> Block \<Rightarrow> pw_result \<Rightarrow> unit pw_act" where
  "pw_done L block r = (case r of
      Joined (Inr _) \<Rightarrow>
        thenM (modM (\<lambda>s. s\<lparr>pw_pending := AList.delete (Block_digest L block) (pw_pending s)\<rparr>))
        (bindM (getM pw_core_up) (\<lambda>up.
         if up then modM (\<lambda>s. s\<lparr>pw_out := pw_out s @ [block]\<rparr>)
         else liftO (Panic ''Failed to send consensus message'')))
    | Joined (Inl e) \<Rightarrow> retM ()
    | CancelReceived \<Rightarrow> retM ())"

fun pw_step :: "hs_lib \<Rightarrow> pw_event \<Rightarrow> unit pw_act" where
  "pw_step L (PwMessage m) = pw_message L m"
| "pw_step L (PwDone i r) =
    bindM (getM pw_waiting) (\<lambda>w.
    whenM (i < length w \<and> (r = CancelReceived \<longrightarrow> pf_cancelled (w ! i)))
      (thenM (modM (\<lambda>s. s\<lparr>pw_waiting := drop_nth i w\<rparr>)) (pw_done L (pf_deliver (w ! i)) r)))"

definition pw_run :: "hs_lib \<Rightarrow> pw_event list \<Rightarrow> unit pw_act" where
  "pw_run L es = forM es (pw_step L)"

section \<open>Wiring\<close>

record consensus_tasks =
  ct_handler :: ConsensusReceiverHandler
  ct_core :: core
  ct_proposer :: Proposer
  ct_synchronizer :: Synchronizer
  ct_payload_waiter :: PayloadWaiter

text \<open>The tasks of one validator's consensus instance, with the channels between them in place.\<close>

definition Consensus_spawn :: "PublicKey \<Rightarrow> Committee \<Rightarrow> Parameters \<Rightarrow> SecretKey \<Rightarrow> store_state \<Rightarrow> u64
    \<Rightarrow> (u64 \<rightharpoonup> ConsensusReceiverHandler) \<Rightarrow> consensus_tasks \<times> (u64 \<rightharpoonup> ConsensusReceiverHandler)" where
  "Consensus_spawn name c parameters secret st vid handlers =
    (let h = \<lparr>crh_core_up = True, crh_helper_up = True\<rparr> in
     (\<lparr>ct_handler = h, ct_core = Core_new name c secret st vid,
       ct_proposer = Proposer_spawn name c secret vid,
       ct_synchronizer = Synchronizer_new name c (sync_retry_delay parameters) vid,
       ct_payload_waiter = PayloadWaiter_spawn\<rparr>,
      handlers(vid \<mapsto> h)))"

end
