(* ===== verification/TaskProps.thy ===== *)
theory TaskProps
  imports Samples ConsensusTasks
begin

text \<open>
  The tasks around the core: lemmas and properties of the proposer, of the synchronizer's background
  task, of the payload waiter together with the store, of the helper, and of the path of a message
  from one node's sender to another node's core.
\<close>

section \<open>The proposer\<close>

fun proposed :: "proposer_out list \<Rightarrow> Digest list" where
  "proposed [] = []"
| "proposed (PropLoopback b # os) = blk_payload b @ proposed os"
| "proposed (PropNet _ # os) = proposed os"

fun received :: "proposer_event list \<Rightarrow> Digest list" where
  "received [] = []"
| "received (NewDigest d # es) = d # received es"
| "received (ProposerMsg _ # es) = received es"

fun cleaned :: "proposer_event list \<Rightarrow> Digest list" where
  "cleaned [] = []"
| "cleaned (ProposerMsg (Cleanup ds) # es) = ds @ cleaned es"
| "cleaned (_ # es) = cleaned es"

definition held :: "Proposer \<Rightarrow> Digest multiset" where
  "held p = mset (proposed (prop_out p)) + mset (prop_buffer p)"

lemma proposed_append [simp]: "proposed (xs @ ys) = proposed xs @ proposed ys"
  by (induction xs rule: proposed.induct) auto

lemma Block_new_payload: "Block_new L sk qc tc a r pl = Ok b \<Longrightarrow> blk_payload b = pl"
  by (auto simp: Block_new_def Let_def bindO_Ok_iff)

lemma make_block_run:
  "make_block L r qc tc p = (let p1 = p\<lparr>prop_buffer := []\<rparr> in
    case Block_new L (prop_secret p) qc tc (prop_name p) r (prop_buffer p) of
      Ok b \<Rightarrow> (case seal_msg L (prop_validator_id p) (Propose b) ''Failed to serialize block'' of
        Ok wire \<Rightarrow>
          let p2 = p1\<lparr>prop_out := prop_out p1 @ [PropNet (NetBroadcast
            (map snd (broadcast_addresses (prop_committee p) (prop_name p))) wire)]\<rparr> in
          if prop_core_up p then (Ok (), p2\<lparr>prop_out := prop_out p2 @ [PropLoopback b]\<rparr>)
          else (Panic ''Failed to send block'', p2)
      | Err e \<Rightarrow> (Err e, p1) | Panic m \<Rightarrow> (Panic m, p1) | Diverge \<Rightarrow> (Diverge, p1))
    | Err e \<Rightarrow> (Err e, p1) | Panic m \<Rightarrow> (Panic m, p1) | Diverge \<Rightarrow> (Diverge, p1))"
  by (simp add: make_block_def drain_buffer_def prop_emit_def bindM_def thenM_def getM_def modM_def
      retM_def liftO_def Let_def split: outcome.split)

lemma make_block_held:
  assumes "make_block L r qc tc p = (res, p')"
  shows "held p' \<subseteq># held p \<and> (res = Ok () \<longrightarrow> held p' = held p)"
  using assms Block_new_payload
  by (fastforce simp: make_block_run held_def Let_def split: outcome.splits if_splits)

lemma cleanup_held:
  "forM ds (\<lambda>x. modM (\<lambda>s. s\<lparr>prop_buffer := remove1 x (prop_buffer s)\<rparr>)) p = (res, p') \<Longrightarrow>
    held p' \<subseteq># held p \<and> set_mset (held p) \<subseteq> set_mset (held p') \<union> set ds"
proof (induction ds arbitrary: p)
  case (Cons d ds)
  let ?p = "p\<lparr>prop_buffer := remove1 d (prop_buffer p)\<rparr>"
  have "held ?p \<subseteq># held p" "set_mset (held p) \<subseteq> insert d (set_mset (held ?p))"
    by (auto simp: held_def in_diff_count subset_mset.add_left_mono)
  moreover have "held p' \<subseteq># held ?p \<and> set_mset (held ?p) \<subseteq> set_mset (held p') \<union> set ds"
    using Cons by (simp add: act_simps thenM_Ok [where m = "modM _"])
  ultimately show ?case by (auto intro: subset_mset.order_trans)
qed (simp add: act_simps)

lemma proposer_step_held:
  assumes "proposer_step L e p = (res, p')"
  shows "held p' \<subseteq># held p + mset (received [e])"
    and "res = Ok () \<Longrightarrow> set_mset (held p) \<union> set (received [e]) \<subseteq> set_mset (held p') \<union> set (cleaned [e])"
proof (atomize(full), cases "(L, e)" rule: proposer_step.cases)
  case (1 L d)
  then show "held p' \<subseteq># held p + mset (received [e]) \<and> (res = Ok () \<longrightarrow>
      set_mset (held p) \<union> set (received [e]) \<subseteq> set_mset (held p') \<union> set (cleaned [e]))"
    using assms by (auto simp: held_def act_simps split: if_splits)
next
  case (2 L r qc tc)
  then show "held p' \<subseteq># held p + mset (received [e]) \<and> (res = Ok () \<longrightarrow>
      set_mset (held p) \<union> set (received [e]) \<subseteq> set_mset (held p') \<union> set (cleaned [e]))"
    using assms make_block_held [of L r qc tc p res p'] by auto
next
  case (3 L ds)
  then show "held p' \<subseteq># held p + mset (received [e]) \<and> (res = Ok () \<longrightarrow>
      set_mset (held p) \<union> set (received [e]) \<subseteq> set_mset (held p') \<union> set (cleaned [e]))"
    using assms cleanup_held [of ds p res p'] by auto
qed

lemma received_Cons: "received (e # es) = received [e] @ received es"
  by (cases e) auto

lemma cleaned_Cons: "cleaned (e # es) = cleaned [e] @ cleaned es"
  by (cases "e # es" rule: cleaned.cases) auto

lemma proposer_run_held:
  "proposer_run L es p = (res, p') \<Longrightarrow> held p' \<subseteq># held p + mset (received es) \<and>
    (res = Ok () \<longrightarrow> set_mset (held p) \<union> set (received es) \<subseteq> set_mset (held p') \<union> set (cleaned es))"
proof (induction es arbitrary: p)
  case (Cons e es)
  have sub: "held p' \<subseteq># held p + mset (received (e # es))"
    if "held p' \<subseteq># held p1 + mset (received es)" "held p1 \<subseteq># held p + mset (received [e])" for p1
  proof -
    note that(1)
    also have "held p1 + mset (received es) \<subseteq># held p + mset (received [e]) + mset (received es)"
      by (rule subset_mset.add_right_mono [OF that(2)])
    finally show ?thesis by (subst received_Cons) (simp add: add.assoc)
  qed
  from Cons(2) have "thenM (proposer_step L e) (proposer_run L es) p = (res, p')"
    by (simp add: proposer_run_def)
  then show ?case
  proof (cases rule: thenM_cases)
    case (1 a p1)
    have r: "held p1 \<subseteq># held p + mset (received [e])"
      "set_mset (held p) \<union> set (received [e]) \<subseteq> set_mset (held p1) \<union> set (cleaned [e])"
      using proposer_step_held [OF 1(1)] by auto
    from Cons(1) [OF 1(2)] sub [of p1, OF _ r(1)] r(2) show ?thesis
      by (auto simp: received_Cons [of e es] cleaned_Cons [of e es])
  qed (use sub [of p'] proposer_step_held(1) [of L e p] in simp_all)
qed (simp add: proposer_run_def act_simps)

section \<open>The synchronizer\<close>

definition waited :: "hs_lib \<Rightarrow> Synchronizer \<Rightarrow> Digest list" where
  "waited L s = map (Block_digest L \<circ> snd) (sy_waiting s)"

definition sync_inv :: "hs_lib \<Rightarrow> Synchronizer \<Rightarrow> bool" where
  "sync_inv L s \<longleftrightarrow> distinct (waited L s) \<and> set (waited L s) \<subseteq> sy_pending s"

fun looped :: "hs_lib \<Rightarrow> Digest \<Rightarrow> sync_out list \<Rightarrow> Block list" where
  "looped L d [] = []"
| "looped L d (SyncLoopback b # os) = (if Block_digest L b = d then b # looped L d os else looped L d os)"
| "looped L d (SyncNet _ # os) = looped L d os"

text \<open>A digest that is marked as pending although no waiter is left for it.\<close>

definition stuck :: "hs_lib \<Rightarrow> Digest \<Rightarrow> Synchronizer \<Rightarrow> bool" where
  "stuck L d s \<longleftrightarrow> d \<in> sy_pending s \<and> d \<notin> set (waited L s)"

definition stays_stuck :: "hs_lib \<Rightarrow> Digest \<Rightarrow> Synchronizer \<Rightarrow> Synchronizer \<Rightarrow> bool" where
  "stays_stuck L d s s' \<longleftrightarrow> (stuck L d s \<longrightarrow> stuck L d s' \<and> looped L d (sy_out s') = looped L d (sy_out s))"

interpretation si: state_invariant "sync_inv L" for L .

interpretation sk: state_preorder "stays_stuck L d" for L d
  by unfold_locales (auto simp: stays_stuck_def)

lemma looped_append [simp]: "looped L d (xs @ ys) = looped L d xs @ looped L d ys"
  by (induction xs rule: looped.induct) auto

lemma set_drop_nth: "set (drop_nth i xs) \<subseteq> set xs"
  by (auto simp: drop_nth_def dest: in_set_takeD in_set_dropD)

lemma map_drop_nth: "map f (drop_nth i xs) = drop_nth i (map f xs)"
  by (simp add: drop_nth_def take_map drop_map)

lemma distinct_drop_nth:
  assumes "distinct xs" "i < length xs"
  shows "distinct (drop_nth i xs)" "xs ! i \<notin> set (drop_nth i xs)"
proof -
  have "distinct (take i xs @ xs ! i # drop (Suc i) xs)"
    using assms by (simp add: id_take_nth_drop [symmetric])
  then show "distinct (drop_nth i xs)" "xs ! i \<notin> set (drop_nth i xs)"
    by (auto simp: drop_nth_def)
qed

lemma sy_emit_keeps:
  "keeps (inv_rel (sync_inv L)) (sy_emit (SyncNet x))" "keeps (stays_stuck L d) (sy_emit (SyncNet x))"
  by (auto simp: keeps_def sy_emit_def act_simps inv_rel_def sync_inv_def waited_def stays_stuck_def stuck_def)

lemma requests_keeps:
  "keeps (inv_rel (sync_inv L)) (modM (\<lambda>s. s\<lparr>sy_requests := f s\<rparr>))"
  "keeps (stays_stuck L d) (modM (\<lambda>s. s\<lparr>sy_requests := f s\<rparr>))"
  by (auto simp: keeps_def act_simps inv_rel_def sync_inv_def waited_def stays_stuck_def stuck_def)

lemma sync_timer_keeps:
  "keeps (inv_rel (sync_inv L)) (sync_timer L' flushed now)" "keeps (stays_stuck L d) (sync_timer L' flushed now)"
  unfolding sync_timer_def sync_retry_def Let_def
  by (intro si.keeps_rules sk.keeps_rules sy_emit_keeps requests_keeps; simp add: split_def;
      intro si.keeps_rules sk.keeps_rules sy_emit_keeps requests_keeps)+

text \<open>Handing over a block whose digest is pending does nothing at all.\<close>

lemma sync_block_pending: "Block_digest L b \<in> sy_pending s \<Longrightarrow> sync_block L now b s = (Ok (), s)"
  by (simp add: sync_block_def act_simps)

lemma sync_block_new:
  "Block_digest L b \<notin> sy_pending s \<Longrightarrow> sync_block L now b s = sync_request L now b
    (s\<lparr>sy_pending := insert (Block_digest L b) (sy_pending s), sy_waiting := sy_waiting s @ [(parent b, b)]\<rparr>)"
  by (simp add: sync_block_def act_simps thenM_def)

lemma sync_request_keeps:
  "keeps (inv_rel (sync_inv L)) (sync_request L' now b)" "keeps (stays_stuck L d) (sync_request L' now b)"
  unfolding sync_request_def
  by (intro si.keeps_rules sk.keeps_rules sy_emit_keeps requests_keeps)+

lemma sync_block_keeps:
  "keeps (inv_rel (sync_inv L)) (sync_block L now b)" "keeps (stays_stuck L d) (sync_block L now b)"
proof -
  let ?f = "\<lambda>s. s\<lparr>sy_pending := insert (Block_digest L b) (sy_pending s), sy_waiting := sy_waiting s @ [(parent b, b)]\<rparr>"
  have "inv_rel (sync_inv L) s (?f s)" "stays_stuck L d s (?f s)" if "Block_digest L b \<notin> sy_pending s" for s
    using that by (auto simp: inv_rel_def sync_inv_def waited_def stays_stuck_def stuck_def)
  then show "keeps (inv_rel (sync_inv L)) (sync_block L now b)" "keeps (stays_stuck L d) (sync_block L now b)"
    using sync_request_keeps [where L = L and L' = L and now = now and b = b]
    unfolding keeps_def
    by (metis (no_types, lifting) si.R_refl si.R_trans snd_conv sync_block_new sync_block_pending,
        metis (no_types, lifting) sk.R_refl sk.R_trans snd_conv sync_block_new sync_block_pending)
qed

lemma sync_WaiterDone:
  "sync_step L (WaiterDone i ans) s = (if i < length (sy_waiting s)
    then sync_done L (sync_waiter (fst (sy_waiting s ! i)) (snd (sy_waiting s ! i)) ans)
      (s\<lparr>sy_waiting := drop_nth i (sy_waiting s)\<rparr>) else (Ok (), s))"
  by (simp add: sync_step.simps act_simps thenM_def)

declare sync_step.simps(2) [simp del]

lemma sync_done_state:
  "sy_waiting (snd (sync_done L r s)) = sy_waiting s"
  "sy_pending (snd (sync_done L r s)) = (case r of Inr b \<Rightarrow> sy_pending s - {Block_digest L b}
    | Inl (StoreReadTimeout _ b) \<Rightarrow> sy_pending s - {Block_digest L b} | Inl _ \<Rightarrow> sy_pending s)"
  "looped L d (sy_out (snd (sync_done L r s))) = looped L d (sy_out s) @
    (case r of Inr b \<Rightarrow> if sy_core_up s \<and> Block_digest L b = d then [b] else [] | Inl _ \<Rightarrow> [])"
  by (auto simp: sync_done_def sy_emit_def act_simps thenM_def split: sum.splits ConsensusError.splits)

lemma waited_drop: "waited L (s\<lparr>sy_waiting := drop_nth i (sy_waiting s)\<rparr>) = drop_nth i (waited L s)"
  by (simp add: waited_def map_drop_nth)

lemma waited_nth: "i < length (sy_waiting s) \<Longrightarrow> Block_digest L (snd (sy_waiting s ! i)) = waited L s ! i"
  by (simp add: waited_def)

lemma waited_done: "waited L (snd (sync_done L r s)) = waited L s"
  by (simp add: waited_def sync_done_state)

lemma sync_WaiterDone_inv: "keeps (inv_rel (sync_inv L)) (sync_step L (WaiterDone i ans))"
  unfolding keeps_def inv_rel_def
proof (intro allI impI)
  fix s assume inv: "sync_inv L s"
  show "sync_inv L (snd (sync_step L (WaiterDone i ans) s))"
  proof (cases "i < length (sy_waiting s)")
    case True
    then have "i < length (waited L s)" by (simp add: waited_def)
    with inv have d: "distinct (drop_nth i (waited L s))" "waited L s ! i \<notin> set (drop_nth i (waited L s))"
      "set (drop_nth i (waited L s)) \<subseteq> sy_pending s"
      using distinct_drop_nth [of "waited L s" i] set_drop_nth [of i "waited L s"]
      by (auto simp: sync_inv_def)
    with True show ?thesis
      by (cases "(fst (sy_waiting s ! i), snd (sy_waiting s ! i), ans)" rule: sync_waiter.cases)
        (auto simp: sync_WaiterDone sync_inv_def waited_done waited_drop waited_nth sync_done_state)
  qed (use inv in \<open>simp add: sync_WaiterDone\<close>)
qed

lemma sync_WaiterDone_stuck: "keeps (stays_stuck L d) (sync_step L (WaiterDone i ans))"
  unfolding keeps_def stays_stuck_def
proof (intro allI impI)
  fix s assume st: "stuck L d s"
  show "stuck L d (snd (sync_step L (WaiterDone i ans) s)) \<and>
    looped L d (sy_out (snd (sync_step L (WaiterDone i ans) s))) = looped L d (sy_out s)"
  proof (cases "i < length (sy_waiting s)")
    case True
    then have "waited L s ! i \<in> set (waited L s)" by (simp add: waited_def)
    with st have d: "waited L s ! i \<noteq> d" "d \<notin> set (drop_nth i (waited L s))"
      using set_drop_nth [of i "waited L s"] by (auto simp: stuck_def)
    with True st show ?thesis
      by (cases "(fst (sy_waiting s ! i), snd (sy_waiting s ! i), ans)" rule: sync_waiter.cases)
        (auto simp: sync_WaiterDone stuck_def waited_done waited_drop waited_nth sync_done_state)
  qed (use st in \<open>simp add: sync_WaiterDone\<close>)
qed

lemma sync_run_keeps:
  "keeps (inv_rel (sync_inv L)) (sync_run L es)" "keeps (stays_stuck L d) (sync_run L es)"
proof -
  have "keeps (inv_rel (sync_inv L)) (sync_step L e)" "keeps (stays_stuck L d) (sync_step L e)" for e
    using sync_block_keeps sync_timer_keeps sync_WaiterDone_inv sync_WaiterDone_stuck
    by (cases e; simp)+
  then show "keeps (inv_rel (sync_inv L)) (sync_run L es)" "keeps (stays_stuck L d) (sync_run L es)"
    unfolding sync_run_def by (blast intro: si.keeps_for sk.keeps_for)+
qed

lemma sync_inv_new: "sync_inv L (Synchronizer_new name c delay vid)"
  by (simp add: sync_inv_def waited_def Synchronizer_new_def)

lemma sync_store_error:
  assumes "sync_inv L s" "i < length (sy_waiting s)"
  shows "stuck L (waited L s ! i) (snd (sync_step L (WaiterDone i (Some (Inl e))) s)) \<and>
    looped L d (sy_out (snd (sync_step L (WaiterDone i (Some (Inl e))) s))) = looped L d (sy_out s)"
proof -
  have i: "i < length (waited L s)" using assms(2) by (simp add: waited_def)
  with assms distinct_drop_nth [of "waited L s" i] nth_mem [OF i] show ?thesis
    by (auto simp: sync_inv_def sync_WaiterDone stuck_def waited_done waited_drop sync_done_state)
qed

section \<open>Payload and store\<close>

lemma join_reads_cases:
  assumes "\<forall>s \<in> set ss. notify_read_result s rs = None \<or> (\<exists>v. notify_read_result s rs = Some (Inr v))"
  shows "join_reads ss rs = (if \<forall>s \<in> set ss. notify_read_result s rs \<noteq> None then Some (Inr ()) else None)"
  using assms by (induction ss) (auto split: option.splits sum.splits)

lemma NotifyRead_live: "s \<notin> set ss \<Longrightarrow> c \<in> set (map2 NotifyRead ds ss) \<Longrightarrow> live_command s c \<and> quiet k s c"
  by (auto simp: live_command_def quiet_def dest: set_zip_rightD)

lemma payload_reader:
  assumes R: "rocks_ok R" and len: "length ds = length ss" and i: "i < length ss" and "distinct ss"
    and idle: "idle st (ds ! i) (ss ! i)" and live: "\<forall>c \<in> set cs. live_command (ss ! i) c"
  shows "case notify_read_result (ss ! i) (snd (store_run R (map2 NotifyRead ds ss @ cs) st)) of
      None \<Rightarrow> \<forall>v. Write (ds ! i) v \<notin> set cs
    | Some r \<Rightarrow> (\<exists>v. r = Inr v) \<and> (\<exists>v. Write (ds ! i) v \<in> set cs)"
proof -
  let ?pre = "map2 NotifyRead (take i ds) (take i ss)"
  let ?mid = "map2 NotifyRead (drop (Suc i) ds) (drop (Suc i) ss)"
  have "zip ds ss = zip (take i ds) (take i ss) @ (ds ! i, ss ! i) # zip (drop (Suc i) ds) (drop (Suc i) ss)"
    using len i by (metis id_take_nth_drop length_zip min.idem nth_zip take_zip drop_zip)
  then have split: "map2 NotifyRead ds ss @ cs = ?pre @ NotifyRead (ds ! i) (ss ! i) # (?mid @ cs)"
    by simp
  have "distinct (take i ss @ ss ! i # drop (Suc i) ss)"
    using i \<open>distinct ss\<close> by (simp add: id_take_nth_drop [symmetric])
  then have "ss ! i \<notin> set (take i ss)" "ss ! i \<notin> set (drop (Suc i) ss)" by auto
  then have "\<forall>c \<in> set ?pre. quiet (ds ! i) (ss ! i) c" "\<forall>c \<in> set (?mid @ cs). live_command (ss ! i) c"
    using NotifyRead_live live by (metis (no_types, lifting) Un_iff set_append)+
  from reader_answered_iff [OF R idle this] show ?thesis
    unfolding split by (auto split: option.splits dest: set_zip_leftD)
qed

section \<open>From sender to core\<close>

fun route :: "ConsensusMessage \<Rightarrow> crh_delivery" where
  "route (SyncRequest missing origin) = ToHelper missing origin"
| "route m = ToCore m"

lemma seal_msg_unseals:
  assumes "\<forall>m w. ser_msg L m = Inr w \<longrightarrow> de_msg L w = Inr m" "\<forall>m w. ser_dvf L m = Inr w \<longrightarrow> de_dvf L w = Inr m"
    and "seal_msg L vid msg err = Ok wire"
  obtains w where "de_dvf L wire = Inr \<lparr>version = VERSION, validator_id = vid, message = w\<rparr>" "de_msg L w = Inr msg"
  using assms by (auto simp: seal_msg_def bindO_Ok_iff unwrap_sum_def split: sum.splits)

lemma rx_frame_route:
  assumes "\<forall>m w. ser_msg L m = Inr w \<longrightarrow> de_msg L w = Inr m" "\<forall>m w. ser_dvf L m = Inr w \<longrightarrow> de_dvf L w = Inr m"
    and "seal_msg L vid msg err = Ok wire" "hm vid = Some h" "crh_core_up h" "crh_helper_up h"
  shows "\<exists>out. rx_frame L (consensus_dispatch L) hm (Some wire) = (None, out) \<and> delivered_by out = [route msg]"
proof -
  from assms(1-3) obtain w where "de_dvf L wire = Inr \<lparr>version = VERSION, validator_id = vid, message = w\<rparr>"
    "de_msg L w = Inr msg" by (rule seal_msg_unseals)
  with assms(4-6) show ?thesis by (cases msg) (auto simp: rx_frame_def consensus_dispatch_def)
qed

lemma rx_run_route:
  assumes "\<forall>m w. ser_msg L m = Inr w \<longrightarrow> de_msg L w = Inr m" "\<forall>m w. ser_dvf L m = Inr w \<longrightarrow> de_dvf L w = Inr m"
    and "list_all2 (\<lambda>m w. seal_msg L vid m err = Ok w) msgs wires"
    and "hm vid = Some h" "crh_core_up h" "crh_helper_up h"
  shows "fst (rx_run L (consensus_dispatch L) (map (\<lambda>w. (hm, Some w)) wires)) = PeerClosed \<and>
    delivered_by (snd (rx_run L (consensus_dispatch L) (map (\<lambda>w. (hm, Some w)) wires))) = map route msgs"
  using assms(3)
proof (induction rule: list_all2_induct)
  case (Cons msg msgs wire wires)
  from rx_frame_route [where hm = hm, OF assms(1,2) Cons(1) assms(4-6)] Cons(3) show ?case
    by (auto simp: split_def Let_def)
qed simp

section \<open>Properties\<close>

text \<open>C22: The proposer neither invents, duplicates nor loses payload: in every run from its start, the
  digests in the blocks it has handed to the core together with those in its buffer are, counted with
  multiplicity, among the digests received from the mempool; and if no task it talks to has died, every
  digest received is in such a block, still in the buffer, or was removed by a clean-up.\<close>

theorem proposer_conserves_payload:
  assumes "proposer_run L es (Proposer_spawn name c secret vid) = (r, p)"
  shows "mset (proposed (prop_out p)) + mset (prop_buffer p) \<subseteq># mset (received es) \<and>
    (r = Ok () \<longrightarrow> set (received es) \<subseteq> set (proposed (prop_out p)) \<union> set (prop_buffer p) \<union> set (cleaned es))"
  using proposer_run_held [OF assms] by (auto simp: held_def Proposer_spawn_def)

theorem proposer_conserves_payload_witness:
  "[2] \<in> set (proposed (prop_out (snd (proposer_run (toy []) [NewDigest [1], NewDigest [2],
    ProposerMsg (Cleanup [[1]]), ProposerMsg (Make 1 QC_genesis None)] (Proposer_spawn (key 1) com4 [] 7)))))"
proof -
  let ?run = "proposer_run (toy []) [NewDigest [1], NewDigest [2], ProposerMsg (Cleanup [[1]]),
    ProposerMsg (Make 1 QC_genesis None)] (Proposer_spawn (key 1) com4 [] 7)"
  have "fst ?run = Ok ()" "prop_buffer (snd ?run) = []" by code_simp+
  with proposer_conserves_payload [OF surjective_pairing, of "toy []" _ "key 1" com4 "[]" 7] show ?thesis
    by (auto dest!: meta_spec [where x = "[NewDigest [1], NewDigest [2], ProposerMsg (Cleanup [[1]]),
      ProposerMsg (Make 1 QC_genesis None)]"])
qed

text \<open>A store error while the synchronizer waits for the parent of a block makes it ignore that block for
  good: whatever happens later, a block with the same digest that is handed over again is dropped
  without a waiter or a request, and is never looped back to the core.\<close>

theorem sync_store_error_sticks:
  assumes "sync_run L es0 (Synchronizer_new name c delay vid) = (r0, s)" "i < length (sy_waiting s)"
    and "sync_step L (WaiterDone i (Some (Inl e))) s = (r1, s1)" "sync_run L es s1 = (r2, s2)"
    and "Block_digest L b = Block_digest L (snd (sy_waiting s ! i))"
  shows "sync_step L (SyncBlock now b) s2 = (Ok (), s2) \<and>
    looped L (Block_digest L b) (sy_out s2) = looped L (Block_digest L b) (sy_out s)"
proof -
  have inv: "sync_inv L s"
    using keepsD [OF sync_run_keeps(1) assms(1)] sync_inv_new by (auto simp: inv_rel_def)
  have d: "Block_digest L b = waited L s ! i" using assms(2,5) by (simp add: waited_nth)
  have "stuck L (Block_digest L b) s1 \<and> looped L (Block_digest L b) (sy_out s1) = looped L (Block_digest L b) (sy_out s)"
    using sync_store_error [OF inv assms(2), of e] assms(3) d by simp
  with keepsD [OF sync_run_keeps(2) assms(4), of "Block_digest L b"] show ?thesis
    by (auto simp: stays_stuck_def stuck_def sync_block_pending)
qed

theorem sync_store_error_sticks_witness:
  "sync_step (toy chain1) (SyncBlock 9 (chain1 ! 1)) (snd (sync_run (toy chain1) [SyncTimer True (\<lambda>_. 20000)]
    (snd (sync_step (toy chain1) (WaiterDone 0 (Some (Inl (OtherError ''x''))))
      (snd (sync_run (toy chain1) [SyncBlock 1 (chain1 ! 1)] (Synchronizer_new (key 1) com4 10000 7))))))) =
   (Ok (), snd (sync_run (toy chain1) [SyncTimer True (\<lambda>_. 20000)]
    (snd (sync_step (toy chain1) (WaiterDone 0 (Some (Inl (OtherError ''x''))))
      (snd (sync_run (toy chain1) [SyncBlock 1 (chain1 ! 1)] (Synchronizer_new (key 1) com4 10000 7)))))))"
proof -
  let ?s = "snd (sync_run (toy chain1) [SyncBlock 1 (chain1 ! 1)] (Synchronizer_new (key 1) com4 10000 7))"
  have "0 < length (sy_waiting ?s)" "Block_digest (toy chain1) (chain1 ! 1) =
      Block_digest (toy chain1) (snd (sy_waiting ?s ! 0))" by code_simp+
  from sync_store_error_sticks [OF surjective_pairing this(1) surjective_pairing surjective_pairing this(2)]
  show ?thesis by blast
qed

text \<open>A block whose payload is missing is handed back to the core exactly when all of it has arrived:
  the payload waiter's reads of the missing digests are all answered if and only if each of them is
  written to the store, whatever else the store serves, and it then loops the block back.\<close>

theorem payload_wait_exact:
  assumes "rocks_ok R" "running st" "length ds = length ss" "distinct ss"
    and "\<forall>d \<in> set ds. content st d = None" "\<forall>s \<in> set ss. \<forall>k. s \<notin> set (senders_of st k)"
    and "\<forall>s \<in> set ss. \<forall>c \<in> set cs. (\<forall>t. c \<noteq> Exit t \<and> c \<noteq> NotifyDestroy t) \<and> s \<notin> set (command_sender c)"
  shows "(\<forall>d \<in> set ds. \<exists>v. Write d v \<in> set cs) \<longleftrightarrow>
    (\<exists>j. join_reads ss (snd (store_run R (map2 NotifyRead ds ss @ cs) st)) = Some j \<and>
      pw_out (snd (pw_run L [PwMessage (Wait ds b), PwDone 0 (Joined j)] PayloadWaiter_spawn)) = [b])"
proof -
  let ?rs = "snd (store_run R (map2 NotifyRead ds ss @ cs) st)"
  have r: "case notify_read_result (ss ! i) ?rs of None \<Rightarrow> \<forall>v. Write (ds ! i) v \<notin> set cs
      | Some r \<Rightarrow> (\<exists>v. r = Inr v) \<and> (\<exists>v. Write (ds ! i) v \<in> set cs)" if "i < length ss" for i
  proof (rule payload_reader [OF assms(1,3) that assms(4)])
    have "ds ! i \<in> set ds" using that assms(3) by simp
    then show "idle st (ds ! i) (ss ! i)"
      using assms(2,5) bspec [OF assms(6) nth_mem [OF that]] by (simp add: idle_def)
    show "\<forall>c \<in> set cs. live_command (ss ! i) c"
      using bspec [OF assms(7) nth_mem [OF that]] by (simp add: live_command_def)
  qed
  have "\<forall>s \<in> set ss. notify_read_result s ?rs = None \<or> (\<exists>v. notify_read_result s ?rs = Some (Inr v))"
    unfolding all_set_conv_all_nth using r by (fastforce split: option.splits)
  note j = join_reads_cases [OF this]
  have "(\<forall>d \<in> set ds. \<exists>v. Write d v \<in> set cs) \<longleftrightarrow> (\<forall>s \<in> set ss. notify_read_result s ?rs \<noteq> None)"
    unfolding all_set_conv_all_nth using r assms(3) by (fastforce split: option.splits)
  moreover have "pw_out (snd (pw_run L [PwMessage (Wait ds b), PwDone 0 (Joined (Inr ()))] PayloadWaiter_spawn)) = [b]"
    by (simp add: pw_run_def PayloadWaiter_spawn_def pw_done_def act_simps thenM_def)
  ultimately show ?thesis using j by auto
qed

theorem payload_wait_exact_witness:
  "\<exists>j. join_reads [7, 8] (snd (store_run toy_rocks
    (map2 NotifyRead [[1], [2]] [7, 8] @ [Write [2] [5], Delete [2], Write [1] [6]]) Store_new)) = Some j"
proof -
  let ?cs = "[Write [2] [5], Delete [2], Write [1] [6]]"
  have "\<forall>d \<in> set [[1], [2]]. \<exists>v. Write d v \<in> set ?cs" by auto
  moreover have "\<forall>s \<in> set [7, 8]. \<forall>k. s \<notin> set (senders_of Store_new k)" "running Store_new"
    "\<forall>d \<in> set [[1], [2]]. content Store_new d = None"
    by (simp_all add: Store_new_def senders_of_def)
  moreover have "\<forall>s \<in> set [7, 8]. \<forall>c \<in> set ?cs. (\<forall>t. c \<noteq> Exit t \<and> c \<noteq> NotifyDestroy t) \<and> s \<notin> set (command_sender c)"
    by simp
  ultimately show ?thesis
    using payload_wait_exact [of toy_rocks Store_new "[[1], [2]]" "[7, 8]" ?cs] by (simp only: toy_rocks_ok) force
qed

text \<open>What the helper does with a synchronisation request, on every branch: nothing for an unknown
  authority or an absent block; for a stored block it sends the proposal to the address of the
  authority named in the request; for a stored value that is not a block it ends its task.\<close>

theorem helper_reply:
  assumes "rocks_ok (rocks L)" "running st"
  shows "(address c origin = None \<longrightarrow> helper_request L c vid st d origin = Ok []) \<and>
    (content st d = None \<longrightarrow> helper_request L c vid st d origin = Ok []) \<and>
    (\<forall>a v b w. address c origin = Some a \<and> content st d = Some v \<and> de_block L v = Inr b \<and>
      seal_msg L vid (Propose b) ''Failed to serialize block'' = Ok w \<longrightarrow>
      helper_request L c vid st d origin = Ok [NetSend a w]) \<and>
    (\<forall>a v e. address c origin = Some a \<and> content st d = Some v \<and> de_block L v = Inl e \<longrightarrow>
      helper_request L c vid st d origin = Panic ''Failed to deserialize our own block'')"
  using assms by (auto simp: helper_request_def store_read_running split: option.splits)

theorem helper_reply_witness:
  "helper_request (toy chain1) com4 7 (Store_new\<lparr>content := [[1] \<mapsto> [9]]\<rparr>) [1] [2] =
    Panic ''Failed to deserialize our own block''"
proof -
  have "de_block (toy chain1) [9] = Inl 4" "address com4 [2] = Some (addr 2)" by code_simp+
  with helper_reply [of "toy chain1" "Store_new\<lparr>content := [[1] \<mapsto> [9]]\<rparr>" com4 "[2]" 7 "[1]"] show ?thesis
    by (auto simp: toy_def Store_new_def)
qed

text \<open>C23: Messages sealed by one node reach the tasks of another: a connection that carries sealed
  messages of a validator, to a node with a handler for it whose tasks are up, delivers exactly these
  messages in order, synchronisation requests to the helper and all others to the core, and stays open.
  The hypotheses are that decoding undoes encoding.\<close>

theorem consensus_messages_roundtrip:
  assumes "\<forall>m w. ser_msg L m = Inr w \<longrightarrow> de_msg L w = Inr m" "\<forall>m w. ser_dvf L m = Inr w \<longrightarrow> de_dvf L w = Inr m"
    and "list_all2 (\<lambda>m w. seal_msg L vid m err = Ok w) msgs wires"
    and "hm vid = Some h" "crh_core_up h" "crh_helper_up h"
  shows "fst (rx_run L (consensus_dispatch L) (map (\<lambda>w. (hm, Some w)) wires)) = PeerClosed \<and>
    delivered_by (snd (rx_run L (consensus_dispatch L) (map (\<lambda>w. (hm, Some w)) wires))) =
      map (\<lambda>m. case m of SyncRequest missing origin \<Rightarrow> ToHelper missing origin | _ \<Rightarrow> ToCore m) msgs"
proof -
  have "route = (\<lambda>m. case m of SyncRequest missing origin \<Rightarrow> ToHelper missing origin | _ \<Rightarrow> ToCore m)"
    by (rule ext) (simp split: ConsensusMessage.split)
  with rx_run_route [where hm = hm, OF assms] show ?thesis by simp
qed

definition codec1 :: hs_lib where
  "codec1 = (toy [])\<lparr>
    ser_msg := (\<lambda>m. if m = TCMsg empty_tc then Inr [1] else Inl 0),
    de_msg := (\<lambda>b. if b = [1] then Inr (TCMsg empty_tc) else Inl 0),
    ser_dvf := (\<lambda>m. if m = \<lparr>version = VERSION, validator_id = 7, message = [1]\<rparr> then Inr [2] else Inl 0),
    de_dvf := (\<lambda>b. if b = [2] then Inr \<lparr>version = VERSION, validator_id = 7, message = [1]\<rparr> else Inl 0)\<rparr>"

theorem consensus_messages_roundtrip_witness:
  "delivered_by (snd (rx_run codec1 (consensus_dispatch codec1)
    [([7 \<mapsto> \<lparr>crh_core_up = True, crh_helper_up = True\<rparr>], Some [2])])) = [ToCore (TCMsg empty_tc)]"
  using consensus_messages_roundtrip [of codec1 7 "[]" "[TCMsg empty_tc]" "[[2]]"
    "[7 \<mapsto> \<lparr>crh_core_up = True, crh_helper_up = True\<rparr>]" "\<lparr>crh_core_up = True, crh_helper_up = True\<rparr>"]
  by (simp add: codec1_def seal_msg_def toy_def del: rx_run.simps)

end
