(* ===== verification/NetworkProps.thy ===== *)
theory NetworkProps
  imports Samples ConsensusTasks
begin

text \<open>Properties of the reliable sender, alone and together with the receiver at the other end.\<close>

text \<open>C24: The reliable sender implements a queue that loses nothing: over any history of submissions,
  connections, refusals, failed writes, missing answers and reconnections, the messages answered so
  far followed by those still outstanding are in the order of submission; every message submitted is
  answered once, outstanding once, or discarded; and while the connection's task runs, a message is
  discarded only if its caller has closed the handler.  The retry delay stays between 200 ms and 60 s.\<close>

theorem reliable_sender_no_loss:
  assumes "rc_run acts (Connection_new a) = Some (c, os)"
  shows "subseq (answered os @ outstanding c) (submitted acts) \<and>
    mset (submitted acts) = mset (answered os) + mset (discarded os) + mset (outstanding c) \<and>
    (rc_mode c \<noteq> Stopped \<longrightarrow> snd ` set (discarded os) \<subseteq> closed_in acts) \<and>
    200 \<le> rc_delay c \<and> rc_delay c \<le> 60000"
proof -
  have empty: "outstanding (Connection_new a) = []" by (simp add: outstanding_def Connection_new_def)
  show ?thesis
    using rc_run_order [OF assms rc_inv_new] rc_run_conserves [OF assms rc_inv_new]
      rc_run_discards [OF assms] rc_run_inv [OF assms rc_inv_new]
    by (simp add: empty rc_inv_def)
qed

definition history :: "rc_action list" where
  "history = [Submit ([1], 1), Submit ([2], 2), Turn {} ConnectFailed, Turn {} NextMessage, Turn {} DelayElapsed,
    Turn {} Connected, Turn {} (Drain True), Turn {} NextMessage, Turn {} (Drain True), Turn {} (Response None),
    Turn {} Connected, Turn {} (Drain True), Turn {} (Drain True), Turn {} (Response (Some [9]))]"

theorem reliable_sender_no_loss_witness:
  "mset [([1], 1), ([2], 2)] = mset (answered (snd (the (rc_run history (Connection_new (addr 1)))))) +
    mset (discarded (snd (the (rc_run history (Connection_new (addr 1)))))) +
    mset (outstanding (fst (the (rc_run history (Connection_new (addr 1))))))"
proof -
  have "rc_run history (Connection_new (addr 1)) \<noteq> None" by code_simp
  then obtain c os where "rc_run history (Connection_new (addr 1)) = Some (c, os)" by auto
  with reliable_sender_no_loss [OF this] show ?thesis by (simp add: history_def)
qed

text \<open>A message for a validator the peer does not serve is not sent again: the peer's receiver answers
  with a text that is not an acknowledgement and closes the connection, but the reliable sender takes
  any frame as the answer to its oldest message, so the message leaves its queue, in spite of the
  receiver's comment that the sender can resend it.\<close>

theorem unserved_message_not_resent:
  assumes "de_dvf L (fst m) = Inr dvf" "version dvf \<noteq> VERSION \<or> hm (validator_id dvf) = None"
    and "rx_frame L dispatch hm (Some (fst m)) = (fin, replies)"
    and "rc_mode c = Alive" "rc_buffer c = []" "rc_pending_replies c = m # ms"
  shows "fin = Some Killed \<and> (\<exists>text rest. replies = Reply text # rest \<and> text \<noteq> ascii ''Ack'' \<and>
    (\<exists>c'. rc_step closed (Response (Some text)) c = Some (c', [Acked m text]) \<and>
      outstanding c = m # outstanding c'))"
proof -
  have "fin = Some Killed \<and> (\<exists>t. replies = [Reply (ascii t), SleepSecs INVALID_MESSAGE_DELAY] \<and> length t = 16)"
    using assms(1-3) by (auto simp: rx_frame_def split: if_splits)
  then obtain t where t: "fin = Some Killed" "replies = [Reply (ascii t), SleepSecs INVALID_MESSAGE_DELAY]"
    "length t = 16" by blast
  then have "length (ascii t) \<noteq> length (ascii ''Ack'')" by (simp add: ascii_def)
  then have "ascii t \<noteq> ascii ''Ack''" by metis
  with t assms(4-6) show ?thesis
    by (auto simp: rc_step_def rc_keep_alive_def outstanding_def)
qed

theorem unserved_message_not_resent_witness:
  "\<exists>c'. rc_step {} (Response (Some (ascii ''No handler found'')))
    ((Connection_new (addr 1))\<lparr>rc_mode := Alive, rc_pending_replies := [([2], 5)]\<rparr>) =
      Some (c', [Acked ([2], 5) (ascii ''No handler found'')])"
proof -
  let ?L = "(toy [])\<lparr>de_dvf := (\<lambda>b. Inr \<lparr>version = VERSION, validator_id = 7, message = [1]\<rparr>)\<rparr>"
  have r: "rx_frame ?L (consensus_dispatch ?L) Map.empty (Some (fst ([2], 5::nat))) =
      (Some Killed, [Reply (ascii ''No handler found''), SleepSecs INVALID_MESSAGE_DELAY])"
    by (simp add: rx_frame_def)
  have "de_dvf ?L (fst ([2], 5::nat)) = Inr \<lparr>version = VERSION, validator_id = 7, message = [1]\<rparr>" by simp
  from unserved_message_not_resent [OF this _ r, of "(Connection_new (addr 1))\<lparr>rc_mode := Alive,
      rc_pending_replies := [([2], 5)]\<rparr>" "[]" "{}"]
  show ?thesis by (auto simp: Connection_new_def)
qed

end
