(* ===== verification/Mempool.thy ===== *)
theory Mempool
  imports ConsensusTasks
begin

text \<open>
  The mempool crate (\<open>src/hotstuff/mempool/src\<close>).  Transactions are assembled into batches
  (\<open>batch_maker.rs\<close>), a batch is broadcast with the reliable sender, the quorum waiter counts the
  acknowledgements (\<open>quorum_waiter.rs\<close>), the processor stores the batch under its digest and tells
  the consensus (\<open>processor.rs\<close>).  The synchronizer fetches batches other nodes have
  (\<open>synchronizer.rs\<close>) and the helper answers such requests (\<open>helper.rs\<close>).  The record \<open>mp_lib\<close> adds
  the encoding of mempool messages to the libraries.
\<close>

section \<open>Configuration\<close>

record MempoolParameters =
  gc_depth :: u64
  mp_sync_retry_delay :: u64
  sync_retry_nodes :: nat
  batch_size :: u64
  max_batch_delay :: u64

definition MempoolParameters_default :: MempoolParameters where
  "MempoolParameters_default = \<lparr>gc_depth = 50, mp_sync_retry_delay = 5000, sync_retry_nodes = 3,
    batch_size = 500000, max_batch_delay = 100\<rparr>"

record MempoolAuthority =
  mauth_stake :: Stake
  mauth_transactions_address :: SocketAddr
  mauth_mempool_address :: SocketAddr
  mauth_signature_address :: SocketAddr

record MempoolCommittee =
  mauthorities :: "(PublicKey \<times> MempoolAuthority) list"
  mepoch :: "128 word"

definition MempoolCommittee_new :: "(PublicKey \<times> Stake \<times> SocketAddr \<times> SocketAddr \<times> SocketAddr) list
    \<Rightarrow> 128 word \<Rightarrow> MempoolCommittee" where
  "MempoolCommittee_new info ep = \<lparr>
    mauthorities = fold (\<lambda>(name, stk, t, m, s). AList.update name \<lparr>mauth_stake = stk,
      mauth_transactions_address = t, mauth_mempool_address = m, mauth_signature_address = s\<rparr>) info [],
    mepoch = ep\<rparr>"

definition mstake :: "MempoolCommittee \<Rightarrow> PublicKey \<Rightarrow> Stake" where
  "mstake c name = (case map_of (mauthorities c) name of None \<Rightarrow> 0 | Some x \<Rightarrow> mauth_stake x)"

definition mquorum_threshold :: "MempoolCommittee \<Rightarrow> Stake" where
  "mquorum_threshold c = 2 * sum_list (map (mauth_stake \<circ> snd) (mauthorities c)) div 3 + 1"

definition transactions_address :: "MempoolCommittee \<Rightarrow> PublicKey \<Rightarrow> SocketAddr option" where
  "transactions_address c name = map_option mauth_transactions_address (map_of (mauthorities c) name)"

definition mempool_address :: "MempoolCommittee \<Rightarrow> PublicKey \<Rightarrow> SocketAddr option" where
  "mempool_address c name = map_option mauth_mempool_address (map_of (mauthorities c) name)"

definition mbroadcast_addresses :: "MempoolCommittee \<Rightarrow> PublicKey \<Rightarrow> (PublicKey \<times> SocketAddr) list" where
  "mbroadcast_addresses c myself =
    map (\<lambda>(name, x). (name, mauth_mempool_address x)) (filter (\<lambda>(name, _). name \<noteq> myself) (mauthorities c))"

definition signature_address :: "MempoolCommittee \<Rightarrow> PublicKey \<Rightarrow> SocketAddr option" where
  "signature_address c name = map_option mauth_signature_address (map_of (mauthorities c) name)"

definition broadcast_signature_addresses :: "MempoolCommittee \<Rightarrow> PublicKey \<Rightarrow> SocketAddr list" where
  "broadcast_signature_addresses c myself =
    map (mauth_signature_address \<circ> snd) (filter (\<lambda>(name, _). name \<noteq> myself) (mauthorities c))"

section \<open>Messages\<close>

type_synonym Transaction = bytes
type_synonym Batch = "Transaction list"

datatype MempoolMessage = BatchMsg Batch | BatchRequest "Digest list" PublicKey

record mp_lib = hs_lib +
  ser_mp :: "MempoolMessage \<Rightarrow> lib_error + bytes"
  de_mp :: "bytes \<Rightarrow> lib_error + MempoolMessage"

definition hs_of :: "mp_lib \<Rightarrow> hs_lib" where
  "hs_of M = hs_lib.truncate M"

definition wrap_dvf :: "mp_lib \<Rightarrow> u64 \<Rightarrow> bytes \<Rightarrow> ('e, bytes) outcome" where
  "wrap_dvf M vid m = unwrap_sum (ser_dvf M \<lparr>version = VERSION, validator_id = vid, message = m\<rparr>)
    ''called `Result::unwrap()` on an `Err` value''"

definition seal_mp :: "mp_lib \<Rightarrow> u64 \<Rightarrow> MempoolMessage \<Rightarrow> ('e, bytes) outcome" where
  "seal_mp M vid msg = bindO (unwrap_sum (ser_mp M msg) ''Failed to serialize our own message'')
    (wrap_dvf M vid)"

section \<open>The batch maker\<close>

record QuorumWaiterMessage =
  qwm_batch :: bytes
  qwm_handlers :: "(PublicKey \<times> nat) list"

record BatchMaker =
  bm_batch_size :: u64
  bm_mempool_addresses :: "(PublicKey \<times> SocketAddr) list"
  bm_current_batch :: Batch
  bm_current_batch_size :: u64
  bm_network :: ReliableSender
  bm_validator_id :: u64
  bm_waiter_up :: bool
  bm_out :: "QuorumWaiterMessage list"

type_synonym 'a bm_act = "(BatchMaker, NetworkError, 'a) act"

definition BatchMaker_spawn :: "u64 \<Rightarrow> (PublicKey \<times> SocketAddr) list \<Rightarrow> u64 \<Rightarrow> BatchMaker" where
  "BatchMaker_spawn bsize addrs vid = \<lparr>bm_batch_size = bsize, bm_mempool_addresses = addrs,
    bm_current_batch = [], bm_current_batch_size = 0, bm_network = ReliableSender_new,
    bm_validator_id = vid, bm_waiter_up = True, bm_out = []\<rparr>"

definition on_network :: "'a rs_act \<Rightarrow> 'a bm_act" where
  "on_network m s = (let (r, n) = m (bm_network s) in (r, s\<lparr>bm_network := n\<rparr>))"

definition seal :: "mp_lib \<Rightarrow> unit bm_act" where
  "seal M =
    bindM (getM id) (\<lambda>s.
    thenM (modM (\<lambda>s. s\<lparr>bm_current_batch_size := 0, bm_current_batch := []\<rparr>))
    (bindM (liftO (unwrap_sum (ser_mp M (BatchMsg (bm_current_batch s)))
      ''Failed to serialize our own batch'')) (\<lambda>serialized.
    bindM (liftO (wrap_dvf M (bm_validator_id s) serialized)) (\<lambda>wire.
    bindM (on_network (rs_broadcast (map snd (bm_mempool_addresses s)) wire)) (\<lambda>handlers.
    if bm_waiter_up s
    then modM (\<lambda>s. s\<lparr>bm_out := bm_out s @ [\<lparr>qwm_batch = serialized,
      qwm_handlers = zip (map fst (bm_mempool_addresses s)) handlers\<rparr>]\<rparr>)
    else liftO (Panic ''Failed to deliver batch''))))))"

datatype bm_event = BmTransaction Transaction | BmTimer

fun bm_step :: "mp_lib \<Rightarrow> bm_event \<Rightarrow> unit bm_act" where
  "bm_step M (BmTransaction tx) =
    thenM (modM (\<lambda>s. s\<lparr>bm_current_batch_size := bm_current_batch_size s + of_nat (length tx),
      bm_current_batch := bm_current_batch s @ [tx]\<rparr>))
    (bindM (getM (\<lambda>s. bm_batch_size s \<le> bm_current_batch_size s)) (\<lambda>full. whenM full (seal M)))"
| "bm_step M BmTimer = bindM (getM bm_current_batch) (\<lambda>b. whenM (b \<noteq> []) (seal M))"

definition bm_run :: "mp_lib \<Rightarrow> bm_event list \<Rightarrow> unit bm_act" where
  "bm_run M es = forM es (bm_step M)"

section \<open>The quorum waiter\<close>

text \<open>
  A spawned task waits for the answers to one batch: it adds the stake of each authority that
  acknowledged to its own, and delivers the batch when the sum reaches the quorum; when no answer is
  left it ends.  \<open>None\<close> is the answer of a handler whose sender was dropped.
\<close>

record qw_task =
  qt_batch :: bytes
  qt_total :: Stake
  qt_handlers :: "(nat \<times> Stake) list"

definition qw_waiter :: "bytes option \<Rightarrow> Stake \<Rightarrow> Stake" where
  "qw_waiter result deliver = (if result = Some (ascii ''Ack'') then deliver else 0)"

definition qw_spawn_task :: "MempoolCommittee \<Rightarrow> Stake \<Rightarrow> QuorumWaiterMessage \<Rightarrow> qw_task" where
  "qw_spawn_task c own m = \<lparr>qt_batch = qwm_batch m, qt_total = own,
    qt_handlers = map (\<lambda>(name, h). (h, mstake c name)) (qwm_handlers m)\<rparr>"

text \<open>One answer: the task that goes on, and the batch it delivers.\<close>

definition qw_answer :: "MempoolCommittee \<Rightarrow> qw_task \<Rightarrow> nat \<Rightarrow> bytes option \<Rightarrow> qw_task option \<times> bytes list" where
  "qw_answer c t h result = (case map_of (qt_handlers t) h of
      None \<Rightarrow> (Some t, [])
    | Some stk \<Rightarrow>
        let t1 = t\<lparr>qt_total := qt_total t + qw_waiter result stk,
          qt_handlers := filter (\<lambda>(x, _). x \<noteq> h) (qt_handlers t)\<rparr> in
        if mquorum_threshold c \<le> qt_total t1 then (None, [qt_batch t1])
        else if qt_handlers t1 = [] then (None, []) else (Some t1, []))"

text \<open>
  The main loop takes one message at a time and waits at most twelve seconds for its task; the task
  goes on by itself after that, since dropping a join handle does not stop the task.
\<close>

record QuorumWaiter =
  qw_committee :: MempoolCommittee
  qw_stake :: Stake
  qw_queue :: "QuorumWaiterMessage list"
  qw_current :: "qw_task option"
  qw_detached :: "qw_task list"
  qw_out :: "bytes list"

definition QuorumWaiter_spawn :: "MempoolCommittee \<Rightarrow> Stake \<Rightarrow> QuorumWaiter" where
  "QuorumWaiter_spawn c own = \<lparr>qw_committee = c, qw_stake = own, qw_queue = [], qw_current = None,
    qw_detached = [], qw_out = []\<rparr>"

datatype qw_event = QwNext | QwAnswer nat "bytes option" | QwLate nat nat "bytes option" | QwTimeout

definition list_of_option :: "'a option \<Rightarrow> 'a list" where
  "list_of_option x = (case x of None \<Rightarrow> [] | Some y \<Rightarrow> [y])"

fun qw_step :: "qw_event \<Rightarrow> QuorumWaiter \<Rightarrow> QuorumWaiter" where
  "qw_step QwNext s = (case (qw_current s, qw_queue s) of
      (None, m # ms) \<Rightarrow>
        let t = qw_spawn_task (qw_committee s) (qw_stake s) m in
        s\<lparr>qw_queue := ms, qw_current := if qt_handlers t = [] then None else Some t\<rparr>
    | _ \<Rightarrow> s)"
| "qw_step (QwAnswer h result) s = (case qw_current s of
      None \<Rightarrow> s
    | Some t \<Rightarrow> let (t', ds) = qw_answer (qw_committee s) t h result in
        s\<lparr>qw_current := t', qw_out := qw_out s @ ds\<rparr>)"
| "qw_step (QwLate i h result) s = (if i < length (qw_detached s)
    then let (t', ds) = qw_answer (qw_committee s) (qw_detached s ! i) h result in
      s\<lparr>qw_detached := take i (qw_detached s) @ list_of_option t' @ drop (Suc i) (qw_detached s),
        qw_out := qw_out s @ ds\<rparr>
    else s)"
| "qw_step QwTimeout s = (case qw_current s of
      None \<Rightarrow> s
    | Some t \<Rightarrow> s\<lparr>qw_current := None, qw_detached := qw_detached s @ [t]\<rparr>)"

section \<open>The processor\<close>

definition batch_digest :: "'z crypto_lib_scheme \<Rightarrow> bytes \<Rightarrow> Digest" where
  "batch_digest L batch = sha512_32 L batch"

text \<open>The store afterwards, its answers to waiting readers, and the digest for the consensus.\<close>

definition processor_batch :: "hs_lib \<Rightarrow> bytes \<Rightarrow> store_state \<Rightarrow> store_state \<times> reply list \<times> Digest" where
  "processor_batch L batch st =
    (let (st1, rs) = store_write (rocks L) (batch_digest L batch) batch st in
     (st1, rs, batch_digest L batch))"

section \<open>The synchronizer\<close>

definition TIMER_RESOLUTION :: u64 where "TIMER_RESOLUTION = 2000"

text \<open>
  \<open>ms_pending\<close> maps a digest to the round it was asked in, the channel that cancels its waiter, and
  the time (ms) of the last request; \<open>ms_waiting\<close> holds the waiters.
\<close>

record ms_future =
  mf_channel :: nat
  mf_deliver :: Digest
  mf_cancelled :: bool

record ms_entry =
  me_round :: Round
  me_channel :: nat
  me_timestamp :: nat

record MempoolSynchronizer =
  ms_name :: PublicKey
  ms_committee :: MempoolCommittee
  ms_gc_depth :: Round
  ms_retry_delay :: u64
  ms_retry_nodes :: nat
  ms_round :: Round
  ms_pending :: "(Digest \<times> ms_entry) list"
  ms_waiting :: "ms_future list"
  ms_next :: nat
  ms_validator_id :: u64
  ms_out :: "net_op list"

type_synonym 'a ms_act = "(MempoolSynchronizer, unit, 'a) act"

definition MempoolSynchronizer_spawn :: "PublicKey \<Rightarrow> MempoolCommittee \<Rightarrow> MempoolParameters \<Rightarrow> u64
    \<Rightarrow> MempoolSynchronizer" where
  "MempoolSynchronizer_spawn name c p vid = \<lparr>ms_name = name, ms_committee = c, ms_gc_depth = gc_depth p,
    ms_retry_delay = mp_sync_retry_delay p, ms_retry_nodes = sync_retry_nodes p, ms_round = 0,
    ms_pending = [], ms_waiting = [], ms_next = 0, ms_validator_id = vid, ms_out = []\<rparr>"

definition ms_emit :: "net_op \<Rightarrow> unit ms_act" where
  "ms_emit e = modM (\<lambda>s. s\<lparr>ms_out := ms_out s @ [e]\<rparr>)"

text \<open>Register the digests that are not pending yet; the result is the list to request.\<close>

fun ms_register :: "nat \<Rightarrow> Digest list \<Rightarrow> MempoolSynchronizer \<Rightarrow> Digest list \<times> MempoolSynchronizer" where
  "ms_register now [] s = ([], s)"
| "ms_register now (digest # ds) s =
    (if map_of (ms_pending s) digest \<noteq> None then ms_register now ds s
     else let s1 = s\<lparr>ms_next := ms_next s + 1,
          ms_waiting := ms_waiting s @ [\<lparr>mf_channel = ms_next s, mf_deliver = digest, mf_cancelled = False\<rparr>],
          ms_pending := AList.update digest \<lparr>me_round = ms_round s, me_channel = ms_next s,
            me_timestamp = now\<rparr> (ms_pending s)\<rparr>;
        (missing, s2) = ms_register now ds s1 in (digest # missing, s2))"

definition ms_synchronize :: "mp_lib \<Rightarrow> nat \<Rightarrow> Digest list \<Rightarrow> PublicKey \<Rightarrow> unit ms_act" where
  "ms_synchronize M now digests target =
    bindM (\<lambda>s. let (missing, s1) = ms_register now digests s in (Ok missing, s1)) (\<lambda>missing.
    bindM (getM id) (\<lambda>s.
    case mempool_address (ms_committee s) target of
      None \<Rightarrow> retM ()
    | Some a \<Rightarrow>
        bindM (liftO (seal_mp M (ms_validator_id s) (BatchRequest missing (ms_name s)))) (\<lambda>wire.
        ms_emit (NetFeed a wire))))"

definition ms_cleanup :: "Round \<Rightarrow> unit ms_act" where
  "ms_cleanup round = modM (\<lambda>s.
    if round < ms_gc_depth s then s\<lparr>ms_round := round\<rparr>
    else let gc_round = round - ms_gc_depth s;
        gone = (\<lambda>(_, e). me_channel e) ` set (filter (\<lambda>(_, e). me_round e \<le> gc_round) (ms_pending s)) in
      s\<lparr>ms_round := round,
        ms_waiting := map (\<lambda>f. if mf_channel f \<in> gone then f\<lparr>mf_cancelled := True\<rparr> else f) (ms_waiting s),
        ms_pending := filter (\<lambda>(_, e). gc_round < me_round e) (ms_pending s)\<rparr>)"

datatype ms_result = BatchRead "StoreError + bytes" | BatchCancelled

definition ms_done :: "nat \<Rightarrow> ms_result \<Rightarrow> unit ms_act" where
  "ms_done i r = modM (\<lambda>s.
    if i < length (ms_waiting s) \<and> (r = BatchCancelled \<longrightarrow> mf_cancelled (ms_waiting s ! i))
    then let s1 = s\<lparr>ms_waiting := drop_nth i (ms_waiting s)\<rparr> in
      (case r of
        BatchRead (Inr _) \<Rightarrow> s1\<lparr>ms_pending := AList.delete (mf_deliver (ms_waiting s ! i)) (ms_pending s)\<rparr>
      | _ \<Rightarrow> s1)
    else s)"

definition ms_timer :: "mp_lib \<Rightarrow> bool \<Rightarrow> nat \<Rightarrow> unit ms_act" where
  "ms_timer M flushed now =
    bindM (getM id) (\<lambda>s.
    let addresses = map snd (mbroadcast_addresses (ms_committee s) (ms_name s));
      due = (\<lambda>e. me_timestamp e + unat (ms_retry_delay s) < now);
      retry = map fst (filter (due \<circ> snd) (ms_pending s)) in
    thenM (ms_emit (NetBroadcastFlush addresses))
    (whenM flushed
      (thenM (modM (\<lambda>s. s\<lparr>ms_pending := map (\<lambda>(d, e). (d, if due e then e\<lparr>me_timestamp := now\<rparr> else e))
          (ms_pending s)\<rparr>))
      (whenM (retry \<noteq> [])
        (bindM (liftO (seal_mp M (ms_validator_id s) (BatchRequest retry (ms_name s)))) (\<lambda>wire.
         ms_emit (NetLuckyFeed addresses wire (ms_retry_nodes s))))))))"

datatype ms_event = MsMessage nat ConsensusMempoolMessage | MsDone nat ms_result | MsTimer bool nat

fun ms_step :: "mp_lib \<Rightarrow> ms_event \<Rightarrow> unit ms_act" where
  "ms_step M (MsMessage now (Synchronize digests target)) = ms_synchronize M now digests target"
| "ms_step M (MsMessage now (MempoolCleanup round)) = ms_cleanup round"
| "ms_step M (MsDone i r) = ms_done i r"
| "ms_step M (MsTimer flushed now) = ms_timer M flushed now"

definition ms_run :: "mp_lib \<Rightarrow> ms_event list \<Rightarrow> unit ms_act" where
  "ms_run M es = forM es (ms_step M)"

section \<open>The helper\<close>

fun feed_batches :: "mp_lib \<Rightarrow> u64 \<Rightarrow> store_state \<Rightarrow> SocketAddr \<Rightarrow> Digest list \<Rightarrow> (unit, net_op list) outcome" where
  "feed_batches M vid st a [] = Ok []"
| "feed_batches M vid st a (digest # ds) = (case store_read (rocks M) digest st of
      Inr (Some data) \<Rightarrow>
        bindO (wrap_dvf M vid data) (\<lambda>wire.
        bindO (feed_batches M vid st a ds) (\<lambda>ops. Ok (NetFeed a wire # ops)))
    | _ \<Rightarrow> feed_batches M vid st a ds)"

definition mempool_helper_request :: "mp_lib \<Rightarrow> MempoolCommittee \<Rightarrow> u64 \<Rightarrow> store_state \<Rightarrow> Digest list
    \<Rightarrow> PublicKey \<Rightarrow> (unit, net_op list) outcome" where
  "mempool_helper_request M c vid st digests origin = (case mempool_address c origin of
      None \<Rightarrow> Ok []
    | Some a \<Rightarrow> bindO (feed_batches M vid st a digests) (\<lambda>ops. Ok (ops @ [NetFlush a])))"

section \<open>Incoming messages\<close>

record TxReceiverHandler =
  trh_batch_maker_up :: bool

record MempoolReceiverHandler =
  mrh_helper_up :: bool
  mrh_processor_up :: bool

datatype mrh_delivery = ToMempoolHelper "Digest list" PublicKey | ToProcessor bytes

definition tx_dispatch :: "(TxReceiverHandler, Transaction) dispatcher" where
  "tx_dispatch h tx =
    (if trh_batch_maker_up h then (Ok (), [Deliver tx]) else (Panic ''Failed to send transaction'', []))"

definition mempool_dispatch :: "mp_lib \<Rightarrow> (MempoolReceiverHandler, mrh_delivery) dispatcher" where
  "mempool_dispatch M h serialized =
    (let ack = Reply (ascii ''Ack'') in
     case de_mp M serialized of
       Inr (BatchMsg _) \<Rightarrow>
         if mrh_processor_up h then (Ok (), [ack, Deliver (ToProcessor serialized)])
         else (Panic ''Failed to send batch'', [ack])
     | Inr (BatchRequest missing requestor) \<Rightarrow>
         if mrh_helper_up h then (Ok (), [ack, Deliver (ToMempoolHelper missing requestor)])
         else (Panic ''Failed to send batch request'', [ack])
     | Inl e \<Rightarrow> (Ok (), [ack]))"

section \<open>Wiring\<close>

record mempool_tasks =
  mt_synchronizer :: MempoolSynchronizer
  mt_batch_maker :: BatchMaker
  mt_quorum_waiter :: QuorumWaiter

definition handle_consensus_messages :: "PublicKey \<Rightarrow> MempoolCommittee \<Rightarrow> MempoolParameters \<Rightarrow> u64
    \<Rightarrow> MempoolSynchronizer" where
  "handle_consensus_messages name c p vid = MempoolSynchronizer_spawn name c p vid"

definition handle_clients_transactions :: "PublicKey \<Rightarrow> MempoolCommittee \<Rightarrow> MempoolParameters \<Rightarrow> u64
    \<Rightarrow> (u64 \<rightharpoonup> TxReceiverHandler) \<Rightarrow> BatchMaker \<times> QuorumWaiter \<times> (u64 \<rightharpoonup> TxReceiverHandler)" where
  "handle_clients_transactions name c p vid handlers =
    (BatchMaker_spawn (batch_size p) (mbroadcast_addresses c name) vid,
     QuorumWaiter_spawn c (mstake c name), handlers(vid \<mapsto> \<lparr>trh_batch_maker_up = True\<rparr>))"

definition handle_mempool_messages :: "u64 \<Rightarrow> (u64 \<rightharpoonup> MempoolReceiverHandler) \<Rightarrow> (u64 \<rightharpoonup> MempoolReceiverHandler)"
  where
  "handle_mempool_messages vid handlers = handlers(vid \<mapsto> \<lparr>mrh_helper_up = True, mrh_processor_up = True\<rparr>)"

text \<open>The boot message at the end looks up the node's own address, which panics for a node outside.\<close>

definition Mempool_spawn :: "PublicKey \<Rightarrow> MempoolCommittee \<Rightarrow> MempoolParameters \<Rightarrow> u64
    \<Rightarrow> (u64 \<rightharpoonup> TxReceiverHandler) \<Rightarrow> (u64 \<rightharpoonup> MempoolReceiverHandler)
    \<Rightarrow> (unit, unit) outcome \<times> mempool_tasks \<times> (u64 \<rightharpoonup> TxReceiverHandler) \<times> (u64 \<rightharpoonup> MempoolReceiverHandler)" where
  "Mempool_spawn name c p vid txh mph =
    (let sync = handle_consensus_messages name c p vid;
       (bm, qw, txh1) = handle_clients_transactions name c p vid txh;
       mph1 = handle_mempool_messages vid mph in
     (case mempool_address c name of
        None \<Rightarrow> Panic ''Our public key is not in the committee'' | Some _ \<Rightarrow> Ok (),
      \<lparr>mt_synchronizer = sync, mt_batch_maker = bm, mt_quorum_waiter = qw\<rparr>, txh1, mph1))"

section \<open>The two committees\<close>

text \<open>
  The mempool committee seen as a consensus committee: the same names and stakes, so the same quorums.
\<close>

definition as_committee :: "MempoolCommittee \<Rightarrow> Committee" where
  "as_committee c = \<lparr>authorities = map (\<lambda>(k, a). (k, \<lparr>auth_stake = mauth_stake a,
    auth_address = mauth_mempool_address a\<rparr>)) (mauthorities c), epoch = mepoch c\<rparr>"

definition mnames :: "MempoolCommittee \<Rightarrow> PublicKey set" where
  "mnames c = fst ` set (mauthorities c)"

definition mcommittee_valid :: "MempoolCommittee \<Rightarrow> bool" where
  "mcommittee_valid c \<longleftrightarrow> committee_valid (as_committee c)"

definition mnstake :: "MempoolCommittee \<Rightarrow> PublicKey \<Rightarrow> nat" where
  "mnstake c k = unat (mstake c k)"

lemma map_of_as_committee:
  "map_of (authorities (as_committee c)) k = map_option (\<lambda>a. \<lparr>auth_stake = mauth_stake a,
    auth_address = mauth_mempool_address a\<rparr>) (map_of (mauthorities c) k)"
proof -
  have "map_of (map (\<lambda>(k, a). (k, f a)) xs) k = map_option f (map_of xs k)"
    for f :: "MempoolAuthority \<Rightarrow> Authority" and xs by (induction xs) auto
  then show ?thesis by (simp add: as_committee_def)
qed

lemma as_committee_simps [simp]:
  "stake (as_committee c) k = mstake c k" "address (as_committee c) k = mempool_address c k"
  "names (as_committee c) = mnames c" "quorum_threshold (as_committee c) = mquorum_threshold c"
  "nstake (as_committee c) = mnstake c"
proof -
  show st: "stake (as_committee c) k = mstake c k" for k
    by (simp add: stake_def mstake_def map_of_as_committee split: option.split)
  show "address (as_committee c) k = mempool_address c k"
    by (simp add: address_def mempool_address_def map_of_as_committee option.map_comp comp_def)
  show "names (as_committee c) = mnames c" by (force simp: names_def mnames_def as_committee_def)
  show "quorum_threshold (as_committee c) = mquorum_threshold c"
    by (simp add: quorum_threshold_def total_votes_def mquorum_threshold_def as_committee_def split_def comp_def)
  show "nstake (as_committee c) = mnstake c" by (simp add: fun_eq_iff nstake_def mnstake_def st)
qed

lemma mbroadcast_as_committee: "broadcast_addresses (as_committee c) me = mbroadcast_addresses c me"
  by (simp add: broadcast_addresses_def mbroadcast_addresses_def as_committee_def filter_map split_def comp_def)

interpretation mq: quorum_system mcommittee_valid mnames mnstake "\<lambda>c. unat (mquorum_threshold c)"
proof
  show "mcommittee_valid c \<Longrightarrow> finite (mnames c)" for c by (simp add: mnames_def)
  show "mcommittee_valid c \<Longrightarrow> unat (mquorum_threshold c) = 2 * sum (mnstake c) (mnames c) div 3 + 1" for c
    using cq.quorum_eq [of "as_committee c"] by (simp add: mcommittee_valid_def)
qed

lemma mtotal_bound: "mcommittee_valid c \<Longrightarrow> sum (mnstake c) (mnames c) < 2 ^ 32"
  using total_bound [of "as_committee c"] by (simp add: mcommittee_valid_def)

end
