(* ===== verification/MempoolProps.thy ===== *)
theory MempoolProps
  imports Samples Mempool
begin

text \<open>Lemmas and properties of the mempool tasks and of their work with the network and the store.\<close>

section \<open>Batches\<close>

fun transactions :: "bm_event list \<Rightarrow> Transaction list" where
  "transactions [] = []"
| "transactions (BmTransaction tx # es) = tx # transactions es"
| "transactions (BmTimer # es) = transactions es"

lemma seal_run:
  assumes "seal M s = (Ok (), s')"
  obtains ser hs net where "ser_mp M (BatchMsg (bm_current_batch s)) = Inr ser"
    "\<exists>wire. wrap_dvf M (bm_validator_id s) ser = (Ok wire :: (NetworkError, bytes) outcome) \<and>
      rs_broadcast (map snd (bm_mempool_addresses s)) wire (bm_network s) = (Ok hs, net)"
    "s' = s\<lparr>bm_current_batch_size := 0, bm_current_batch := [], bm_network := net,
      bm_out := bm_out s @ [\<lparr>qwm_batch = ser, qwm_handlers = zip (map fst (bm_mempool_addresses s)) hs\<rparr>]\<rparr>"
  using assms unfolding seal_def
  by (auto elim!: bindM_OkE thenM_OkE simp: act_simps on_network_def unwrap_sum_def
      split: if_splits sum.splits prod.splits)

definition bm_inv :: "mp_lib \<Rightarrow> u64 \<Rightarrow> Transaction list \<Rightarrow> BatchMaker \<Rightarrow> bool" where
  "bm_inv M bsize txs s \<longleftrightarrow> bm_batch_size s = bsize \<and>
    (\<exists>bs. map (Inr \<circ> qwm_batch) (bm_out s) = map (ser_mp M \<circ> BatchMsg) bs \<and>
      concat bs @ bm_current_batch s = txs \<and> [] \<notin> set bs) \<and>
    bm_current_batch_size s = of_nat (sum_list (map length (bm_current_batch s))) \<and>
    (0 < bsize \<longrightarrow> bm_current_batch_size s < bsize)"

definition bm_pre :: "mp_lib \<Rightarrow> u64 \<Rightarrow> Transaction list \<Rightarrow> BatchMaker \<Rightarrow> bool" where
  "bm_pre M bsize txs s \<longleftrightarrow> bm_batch_size s = bsize \<and> bm_current_batch s \<noteq> [] \<and>
    (\<exists>bs. map (Inr \<circ> qwm_batch) (bm_out s) = map (ser_mp M \<circ> BatchMsg) bs \<and>
      concat bs @ bm_current_batch s = txs \<and> [] \<notin> set bs) \<and>
    bm_current_batch_size s = of_nat (sum_list (map length (bm_current_batch s)))"

lemma seal_inv:
  assumes "bm_pre M bsize txs s" "seal M s = (Ok (), s')"
  shows "bm_inv M bsize txs s'"
proof -
  from assms(1) obtain bs where bs: "map (Inr \<circ> qwm_batch) (bm_out s) = map (ser_mp M \<circ> BatchMsg) bs"
    "concat bs @ bm_current_batch s = txs" "[] \<notin> set bs" and b: "bm_batch_size s = bsize" "bm_current_batch s \<noteq> []"
    by (auto simp: bm_pre_def)
  from assms(2) show ?thesis
  proof (rule seal_run)
    fix ser hs net
    assume ser: "ser_mp M (BatchMsg (bm_current_batch s)) = Inr ser"
      and s': "s' = s\<lparr>bm_current_batch_size := 0, bm_current_batch := [], bm_network := net,
        bm_out := bm_out s @ [\<lparr>qwm_batch = ser, qwm_handlers = zip (map fst (bm_mempool_addresses s)) hs\<rparr>]\<rparr>"
    show ?thesis
      unfolding bm_inv_def
      by (rule conjI, simp add: s' b, rule conjI, rule exI [of _ "bs @ [bm_current_batch s]"])
        (use bs b ser in \<open>auto simp: s'\<close>)
  qed
qed

lemma bm_step_inv:
  assumes "bm_inv M bsize txs s" "bm_step M e s = (Ok (), s')"
  shows "bm_inv M bsize (txs @ transactions [e]) s'"
proof (cases e)
  case (BmTransaction tx)
  let ?s = "s\<lparr>bm_current_batch_size := bm_current_batch_size s + of_nat (length tx),
    bm_current_batch := bm_current_batch s @ [tx]\<rparr>"
  from assms(1) have pre: "bm_pre M bsize (txs @ [tx]) ?s"
    by (auto simp: bm_inv_def bm_pre_def)
  have run: "(if bsize \<le> bm_current_batch_size ?s then seal M ?s else (Ok (), ?s)) = (Ok (), s')"
    using assms by (simp add: BmTransaction act_simps thenM_def bm_inv_def split: if_splits)
  show ?thesis
  proof (cases "bsize \<le> bm_current_batch_size ?s")
    case True
    with run seal_inv [OF pre] show ?thesis by (simp add: BmTransaction)
  next
    case False
    with run have "s' = ?s" by simp
    moreover have "bm_inv M bsize (txs @ [tx]) ?s" using pre False unfolding bm_inv_def bm_pre_def by auto
    ultimately show ?thesis by (simp only: BmTransaction transactions.simps)
  qed
next
  case BmTimer
  show ?thesis
  proof (cases "bm_current_batch s = []")
    case True
    with assms show ?thesis by (simp add: BmTimer act_simps)
  next
    case False
    with assms(1) have "bm_pre M bsize txs s" by (simp add: bm_inv_def bm_pre_def)
    with False assms(2) seal_inv show ?thesis by (simp add: BmTimer act_simps)
  qed
qed

lemma bm_run_inv:
  "bm_inv M bsize txs s \<Longrightarrow> bm_run M es s = (Ok (), s') \<Longrightarrow> bm_inv M bsize (txs @ transactions es) s'"
proof (induction es arbitrary: s txs)
  case (Cons e es)
  from Cons(3) obtain s1 where "bm_step M e s = (Ok (), s1)" "bm_run M es s1 = (Ok (), s')"
    by (auto simp: bm_run_def elim: thenM_OkE)
  with Cons(1) [OF bm_step_inv [OF Cons(2)]] have "bm_inv M bsize ((txs @ transactions [e]) @ transactions es) s'"
    by blast
  then show ?case by (cases e) simp_all
qed (simp add: bm_run_def act_simps)

section \<open>Acknowledgements\<close>

fun qw_task_run :: "MempoolCommittee \<Rightarrow> qw_task option \<Rightarrow> (nat \<times> bytes option) list \<Rightarrow> qw_task option \<times> bytes list"
  where
  "qw_task_run c None as = (None, [])"
| "qw_task_run c (Some t) [] = (Some t, [])"
| "qw_task_run c (Some t) ((h, r) # as) =
    (let (t1, ds) = qw_answer c t h r; (t2, ds') = qw_task_run c t1 as in (t2, ds @ ds'))"

definition ack_weight :: "qw_task \<Rightarrow> nat \<times> bytes option \<Rightarrow> nat" where
  "ack_weight t = (\<lambda>(h, r). unat (qw_waiter r (the (map_of (qt_handlers t) h))))"

lemma sum_list_remove:
  assumes "distinct (map fst xs)" "map_of xs h = Some v"
  shows "sum_list (map (f \<circ> snd) xs) = (f v :: nat) + sum_list (map (f \<circ> snd) (filter (\<lambda>(x, _). x \<noteq> h) xs))"
  using assms
proof (induction xs)
  case (Cons x xs)
  obtain k w where x: "x = (k, w)" by (cases x)
  show ?case
  proof (cases "k = h")
    case True
    with Cons x have "filter (\<lambda>(x, _). x \<noteq> h) xs = xs" by (force simp: filter_id_conv)
    with True Cons x show ?thesis by simp
  next
    case False
    with Cons x show ?thesis by simp
  qed
qed simp

lemma map_of_remove: "map_of (filter (\<lambda>(x, _). x \<noteq> h) xs) = (map_of xs)(h := None)"
  by (rule ext) (induction xs, auto)

lemma qw_task_run_delivers:
  "distinct (map fst (qt_handlers t)) \<Longrightarrow> distinct (map fst as) \<Longrightarrow> fst ` set as \<subseteq> fst ` set (qt_handlers t) \<Longrightarrow>
    unat (qt_total t) + sum_list (map (unat \<circ> snd) (qt_handlers t)) < 2 ^ 32 \<Longrightarrow>
    snd (qw_task_run c (Some t) as) = (if as \<noteq> [] \<and> unat (mquorum_threshold c) \<le>
      unat (qt_total t) + sum_list (map (ack_weight t) as) then [qt_batch t] else [])"
proof (induction as arbitrary: t)
  case (Cons a as)
  obtain h r where a: "a = (h, r)" by (cases a)
  with Cons(4) have "h \<in> fst ` set (qt_handlers t)" by simp
  then obtain v where v: "map_of (qt_handlers t) h = Some v"
    by (metis map_of_eq_None_iff not_Some_eq)
  define t1 where "t1 = t\<lparr>qt_total := qt_total t + qw_waiter r v,
    qt_handlers := filter (\<lambda>(x, _). x \<noteq> h) (qt_handlers t)\<rparr>"
  have w: "unat (qw_waiter r v) \<le> unat v" by (simp add: qw_waiter_def)
  have total: "sum_list (map (unat \<circ> snd) (qt_handlers t)) =
      unat v + sum_list (map (unat \<circ> snd) (qt_handlers t1))"
    using sum_list_remove [OF Cons(2) v, of unat] by (simp add: t1_def)
  have t1: "unat (qt_total t1) = unat (qt_total t) + unat (qw_waiter r v)"
  proof -
    have "unat (qt_total t) + unat (qw_waiter r v) < 2 ^ LENGTH(32)" using Cons(5) w unfolding total by simp
    then show ?thesis by (simp add: t1_def unat_add_lem [THEN iffD1])
  qed
  have weight: "map (ack_weight t1) as = map (ack_weight t) as" "ack_weight t a = unat (qw_waiter r v)"
    using Cons(3) v by (force simp: ack_weight_def t1_def map_of_remove a)+
  have step: "qw_answer c t h r = (if mquorum_threshold c \<le> qt_total t1 then (None, [qt_batch t])
      else if qt_handlers t1 = [] then (None, []) else (Some t1, []))"
    by (simp add: qw_answer_def v t1_def Let_def)
  have sub: "fst ` set as \<subseteq> fst ` set (qt_handlers t1)"
    using Cons(3,4) by (force simp: a t1_def)
  consider "mquorum_threshold c \<le> qt_total t1" | "\<not> mquorum_threshold c \<le> qt_total t1" "qt_handlers t1 = []"
    | "\<not> mquorum_threshold c \<le> qt_total t1" "qt_handlers t1 \<noteq> []" by blast
  then show ?case
  proof cases
    case 1
    then show ?thesis using t1 weight step by (simp add: a word_le_nat_alt)
  next
    case 2
    then have "as = []" using sub by auto
    with 2 show ?thesis using t1 weight step by (simp add: a word_le_nat_alt)
  next
    case 3
    have "snd (qw_task_run c (Some t1) as) = (if as \<noteq> [] \<and> unat (mquorum_threshold c) \<le>
        unat (qt_total t1) + sum_list (map (ack_weight t1) as) then [qt_batch t1] else [])"
    proof (rule Cons(1))
      show "unat (qt_total t1) + sum_list (map (unat \<circ> snd) (qt_handlers t1)) < 2 ^ 32"
        using Cons(5) w unfolding t1 total by linarith
    qed (use Cons(2,3) sub in \<open>auto simp: t1_def distinct_map_filter\<close>)
    moreover have "qt_batch t1 = qt_batch t" by (simp add: t1_def)
    ultimately show ?thesis
      using 3 t1 weight step by (cases "as = []") (simp_all add: a word_le_nat_alt split_def Let_def)
  qed
qed simp

text \<open>The authorities that acknowledged, given who each handler belongs to.\<close>

definition ackers :: "(PublicKey \<times> nat) list \<Rightarrow> (nat \<times> bytes option) list \<Rightarrow> PublicKey set" where
  "ackers hs as = {n. \<exists>h. (n, h) \<in> set hs \<and> (h, Some (ascii ''Ack'')) \<in> set as}"

lemma ack_weight_ackers:
  assumes "distinct (map fst hs)" "distinct (map snd hs)" "distinct (map fst as)" "fst ` set as \<subseteq> snd ` set hs"
  shows "sum_list (map (ack_weight (qw_spawn_task c own \<lparr>qwm_batch = b, qwm_handlers = hs\<rparr>)) as) =
    sum (mnstake c) (ackers hs as)"
proof -
  let ?t = "qw_spawn_task c own \<lparr>qwm_batch = b, qwm_handlers = hs\<rparr>"
  define owner where "owner h = the (map_of (map prod.swap hs) h)" for h
  have dsw: "distinct (map fst (map prod.swap hs))" using assms(2) by (simp add: comp_def)
  have owner: "owner h = n" if "(n, h) \<in> set hs" for n h
    using map_of_is_SomeI [OF dsw, of h n] that by (force simp: owner_def)
  have mo: "map_of (qt_handlers ?t) h = Some (mstake c n)" if "(n, h) \<in> set hs" for n h
    using assms(2) that by (intro map_of_is_SomeI) (force simp: qw_spawn_task_def comp_def split_def)+
  have "sum_list (map (ack_weight ?t) as) = sum (ack_weight ?t) (set as)"
    using assms(3) by (simp add: sum_list_distinct_conv_sum_set distinct_map)
  also have "\<dots> = sum (ack_weight ?t) {a \<in> set as. snd a = Some (ascii ''Ack'')}"
    by (rule sum.mono_neutral_right) (auto simp: ack_weight_def qw_waiter_def split: if_splits)
  also have "\<dots> = sum (mnstake c \<circ> (owner \<circ> fst)) {a \<in> set as. snd a = Some (ascii ''Ack'')}"
  proof (rule sum.cong)
    fix a assume "a \<in> {a \<in> set as. snd a = Some (ascii ''Ack'')}"
    then obtain h n where "a = (h, Some (ascii ''Ack''))" "(n, h) \<in> set hs"
      using assms(4) by (cases a) force
    then show "ack_weight ?t a = (mnstake c \<circ> (owner \<circ> fst)) a"
      by (simp add: ack_weight_def qw_waiter_def mo owner mnstake_def)
  qed simp
  also have "\<dots> = sum (mnstake c) ((owner \<circ> fst) ` {a \<in> set as. snd a = Some (ascii ''Ack'')})"
  proof (rule sum.reindex [symmetric], rule inj_onI)
    fix a a' assume as: "a \<in> {a \<in> set as. snd a = Some (ascii ''Ack'')}"
      "a' \<in> {a \<in> set as. snd a = Some (ascii ''Ack'')}" and eq: "(owner \<circ> fst) a = (owner \<circ> fst) a'"
    have "fst a \<in> snd ` set hs" "fst a' \<in> snd ` set hs" using as assms(4) by auto
    then obtain n n' where n: "(n, fst a) \<in> set hs" "(n', fst a') \<in> set hs" by auto
    then have "n = n'" using eq owner [OF n(1)] owner [OF n(2)] by simp
    with n assms(1) have "fst a = fst a'" by (blast dest: eq_key_imp_eq_value)
    with as show "a = a'" by (simp add: prod_eq_iff)
  qed
  also have "(owner \<circ> fst) ` {a \<in> set as. snd a = Some (ascii ''Ack'')} = ackers hs as"
  proof (intro equalityI subsetI)
    fix n assume "n \<in> ackers hs as"
    then obtain h where h: "(n, h) \<in> set hs" "(h, Some (ascii ''Ack'')) \<in> set as"
      by (auto simp: ackers_def)
    from owner [OF h(1)] h(2) show "n \<in> (owner \<circ> fst) ` {a \<in> set as. snd a = Some (ascii ''Ack'')}"
      by (intro image_eqI [of _ _ "(h, Some (ascii ''Ack''))"]) simp_all
  next
    fix n assume "n \<in> (owner \<circ> fst) ` {a \<in> set as. snd a = Some (ascii ''Ack'')}"
    then obtain h where h: "n = owner h" "(h, Some (ascii ''Ack'')) \<in> set as" by auto
    then have "h \<in> snd ` set hs" using assms(4) by force
    then obtain m where "(m, h) \<in> set hs" by auto
    with h owner show "n \<in> ackers hs as" by (auto simp: ackers_def)
  qed
  finally show ?thesis .
qed

section \<open>Properties\<close>

text \<open>C25: The batch maker loses, duplicates and reorders no transaction: as long as its run has met no
  panic, the transactions in the batches handed to the quorum waiter, in order, followed by those of
  the current batch are exactly the transactions received; no batch handed over is empty; the size
  counter is the size of the current batch and stays below the batch size.\<close>

theorem batches_conserve_transactions:
  assumes "bm_run M es (BatchMaker_spawn bsize addrs vid) = (Ok (), s)"
  shows "(\<exists>bs. map (Inr \<circ> qwm_batch) (bm_out s) = map (ser_mp M \<circ> BatchMsg) bs \<and>
      concat bs @ bm_current_batch s = transactions es \<and> [] \<notin> set bs) \<and>
    bm_current_batch_size s = of_nat (sum_list (map length (bm_current_batch s))) \<and>
    (0 < bsize \<longrightarrow> bm_current_batch_size s < bsize)"
proof -
  have "bm_inv M bsize [] (BatchMaker_spawn bsize addrs vid)"
    by (auto simp: bm_inv_def BatchMaker_spawn_def)
  from bm_run_inv [OF this assms] show ?thesis by (auto simp: bm_inv_def)
qed

definition toy_mp :: mp_lib where
  "toy_mp = hs_lib.extend (toy []) \<lparr>ser_mp = (\<lambda>m. case m of BatchMsg b \<Rightarrow> Inr (concat b) | BatchRequest _ _ \<Rightarrow> Inr []),
    de_mp = (\<lambda>b. if b = [] then Inl 1 else Inr (BatchMsg [b]))\<rparr>"

theorem batches_conserve_transactions_witness:
  "\<exists>bs. concat bs @ bm_current_batch (snd (bm_run toy_mp [BmTransaction [1, 2], BmTransaction [3], BmTransaction [4]]
    (BatchMaker_spawn 3 [(key 2, addr 2)] 7))) = [[1, 2], [3], [4]] \<and> [] \<notin> set bs"
proof -
  let ?run = "bm_run toy_mp [BmTransaction [1, 2], BmTransaction [3], BmTransaction [4]]
    (BatchMaker_spawn 3 [(key 2, addr 2)] 7)"
  have "fst ?run = Ok ()" by code_simp
  then have "?run = (Ok (), snd ?run)" by (simp add: prod_eq_iff)
  from batches_conserve_transactions [OF this] show ?thesis by auto
qed

text \<open>C26: The quorum waiter delivers a batch exactly when at least one answer has come and the authorities
  that acknowledged, together with the node itself, hold a quorum; it delivers it once; and then every
  quorum of the committee, such as the voters for a block that names the batch, contains one of them
  outside any set with less than a third of the stake, so a correct authority can serve the batch.\<close>

theorem quorum_waiter_availability:
  assumes "mcommittee_valid c" "me \<in> mnames c" "fst ` set hs \<subseteq> mnames c - {me}"
    and "distinct (map fst hs)" "distinct (map snd hs)" "distinct (map fst as)" "fst ` set as \<subseteq> snd ` set hs"
  shows "let ds = snd (qw_task_run c (Some (qw_spawn_task c (mstake c me) \<lparr>qwm_batch = b, qwm_handlers = hs\<rparr>)) as);
      A = insert me (ackers hs as) in
    ds = (if as \<noteq> [] \<and> unat (mquorum_threshold c) \<le> sum (mnstake c) A then [b] else []) \<and>
    (ds \<noteq> [] \<longrightarrow> (\<forall>Q F. Q \<subseteq> mnames c \<and> unat (mquorum_threshold c) \<le> sum (mnstake c) Q \<and> F \<subseteq> mnames c \<and>
      3 * sum (mnstake c) F < sum (mnstake c) (mnames c) \<longrightarrow> (\<exists>k \<in> A \<inter> Q. k \<notin> F)))"
proof -
  let ?t = "qw_spawn_task c (mstake c me) \<lparr>qwm_batch = b, qwm_handlers = hs\<rparr>"
  have fin: "finite (mnames c)" using mq.members_finite [OF assms(1)] .
  have sub: "ackers hs as \<subseteq> fst ` set hs" by (force simp: ackers_def)
  have A: "insert me (ackers hs as) \<subseteq> mnames c" "me \<notin> ackers hs as" "finite (ackers hs as)"
    using sub assms(2,3) finite_subset [OF sub] by auto
  have "sum_list (map (unat \<circ> snd) (qt_handlers ?t)) = sum (mnstake c) (fst ` set hs)"
    using assms(4) by (simp add: qw_spawn_task_def mnstake_def comp_def split_def
        sum_list_distinct_conv_sum_set distinct_map sum.reindex)
  moreover have "mnstake c me + sum (mnstake c) (fst ` set hs) \<le> sum (mnstake c) (mnames c)"
    using sum_mono2 [of "mnames c" "insert me (fst ` set hs)" "mnstake c"] assms(2,3) fin finite_subset
    by (subst sum.insert [symmetric]) auto
  ultimately have "unat (qt_total ?t) + sum_list (map (unat \<circ> snd) (qt_handlers ?t)) < 2 ^ 32"
    using mtotal_bound [OF assms(1)] by (simp add: qw_spawn_task_def mnstake_def)
  moreover have "distinct (map fst (qt_handlers ?t))" "fst ` set as \<subseteq> fst ` set (qt_handlers ?t)"
    using assms(5,7) by (force simp: qw_spawn_task_def comp_def split_def)+
  moreover have "unat (qt_total ?t) + sum (mnstake c) (ackers hs as) = sum (mnstake c) (insert me (ackers hs as))"
    using A by (simp add: qw_spawn_task_def mnstake_def)
  ultimately have "snd (qw_task_run c (Some ?t) as) = (if as \<noteq> [] \<and>
      unat (mquorum_threshold c) \<le> sum (mnstake c) (insert me (ackers hs as)) then [b] else [])"
    using qw_task_run_delivers [of ?t as c] ack_weight_ackers [OF assms(4-7), of c "mstake c me" b] assms(6)
    by (simp add: qw_spawn_task_def)
  then show ?thesis
    unfolding Let_def using mq.quorums_share_correct [OF assms(1) A(1)] by (auto simp del: insert_iff split: if_splits)
qed

definition mcom4 :: MempoolCommittee where
  "mcom4 = MempoolCommittee_new (map (\<lambda>i. (key (of_nat i), 1, addr 1, addr (of_nat i), addr 9)) [1..<5]) 1"

theorem quorum_waiter_availability_witness:
  "snd (qw_task_run mcom4 (Some (qw_spawn_task mcom4 (mstake mcom4 (key 1)) \<lparr>qwm_batch = [5],
    qwm_handlers = [(key 2, 10), (key 3, 11), (key 4, 12)]\<rparr>))
    [(12, Some (ascii ''Ack'')), (10, None), (11, Some (ascii ''Ack''))]) = [[5]]"
proof -
  let ?hs = "[(key 2, 10), (key 3, 11), (key 4, 12)]"
  let ?as = "[(12, Some (ascii ''Ack'')), (10, None), (11, Some (ascii ''Ack''))]"
  have c: "mauthorities mcom4 = map (\<lambda>i. (key (of_nat i), \<lparr>mauth_stake = 1, mauth_transactions_address = addr 1,
      mauth_mempool_address = addr (of_nat i), mauth_signature_address = addr 9\<rparr>)) [1..<5]" by code_simp
  have v: "mcommittee_valid mcom4"
    by (simp add: mcommittee_valid_def committee_valid_def as_committee_def c upt_rec key_def)
  have n: "mnames mcom4 = {key 1, key 2, key 3, key 4}" by (auto simp: mnames_def c upt_rec)
  have "ackers ?hs ?as = {key 3, key 4}" by (auto simp: ackers_def)
  moreover have "sum (mnstake mcom4) {key 1, key 3, key 4} = 3" "unat (mquorum_threshold mcom4) = 3"
    by (simp_all add: key_def mnstake_def mstake_def mquorum_threshold_def c upt_rec)
  ultimately show ?thesis
    using quorum_waiter_availability [OF v, of "key 1" ?hs ?as "[5]"]
    by (simp add: n Let_def key_def insert_commute del: qw_task_run.simps)
qed

text \<open>The twelve-second limit of the quorum waiter frees its main loop but does not drop the batch: an
  answer that comes after the timeout has the same effect on what is delivered as one that comes
  before it, in spite of the comment that the batch is dropped.\<close>

theorem quorum_waiter_timeout_keeps_batch:
  assumes "qw_current s = Some t"
  shows "qw_current (qw_step QwTimeout s) = None \<and>
    qw_out (qw_step (QwLate (length (qw_detached s)) h r) (qw_step QwTimeout s)) =
      qw_out (qw_step (QwAnswer h r) s)"
  using assms by (simp add: split_def Let_def nth_append)

theorem quorum_waiter_timeout_keeps_batch_witness:
  "qw_out (qw_step (QwLate 0 11 (Some (ascii ''Ack''))) (qw_step QwTimeout
    ((QuorumWaiter_spawn mcom4 1)\<lparr>qw_current := Some \<lparr>qt_batch = [5], qt_total = 2, qt_handlers = [(11, 1)]\<rparr>\<rparr>))) = [[5]]"
proof -
  let ?s = "(QuorumWaiter_spawn mcom4 1)\<lparr>qw_current := Some \<lparr>qt_batch = [5], qt_total = 2, qt_handlers = [(11, 1)]\<rparr>\<rparr>"
  have "qw_out (qw_step (QwAnswer 11 (Some (ascii ''Ack''))) ?s) = [[5]]" by code_simp
  with quorum_waiter_timeout_keeps_batch [of ?s _ 11 "Some (ascii ''Ack'')"] show ?thesis
    by (simp add: QuorumWaiter_spawn_def)
qed

text \<open>The garbage collection of the mempool synchronizer keeps exactly the requests made within
  \<open>gc_depth\<close> rounds of the round it is told, with no underflow when that round is below \<open>gc_depth\<close>,
  cancels the waiter of every request it drops, and records the round.\<close>

theorem mempool_gc_window:
  assumes "ms_step M (MsMessage now (MempoolCleanup round)) s = (r, s')"
  shows "r = Ok () \<and> ms_round s' = round \<and>
    ms_pending s' = filter (\<lambda>(d, e). unat round < unat (me_round e) + unat (ms_gc_depth s)) (ms_pending s) \<and>
    (\<forall>(d, e) \<in> set (ms_pending s) - set (ms_pending s'). \<forall>f \<in> set (ms_waiting s').
      mf_channel f = me_channel e \<longrightarrow> mf_cancelled f)"
proof (cases "round < ms_gc_depth s")
  case True
  then have "filter (\<lambda>(d, e). unat round < unat (me_round e) + unat (ms_gc_depth s)) (ms_pending s) = ms_pending s"
    by (auto simp: filter_id_conv word_less_nat_alt)
  with True assms show ?thesis by (auto simp: ms_cleanup_def act_simps)
next
  case False
  then have le: "ms_gc_depth s \<le> round" by simp
  have eq: "round - ms_gc_depth s < me_round e \<longleftrightarrow> unat round < unat (me_round e) + unat (ms_gc_depth s)" for e
    using le by (simp add: word_less_nat_alt unat_sub word_le_nat_alt less_diff_conv2)
  have s': "s' = snd (ms_cleanup round s)" "r = Ok ()"
    using assms by (simp_all add: ms_cleanup_def act_simps)
  have p: "ms_pending s' = filter (\<lambda>(d, e). unat round < unat (me_round e) + unat (ms_gc_depth s)) (ms_pending s)"
    "ms_round s' = round"
    using False by (simp_all add: s' ms_cleanup_def act_simps Let_def eq)
  have "mf_cancelled f" if "(d, e) \<in> set (ms_pending s) - set (ms_pending s')"
      "f \<in> set (ms_waiting s')" "mf_channel f = me_channel e" for d e f
  proof -
    have "(d, e) \<in> set (filter (\<lambda>(_, e). me_round e \<le> round - ms_gc_depth s) (ms_pending s))"
      using that(1) False by (auto simp: s' ms_cleanup_def act_simps Let_def)
    then have "me_channel e \<in> (\<lambda>(_, e). me_channel e) `
        set (filter (\<lambda>(_, e). me_round e \<le> round - ms_gc_depth s) (ms_pending s))"
      by (rule rev_image_eqI) simp
    with that(2,3) False show ?thesis
      by (auto simp: s' ms_cleanup_def act_simps Let_def simp del: set_filter split: if_splits)
  qed
  then show ?thesis using s'(2) p by blast
qed

theorem mempool_gc_window_witness:
  "ms_pending (snd (ms_step toy_mp (MsMessage 0 (MempoolCleanup 70)) ((MempoolSynchronizer_spawn (key 1) mcom4
    MempoolParameters_default 7)\<lparr>ms_pending := [([1], \<lparr>me_round = 20, me_channel = 0, me_timestamp = 0\<rparr>),
      ([2], \<lparr>me_round = 21, me_channel = 1, me_timestamp = 0\<rparr>)]\<rparr>))) =
    [([2], \<lparr>me_round = 21, me_channel = 1, me_timestamp = 0\<rparr>)]"
  using mempool_gc_window [OF surjective_pairing, of toy_mp 0 70 "(MempoolSynchronizer_spawn (key 1) mcom4
    MempoolParameters_default 7)\<lparr>ms_pending := [([1], \<lparr>me_round = 20, me_channel = 0, me_timestamp = 0\<rparr>),
      ([2], \<lparr>me_round = 21, me_channel = 1, me_timestamp = 0\<rparr>)]\<rparr>"]
  by (simp add: MempoolSynchronizer_spawn_def MempoolParameters_default_def del: ms_step.simps)

text \<open>A batch reaches the other nodes and is stored there under the digest its sender stores it under:
  the frame that the batch maker broadcasts makes a peer's receiver answer with an acknowledgement and
  hand the encoded batch to its processor; the two processors write the same value under the same key
  and report the same digest to their consensus.  The hypotheses are that decoding undoes encoding.\<close>

theorem batch_stored_alike:
  assumes "\<forall>m w. ser_mp M m = Inr w \<longrightarrow> de_mp M w = Inr m" "\<forall>m w. ser_dvf M m = Inr w \<longrightarrow> de_dvf M w = Inr m"
    and "ser_mp M (BatchMsg b) = Inr ser" "wrap_dvf M vid ser = (Ok wire :: (NetworkError, bytes) outcome)"
    and "hm vid = Some h" "mrh_processor_up h" "rocks_ok (rocks M)" "running st" "running st'"
  shows "rx_run (hs_of M) (mempool_dispatch M) [(hm, Some wire)] =
      (PeerClosed, [Reply (ascii ''Ack''), Deliver (ToProcessor ser)]) \<and>
    (let (st1, _, d) = processor_batch (hs_of M) ser st; (st1', _, d') = processor_batch (hs_of M) ser st' in
      d = d' \<and> store_read (rocks M) d st1 = Inr (Some ser) \<and> store_read (rocks M) d' st1' = Inr (Some ser))"
proof
  have "ser_dvf M \<lparr>version = VERSION, validator_id = vid, message = ser\<rparr> = Inr wire"
    using assms(4) by (auto simp: wrap_dvf_def unwrap_sum_def split: sum.splits)
  then have "de_dvf (hs_of M) wire = Inr \<lparr>version = VERSION, validator_id = vid, message = ser\<rparr>"
    using assms(2) by (simp add: hs_of_def hs_lib.truncate_def)
  moreover have "de_mp M ser = Inr (BatchMsg b)" using assms(1,3) by blast
  ultimately show "rx_run (hs_of M) (mempool_dispatch M) [(hm, Some wire)] =
      (PeerClosed, [Reply (ascii ''Ack''), Deliver (ToProcessor ser)])"
    using assms(5,6) by (simp add: rx_frame_def mempool_dispatch_def)
  have r: "rocks (hs_of M) = rocks M" by (simp add: hs_of_def hs_lib.truncate_def)
  show "let (st1, _, d) = processor_batch (hs_of M) ser st; (st1', _, d') = processor_batch (hs_of M) ser st' in
      d = d' \<and> store_read (rocks M) d st1 = Inr (Some ser) \<and> store_read (rocks M) d' st1' = Inr (Some ser)"
    using store_write_content [OF assms(7,8)] store_write_content [OF assms(7,9)]
    by (simp add: processor_batch_def r split_def Let_def store_read_running [OF _ assms(7)])
qed

definition codec2 :: mp_lib where
  "codec2 = hs_lib.extend ((toy [])\<lparr>
      ser_dvf := (\<lambda>m. if m = \<lparr>version = VERSION, validator_id = 7, message = [3]\<rparr> then Inr [2] else Inl 0),
      de_dvf := (\<lambda>b. if b = [2] then Inr \<lparr>version = VERSION, validator_id = 7, message = [3]\<rparr> else Inl 0)\<rparr>)
    \<lparr>ser_mp = (\<lambda>m. if m = BatchMsg [[1]] then Inr [3] else Inl 0),
     de_mp = (\<lambda>b. if b = [3] then Inr (BatchMsg [[1]]) else Inl 0)\<rparr>"

theorem batch_stored_alike_witness:
  "rx_run (hs_of codec2) (mempool_dispatch codec2)
    [([7 \<mapsto> \<lparr>mrh_helper_up = True, mrh_processor_up = True\<rparr>], Some [2])] =
    (PeerClosed, [Reply (ascii ''Ack''), Deliver (ToProcessor [3])])"
  by (rule batch_stored_alike [of codec2 "[[1]]" "[3]" 7 "[2]" "[7 \<mapsto> \<lparr>mrh_helper_up = True, mrh_processor_up = True\<rparr>]"
      "\<lparr>mrh_helper_up = True, mrh_processor_up = True\<rparr>" Store_new Store_new, THEN conjunct1])
    (simp_all add: codec2_def hs_lib.extend_def toy_def wrap_dvf_def Store_new_def)

text \<open>Mempool and consensus share one store, and the consensus helper trusts what it finds there: once
  the processor has stored a batch that does not decode as a block, a synchronisation request for the
  batch's digest in the name of any authority ends the helper's task.\<close>

theorem batch_request_kills_helper:
  assumes "rocks_ok (rocks L)" "running st" "processor_batch L batch st = (st', rs, d)"
    and "de_block L batch = Inl e" "address c origin = Some a"
  shows "helper_request L c vid st' d origin = Panic ''Failed to deserialize our own block''"
proof -
  have d: "d = batch_digest L batch" "st' = fst (store_write (rocks L) d batch st)"
    using assms(3) by (auto simp: processor_batch_def split_def Let_def)
  then have "store_read (rocks L) d st' = Inr (Some batch)"
    using store_write_content [OF assms(1,2)] store_read_running [OF _ assms(1)] by simp
  with assms(4,5) show ?thesis by (simp add: helper_request_def)
qed

theorem batch_request_kills_helper_witness:
  "helper_request (toy chain1) com4 7 (fst (processor_batch (toy chain1) [9, 9] Store_new))
    (batch_digest (toy chain1) [9, 9]) [2] = Panic ''Failed to deserialize our own block''"
proof -
  have "de_block (toy chain1) [9, 9] = Inl 4" "address com4 [2] = Some (addr 2)" by code_simp+
  with batch_request_kills_helper [of "toy chain1" Store_new "[9, 9]", OF _ _ _ this] show ?thesis
    by (simp add: processor_batch_def split_def Let_def) (simp add: toy_def Store_new_def)
qed

end
