(* ===== verification/Modular.thy ===== *)
theory Modular
  imports Prelude
begin

text \<open>
  Arithmetic modulo the order of the curve, and Lagrange interpolation there.

  A polynomial is the list of its coefficients, the constant first.  \<open>mod_field r iv\<close> says that
  \<open>iv\<close> inverts modulo \<open>r\<close> every number that \<open>r\<close> does not divide, as the scalar inversion of the
  curve library does.  The results are: a polynomial with as many roots as coefficients vanishes
  everywhere, and the value at zero is the combination of the values at any distinct points with
  the coefficients that the threshold scheme computes.
\<close>

section \<open>Polynomials as coefficient lists\<close>

fun polyval :: "int list \<Rightarrow> int \<Rightarrow> int" where
  "polyval [] x = 0"
| "polyval (c # cs) x = c + x * polyval cs x"

lemma polyval_sum: "polyval cs x = (\<Sum>i<length cs. cs ! i * x ^ i)"
proof (induction cs)
  case (Cons c cs)
  have "(\<Sum>i<length (c # cs). (c # cs) ! i * x ^ i) = c + (\<Sum>i<length cs. cs ! i * x ^ Suc i)"
    by (simp only: length_Cons sum.lessThan_Suc_shift) simp
  also have "\<dots> = c + x * (\<Sum>i<length cs. cs ! i * x ^ i)"
    by (simp add: sum_distrib_left algebra_simps)
  finally show ?case using Cons.IH by simp
qed simp

lemma polyval_append: "polyval (xs @ ys) x = polyval xs x + x ^ length xs * polyval ys x"
  by (induction xs) (simp_all add: algebra_simps)

lemma polyval_zero: "polyval cs 0 = (if cs = [] then 0 else hd cs)"
  by (cases cs) simp_all

text \<open>Division by a linear factor.\<close>

lemma polyval_divide:
  "\<exists>qs. length qs \<le> length cs - 1 \<and> (\<forall>x. polyval cs x = polyval cs a + (x - a) * polyval qs x)"
proof (induction cs)
  case Nil
  then show ?case by (intro exI [of _ "[]"]) simp
next
  case (Cons c cs)
  then obtain qs where qs: "length qs \<le> length cs - 1"
    "\<And>x. polyval cs x = polyval cs a + (x - a) * polyval qs x" by blast
  show ?case
  proof (cases "cs = []")
    case True
    then show ?thesis by (intro exI [of _ "[]"]) simp
  next
    case False
    show ?thesis
    proof (intro exI conjI allI)
      show "length (polyval cs a # qs) \<le> length (c # cs) - 1" using qs(1) False
        by (cases cs) simp_all
      fix x
      have "polyval (c # cs) x = c + x * (polyval cs a + (x - a) * polyval qs x)"
        using qs(2) [of x] by simp
      also have "\<dots> = polyval (c # cs) a + (x - a) * polyval (polyval cs a # qs) x"
        by (simp add: algebra_simps)
      finally show "polyval (c # cs) x =
        polyval (c # cs) a + (x - a) * polyval (polyval cs a # qs) x" .
    qed
  qed
qed

text \<open>The functions that fewer than \<open>n + 1\<close> coefficients describe.\<close>

definition polyfun :: "nat \<Rightarrow> (int \<Rightarrow> int) \<Rightarrow> bool" where
  "polyfun n f \<longleftrightarrow> (\<exists>cs. length cs \<le> n \<and> (\<forall>x. f x = polyval cs x))"

lemma polyfun_polyval: "length cs \<le> n \<Longrightarrow> polyfun n (polyval cs)"
  by (auto simp: polyfun_def)

lemma polyfun_mono: "polyfun n f \<Longrightarrow> n \<le> m \<Longrightarrow> polyfun m f"
  by (auto simp: polyfun_def intro: order_trans)

lemma polyfun_const: "polyfun (Suc n) (\<lambda>_. c)"
  unfolding polyfun_def by (intro exI [of _ "[c]"]) simp

lemma polyval_scale: "polyval (map (\<lambda>c. k * c) cs) x = k * polyval cs x"
  by (induction cs) (simp_all add: algebra_simps)

lemma polyfun_scale: "polyfun n f \<Longrightarrow> polyfun n (\<lambda>x. k * f x)"
  unfolding polyfun_def by (metis length_map polyval_scale)

lemma polyval_plus:
  "\<exists>cs. length cs \<le> max (length as) (length bs) \<and> (\<forall>x. polyval as x + polyval bs x = polyval cs x)"
proof (induction as arbitrary: bs)
  case Nil
  then show ?case by (intro exI [of _ bs]) simp
next
  case (Cons a as)
  show ?case
  proof (cases bs)
    case Nil
    then show ?thesis by (intro exI [of _ "a # as"]) simp
  next
    case (Cons b bs')
    obtain cs where "length cs \<le> max (length as) (length bs')"
      "\<And>x. polyval as x + polyval bs' x = polyval cs x" using Cons.IH by blast
    then show ?thesis using Cons
      by (intro exI [of _ "(a + b) # cs"]) (auto simp: algebra_simps simp flip: distrib_left)
  qed
qed

lemma polyfun_add: "polyfun n f \<Longrightarrow> polyfun n g \<Longrightarrow> polyfun n (\<lambda>x. f x + g x)"
  unfolding polyfun_def using polyval_plus by (metis max.bounded_iff max_def order_trans)

lemma polyfun_diff: "polyfun n f \<Longrightarrow> polyfun n g \<Longrightarrow> polyfun n (\<lambda>x. f x - g x)"
  using polyfun_add [of n f "\<lambda>x. - 1 * g x"] polyfun_scale [of n g "- 1"] by simp

lemma polyfun_sum: "finite A \<Longrightarrow> (\<And>i. i \<in> A \<Longrightarrow> polyfun n (f i)) \<Longrightarrow> polyfun n (\<lambda>x. \<Sum>i\<in>A. f i x)"
proof (induction A rule: finite_induct)
  case empty
  then show ?case unfolding polyfun_def by (intro exI [of _ "[]"]) simp
next
  case (insert a A)
  then show ?case using polyfun_add [of n "f a" "\<lambda>x. \<Sum>i\<in>A. f i x"] by simp
qed

lemma polyfun_linear: "polyfun n f \<Longrightarrow> polyfun (Suc n) (\<lambda>x. (a - x) * k * f x)"
proof -
  assume f: "polyfun n f"
  then obtain cs where cs: "length cs \<le> n" "\<And>x. f x = polyval cs x" by (auto simp: polyfun_def)
  have "polyfun (Suc n) (polyval (0 # cs))" using cs(1) by (intro polyfun_polyval) simp
  then have "polyfun (Suc n) (\<lambda>x. (- k) * polyval (0 # cs) x)" by (rule polyfun_scale)
  moreover have "polyfun (Suc n) (\<lambda>x. (a * k) * f x)"
    using f by (intro polyfun_scale polyfun_mono [OF f]) simp
  ultimately have "polyfun (Suc n) (\<lambda>x. (a * k) * f x + (- k) * polyval (0 # cs) x)"
    by (intro polyfun_add)
  moreover have "(\<lambda>x. (a * k) * f x + (- k) * polyval (0 # cs) x) = (\<lambda>x. (a - x) * k * f x)"
    using cs(2) by (auto simp: algebra_simps)
  ultimately show ?thesis by simp
qed

lemma polyfun_prod:
  "finite A \<Longrightarrow> polyfun (Suc (card A)) (\<lambda>x. \<Prod>j\<in>A. (a j - x) * k j)"
proof (induction A rule: finite_induct)
  case empty
  then show ?case using polyfun_const [of 0 1] by simp
next
  case (insert b A)
  then show ?case using polyfun_linear [of "Suc (card A)" "\<lambda>x. \<Prod>j\<in>A. (a j - x) * k j" "a b" "k b"]
    by simp
qed

section \<open>Arithmetic modulo the order\<close>

definition mod_field :: "int \<Rightarrow> (int \<Rightarrow> int) \<Rightarrow> bool" where
  "mod_field r iv \<longleftrightarrow> 1 < r \<and> (\<forall>a. a mod r \<noteq> 0 \<longrightarrow> a * iv a mod r = 1)"

lemma mod_field_pos: "mod_field r iv \<Longrightarrow> 0 < r" by (simp add: mod_field_def)

lemma mod_field_integral:
  assumes "mod_field r iv" "r dvd a * b"
  shows "r dvd a \<or> r dvd b"
proof (rule disjCI)
  assume "\<not> r dvd b"
  then have "b * iv b mod r = 1" using assms(1) by (auto simp: mod_field_def dvd_eq_mod_eq_0)
  then have "a mod r = a * (b * iv b) mod r" by (metis mod_mult_right_eq mult.right_neutral)
  also have "\<dots> = (a * b) * iv b mod r" by (simp add: mult.assoc)
  also have "\<dots> = 0" using assms(2) by (metis dvd_mult2 dvd_eq_mod_eq_0)
  finally show "r dvd a" by (simp add: dvd_eq_mod_eq_0)
qed

definition apart :: "int \<Rightarrow> int list \<Rightarrow> bool" where
  "apart r xs \<longleftrightarrow> distinct (map (\<lambda>x. x mod r) xs)"

lemma apart_nth:
  "apart r xs \<Longrightarrow> i < length xs \<Longrightarrow> j < length xs \<Longrightarrow> i \<noteq> j \<Longrightarrow> \<not> r dvd xs ! i - xs ! j"
  by (simp add: apart_def distinct_conv_nth mod_eq_dvd_iff)

theorem roots_vanish:
  assumes "mod_field r iv" "apart r as" "length cs \<le> length as"
    and "\<And>a. a \<in> set as \<Longrightarrow> r dvd polyval cs a"
  shows "r dvd polyval cs x"
  using assms(2-4)
proof (induction as arbitrary: cs x)
  case (Cons a as)
  obtain qs where qs: "length qs \<le> length cs - 1"
    "\<And>y. polyval cs y = polyval cs a + (y - a) * polyval qs y" using polyval_divide by blast
  have a: "r dvd polyval cs a" using Cons.prems(3) by simp
  have step: "r dvd polyval qs y \<longleftrightarrow> r dvd polyval cs y" if "\<not> r dvd y - a" for y
    using that a qs(2) [of y] mod_field_integral [OF assms(1), of "y - a" "polyval qs y"]
    by (metis dvd_add_right_iff dvd_mult)
  have "r dvd polyval qs x"
  proof (rule Cons.IH)
    show "apart r as" using Cons.prems(1) by (simp add: apart_def)
    show "length qs \<le> length as" using qs(1) Cons.prems(2) by simp
    fix b assume b: "b \<in> set as"
    have "a mod r \<notin> (\<lambda>x. x mod r) ` set as" using Cons.prems(1) by (simp add: apart_def)
    with b have "b mod r \<noteq> a mod r" by (metis image_eqI)
    then have "\<not> r dvd b - a" by (simp add: mod_eq_dvd_iff)
    then show "r dvd polyval qs b" using step Cons.prems(3) b by simp
  qed
  then show ?case using qs(2) [of x] a by simp
qed simp

section \<open>Interpolation at zero\<close>

definition lagrange :: "(int \<Rightarrow> int) \<Rightarrow> int list \<Rightarrow> nat \<Rightarrow> int" where
  "lagrange iv xs i = (\<Prod>j\<in>{..<length xs} - {i}. xs ! j * iv (xs ! j - xs ! i))"

lemma prod_mod_one: "finite A \<Longrightarrow> (\<And>j. j \<in> A \<Longrightarrow> f j mod r = (1::int) mod r) \<Longrightarrow> prod f A mod r = 1 mod r"
proof (induction A rule: finite_induct)
  case (insert b A)
  have "f b * prod f A mod r = (f b mod r) * (prod f A mod r) mod r" by (simp only: mod_mult_eq)
  also have "\<dots> = (1 mod r) * (1 mod r) mod r"
    using insert.IH insert.prems by (simp only: insertI1 insertI2)
  also have "\<dots> = 1 mod r" by (simp only: mod_mult_eq mult_1)
  finally show ?case using insert.hyps by simp
qed simp

lemma sum_mod_cong:
  "(\<And>i. i \<in> A \<Longrightarrow> f i mod r = g i mod r) \<Longrightarrow> sum f A mod r = sum g A mod (r::int)"
  by (subst (1 2) mod_sum_eq [symmetric]) (simp cong: sum.cong)

lemma basis_at_point:
  assumes "mod_field r iv" "apart r xs" "i < length xs" "k < length xs"
  shows "(\<Prod>j\<in>{..<length xs} - {i}. (xs ! j - xs ! k) * iv (xs ! j - xs ! i)) mod r =
    (if i = k then 1 else 0)"
proof (cases "i = k")
  case True
  have "(\<Prod>j\<in>{..<length xs} - {i}. (xs ! j - xs ! i) * iv (xs ! j - xs ! i)) mod r = 1 mod r"
  proof (rule prod_mod_one)
    fix j assume "j \<in> {..<length xs} - {i}"
    then have "\<not> r dvd xs ! j - xs ! i" using apart_nth [OF assms(2)] assms(3) by simp
    then show "(xs ! j - xs ! i) * iv (xs ! j - xs ! i) mod r = 1 mod r"
      using assms(1) by (simp add: mod_field_def dvd_eq_mod_eq_0)
  qed simp
  then show ?thesis using True assms(1) by (simp add: mod_field_def)
next
  case False
  then have "k \<in> {..<length xs} - {i}" using assms(4) by simp
  then have "(\<Prod>j\<in>{..<length xs} - {i}. (xs ! j - xs ! k) * iv (xs ! j - xs ! i)) = 0"
    by (intro prod_zero) auto
  then show ?thesis unfolding if_not_P [OF False] by (simp only: mod_0)
qed

theorem lagrange_at_zero:
  assumes F: "mod_field r iv" and X: "apart r xs" and len: "length cs \<le> length xs"
  shows "(\<Sum>i<length xs. polyval cs (xs ! i) * lagrange iv xs i) mod r = polyval cs 0 mod r"
proof -
  let ?b = "\<lambda>i x. \<Prod>j\<in>{..<length xs} - {i}. (xs ! j - x) * iv (xs ! j - xs ! i)"
  let ?D = "\<lambda>x. polyval cs x - (\<Sum>i<length xs. polyval cs (xs ! i) * ?b i x)"
  have "polyfun (length xs) (\<lambda>x. polyval cs (xs ! i) * ?b i x)" if "i < length xs" for i
  proof -
    have "Suc (card ({..<length xs} - {i})) = length xs" using that by simp
    with polyfun_prod [of "{..<length xs} - {i}" "\<lambda>j. xs ! j" "\<lambda>j. iv (xs ! j - xs ! i)"]
    have "polyfun (length xs) (?b i)" by (simp only: finite_lessThan finite_Diff)
    then show ?thesis by (rule polyfun_scale)
  qed
  then have "polyfun (length xs) (\<lambda>x. \<Sum>i<length xs. polyval cs (xs ! i) * ?b i x)"
    by (intro polyfun_sum) (simp_all only: finite_lessThan lessThan_iff)
  then have "polyfun (length xs) ?D" by (rule polyfun_diff [OF polyfun_polyval [OF len]])
  then obtain ds where ds: "length ds \<le> length xs" "\<And>x. ?D x = polyval ds x"
    by (auto simp: polyfun_def)
  have root: "r dvd polyval ds (xs ! k)" if k: "k < length xs" for k
  proof -
    have "(\<Sum>i<length xs. polyval cs (xs ! i) * ?b i (xs ! k)) mod r =
      (\<Sum>i<length xs. if i = k then polyval cs (xs ! i) else 0) mod r"
    proof (rule sum_mod_cong)
      fix i assume "i \<in> {..<length xs}"
      then have b: "?b i (xs ! k) mod r = (if i = k then 1 else 0)"
        by (intro basis_at_point [OF F X _ k]) (simp only: lessThan_iff)
      have "polyval cs (xs ! i) * ?b i (xs ! k) mod r =
        polyval cs (xs ! i) * (if i = k then 1 else 0) mod r"
        by (subst b [symmetric]) (simp only: mod_mult_right_eq)
      also have "\<dots> = (if i = k then polyval cs (xs ! i) else 0) mod r" by simp
      finally show "polyval cs (xs ! i) * ?b i (xs ! k) mod r =
        (if i = k then polyval cs (xs ! i) else 0) mod r" .
    qed
    also have "\<dots> = polyval cs (xs ! k) mod r" using k by simp
    finally have "r dvd ?D (xs ! k)" by (intro iffD1 [OF mod_eq_dvd_iff]) (rule sym)
    then show ?thesis unfolding ds(2) .
  qed
  have "r dvd polyval ds 0"
  proof (rule roots_vanish [OF F X ds(1)])
    fix a assume "a \<in> set xs"
    then obtain k where "k < length xs" "a = xs ! k" by (metis in_set_conv_nth)
    then show "r dvd polyval ds a" by (simp only: root)
  qed
  then have "r dvd ?D 0" unfolding ds(2) .
  then have "polyval cs 0 mod r = (\<Sum>i<length xs. polyval cs (xs ! i) * ?b i 0) mod r"
    by (simp only: mod_eq_dvd_iff)
  then show ?thesis by (simp only: lagrange_def diff_zero)
qed

end
