(* ===== verification/BlstLib.thy ===== *)
theory BlstLib
  imports Modular
begin

text \<open>
  The curve library as a parameter, and the wrappers of \<open>src/utils/blst_utils.rs\<close>,
  \<open>src/utils/error.rs\<close>, \<open>src/math/bigint_ext.rs\<close>.

  \<^item> \<open>blst_lib\<close> has one field per function of the crates \<open>blst\<close>, \<open>bls\<close> and \<open>num_bigint\<close> that the
    code calls.  \<open>'p1\<close>, \<open>'p2\<close> are the points of the two groups.
  \<^item> A \<open>BigInt\<close> is an \<open>int\<close>.  A \<open>blst_scalar\<close> is the number its 32 little-endian bytes denote.
    A \<open>SecretKey\<close>, \<open>PublicKey\<close> or \<open>Signature\<close> of the \<open>bls\<close> crate is its serialisation.
  \<^item> \<open>bigint_ok\<close>, \<open>field_ok\<close>, \<open>group1_ok\<close>, \<open>group2_ok\<close>, \<open>keys_ok\<close> state what these crates document:
    conversions of numbers, arithmetic modulo the prime order, the two groups of that order with
    their encodings, and BLS keys and signatures.
\<close>

section \<open>Errors\<close>

datatype DvfError =
    BlsError lib_error
  | BlstError lib_error
  | ConsensusFailure string
  | KeyGenError string
  | InsufficientSignatures (got: nat) (expected: nat)
  | InsufficientValidSignatures (got: nat) (expected: nat)
  | InvalidSignatureShare u64
  | InvalidOperatorId u64
  | DifferentLength nat nat
  | InvalidLength
  | UnexpectedCall string
  | StoreError string
  | VssShareVerificationFailed
  | InvalidDkgShare "(u64 \<times> u64) list"
  | CommitmentVerificationFailed
  | ZKProofInvalidInput
  | ZKVerificationFailed
  | InsufficientValidPks
  | SocketAddrUnknown
  | ValidatorStoreNotReady
  | Unknown
  | BeaconNodeClientError
  | BeaconNodeGenesisError
  | BeaconNodeValidatorError string
  | BeaconNodeStateForkError string

definition require :: "bool \<Rightarrow> string \<Rightarrow> ('e, unit) outcome" where
  "require status msg = (if \<not> status then Panic msg else Ok ())"

section \<open>The library\<close>

type_synonym blst_scalar = int
type_synonym WrapSecretKey = bytes
type_synonym WrapPublicKey = bytes
type_synonym WrapSignature = bytes
type_synonym Hash256 = bytes

record WrapKeypair =
  kp_pk :: WrapPublicKey
  kp_sk :: WrapSecretKey

record ('p1, 'p2) blst_lib =
  MODULUS :: int
  to_bytes_be :: "int \<Rightarrow> bytes"
  to_bytes_le :: "int \<Rightarrow> bytes"
  from_bytes_be :: "bytes \<Rightarrow> int"
  from_bytes_le :: "bytes \<Rightarrow> int"
  blst_sk_add_n_check :: "blst_scalar \<Rightarrow> blst_scalar \<Rightarrow> blst_scalar"
  blst_sk_sub_n_check :: "blst_scalar \<Rightarrow> blst_scalar \<Rightarrow> blst_scalar"
  blst_sk_mul_n_check :: "blst_scalar \<Rightarrow> blst_scalar \<Rightarrow> blst_scalar"
  blst_sk_inverse :: "blst_scalar \<Rightarrow> blst_scalar"
  blst_scalar_from_le_bytes :: "bytes \<Rightarrow> blst_scalar"
  blst_scalar_from_be_bytes :: "bytes \<Rightarrow> blst_scalar"
  blst_keygen :: "bytes \<Rightarrow> blst_scalar"
  p1_generator :: 'p1
  p1_default :: 'p1
  hash_to_g1 :: "bytes \<Rightarrow> 'p1"
  p1_in_g1 :: "'p1 \<Rightarrow> bool"
  p1_add :: "'p1 \<Rightarrow> 'p1 \<Rightarrow> 'p1"
  p1_mult :: "'p1 \<Rightarrow> blst_scalar \<Rightarrow> nat \<Rightarrow> 'p1"
  p1s_add :: "'p1 list \<Rightarrow> 'p1"
  p1_compress :: "'p1 \<Rightarrow> bytes"
  p1_uncompress :: "bytes \<Rightarrow> 'p1"
  sk_to_pk_in_g1 :: "blst_scalar \<Rightarrow> 'p1"
  p2_in_g2 :: "'p2 \<Rightarrow> bool"
  p2_add :: "'p2 \<Rightarrow> 'p2 \<Rightarrow> 'p2"
  p2_mult :: "'p2 \<Rightarrow> blst_scalar \<Rightarrow> nat \<Rightarrow> 'p2"
  hash_to_g2 :: "bytes \<Rightarrow> 'p2"
  p2_compress :: "'p2 \<Rightarrow> bytes"
  p2_serialize :: "'p2 \<Rightarrow> bytes"
  p2_deserialize :: "bytes \<Rightarrow> 'p2"
  core_from_bytes :: "bytes \<Rightarrow> lib_error + 'p2"
  core_deserialize :: "bytes \<Rightarrow> lib_error + 'p2"
  INFINITY_SIGNATURE :: bytes
  sk_deserialize :: "bytes \<Rightarrow> lib_error + WrapSecretKey"
  sk_public_key :: "WrapSecretKey \<Rightarrow> WrapPublicKey"
  sk_sign :: "WrapSecretKey \<Rightarrow> bytes \<Rightarrow> WrapSignature"
  pk_deserialize :: "bytes \<Rightarrow> lib_error + WrapPublicKey"
  sig_deserialize :: "bytes \<Rightarrow> lib_error + WrapSignature"
  sig_verify :: "WrapSignature \<Rightarrow> WrapPublicKey \<Rightarrow> Hash256 \<Rightarrow> bool"

section \<open>Wrappers\<close>

text \<open>The number that big-endian bytes denote, and the little-endian bytes of a number.\<close>

fun be_val :: "bytes \<Rightarrow> int" where
  "be_val [] = 0"
| "be_val (b # bs) = uint b * 256 ^ length bs + be_val bs"

fun le_digits :: "nat \<Rightarrow> int \<Rightarrow> bytes" where
  "le_digits 0 v = []"
| "le_digits (Suc n) v = word_of_int (v mod 256) # le_digits n (v div 256)"

definition u64_to_blst_scalar :: "u64 \<Rightarrow> blst_scalar" where
  "u64_to_blst_scalar v = uint v"

definition bigint_to_blst_scalar :: "('p1, 'p2) blst_lib \<Rightarrow> int \<Rightarrow> blst_scalar" where
  "bigint_to_blst_scalar L v = blst_scalar_from_be_bytes L (to_bytes_be L v)"

definition blst_scalar_to_bytes :: "blst_scalar \<Rightarrow> bytes" where
  "blst_scalar_to_bytes x = le_digits 32 x"

definition blst_scalar_to_bigint :: "('p1, 'p2) blst_lib \<Rightarrow> blst_scalar \<Rightarrow> int" where
  "blst_scalar_to_bigint L s = from_bytes_le L (le_digits 32 s)"

definition fixed_p1_generator :: "('p1, 'p2) blst_lib \<Rightarrow> 'p1" where
  "fixed_p1_generator L = p1_generator L"

definition another_p1_generator :: "('p1, 'p2) blst_lib \<Rightarrow> 'p1" where
  "another_p1_generator L = hash_to_g1 L (map of_char ''dvf another generator'')"

definition blst_scalar_mult where
  "blst_scalar_mult L a b = blst_sk_mul_n_check L a b" for L :: "('p1, 'p2) blst_lib"

definition blst_scalar_sub where
  "blst_scalar_sub L a b = blst_sk_sub_n_check L a b" for L :: "('p1, 'p2) blst_lib"

definition blst_scalar_add where
  "blst_scalar_add L a b = blst_sk_add_n_check L a b" for L :: "('p1, 'p2) blst_lib"

definition blst_p1_mult :: "('p1, 'p2) blst_lib \<Rightarrow> 'p1 \<Rightarrow> blst_scalar \<Rightarrow> 'p1" where
  "blst_p1_mult L a b = p1_mult L a b 255"

definition blst_p1_add :: "('p1, 'p2) blst_lib \<Rightarrow> 'p1 \<Rightarrow> 'p1 \<Rightarrow> 'p1" where
  "blst_p1_add L a b = p1_add L a b"

definition blst_p1_to_bytes :: "('p1, 'p2) blst_lib \<Rightarrow> 'p1 \<Rightarrow> bytes" where
  "blst_p1_to_bytes L x = p1_compress L x"

text \<open>
  \<open>blst_p1_uncompress\<close> reads 48 bytes from the pointer and its error code is dropped, so a failed
  decoding leaves the default point.
\<close>

definition bytes_to_blst_p1 :: "('p1, 'p2) blst_lib \<Rightarrow> bytes \<Rightarrow> 'p1" where
  "bytes_to_blst_p1 L b = p1_uncompress L b"

definition blst_p1s_add :: "('p1, 'p2) blst_lib \<Rightarrow> 'p1 list \<Rightarrow> 'p1" where
  "blst_p1s_add L points = p1s_add L points"

definition blst_ecdh_shared_secret :: "('p1, 'p2) blst_lib \<Rightarrow> 'p1 \<Rightarrow> blst_scalar \<Rightarrow> 'p1" where
  "blst_ecdh_shared_secret L other_pk self_sk = blst_p1_mult L other_pk self_sk"

definition blst_sk_to_pk :: "('p1, 'p2) blst_lib \<Rightarrow> blst_scalar \<Rightarrow> 'p1" where
  "blst_sk_to_pk L sk = sk_to_pk_in_g1 L sk"

definition random_blst_scalar :: "('p1, 'p2) blst_lib \<Rightarrow> bytes \<Rightarrow> blst_scalar" where
  "random_blst_scalar L ikm = blst_keygen L ikm"

text \<open>Secret keys travel as little-endian bytes; \<open>SecretKey\<close> itself serialises big-endian.\<close>

definition blst_wrap_sk_to_bytes :: "WrapSecretKey \<Rightarrow> bytes" where
  "blst_wrap_sk_to_bytes k = rev k"

definition bytes_to_blst_wrap_sk ::
  "('p1, 'p2) blst_lib \<Rightarrow> bytes \<Rightarrow> ('e, WrapSecretKey) outcome" where
  "bytes_to_blst_wrap_sk L b = unwrap_sum (sk_deserialize L (rev b)) ''called `Result::unwrap()` on an `Err` value''"

definition bytes_to_blst_scalar :: "('p1, 'p2) blst_lib \<Rightarrow> bytes \<Rightarrow> blst_scalar" where
  "bytes_to_blst_scalar L b = blst_scalar_from_le_bytes L b"

definition blst_scalar_to_blst_wrap_sk ::
  "('p1, 'p2) blst_lib \<Rightarrow> blst_scalar \<Rightarrow> ('e, WrapSecretKey) outcome" where
  "blst_scalar_to_blst_wrap_sk L p = bytes_to_blst_wrap_sk L (blst_scalar_to_bytes p)"

definition blst_wrap_sk_to_blst_scalar :: "('p1, 'p2) blst_lib \<Rightarrow> WrapSecretKey \<Rightarrow> blst_scalar" where
  "blst_wrap_sk_to_blst_scalar L p = bytes_to_blst_scalar L (blst_wrap_sk_to_bytes p)"

definition bytes_to_blst_wrap_pk ::
  "('p1, 'p2) blst_lib \<Rightarrow> bytes \<Rightarrow> ('e, WrapPublicKey) outcome" where
  "bytes_to_blst_wrap_pk L b = unwrap_sum (pk_deserialize L b) ''called `Result::unwrap()` on an `Err` value''"

definition blst_p1_to_blst_wrap_pk ::
  "('p1, 'p2) blst_lib \<Rightarrow> 'p1 \<Rightarrow> ('e, WrapPublicKey) outcome" where
  "blst_p1_to_blst_wrap_pk L p = bytes_to_blst_wrap_pk L (blst_p1_to_bytes L p)"

text \<open>The challenge of the proofs: the points' encodings, concatenated and reduced.\<close>

definition hash_points_to_blst_scalar :: "('p1, 'p2) blst_lib \<Rightarrow> 'p1 list \<Rightarrow> blst_scalar" where
  "hash_points_to_blst_scalar L v =
    (let material = map (blst_p1_to_bytes L) v in bytes_to_blst_scalar L (concat material))"

text \<open>
  \<open>Ring::reduce\<close>: the remainder of Rust's truncating division, corrected when it is negative.
\<close>

definition rust_rem :: "int \<Rightarrow> int \<Rightarrow> int" where
  "rust_rem a m = sgn a * (\<bar>a\<bar> mod \<bar>m\<bar>)"

definition reduce :: "int \<Rightarrow> int \<Rightarrow> int" where
  "reduce self m = (let result = rust_rem self m in if result < 0 then result + m else result)"

section \<open>What the library documents\<close>

definition bigint_ok :: "('p1, 'p2) blst_lib \<Rightarrow> bool" where
  "bigint_ok L \<longleftrightarrow>
    (\<forall>b. from_bytes_be L b = be_val b) \<and> (\<forall>b. from_bytes_le L b = be_val (rev b)) \<and>
    (\<forall>v. be_val (to_bytes_be L v) = \<bar>v\<bar> \<and> to_bytes_le L v = rev (to_bytes_be L v)) \<and>
    (\<forall>v. \<bar>v\<bar> < 2 ^ 256 \<longrightarrow> length (to_bytes_be L v) \<le> 32)"

definition is_scalar :: "('p1, 'p2) blst_lib \<Rightarrow> blst_scalar \<Rightarrow> bool" where
  "is_scalar L a \<longleftrightarrow> 0 \<le> a \<and> a < MODULUS L"

definition field_ok :: "('p1, 'p2) blst_lib \<Rightarrow> bool" where
  "field_ok L \<longleftrightarrow> 1 < MODULUS L \<and> MODULUS L < 2 ^ 255 \<and>
    (\<forall>a. is_scalar L a \<longrightarrow> a \<noteq> 0 \<longrightarrow> a * blst_sk_inverse L a mod MODULUS L = 1 \<and>
      is_scalar L (blst_sk_inverse L a)) \<and>
    (\<forall>a b. is_scalar L a \<longrightarrow> is_scalar L b \<longrightarrow>
      blst_sk_add_n_check L a b = (a + b) mod MODULUS L \<and>
      blst_sk_sub_n_check L a b = (a - b) mod MODULUS L \<and>
      blst_sk_mul_n_check L a b = (a * b) mod MODULUS L) \<and>
    (\<forall>b. blst_scalar_from_le_bytes L b = be_val (rev b) mod MODULUS L \<and>
      blst_scalar_from_be_bytes L b = be_val b mod MODULUS L \<and> is_scalar L (blst_keygen L b))"

definition group1_ok :: "('p1, 'p2) blst_lib \<Rightarrow> bool" where
  "group1_ok L \<longleftrightarrow> p1_in_g1 L (p1_generator L) \<and> (\<forall>m. p1_in_g1 L (hash_to_g1 L m)) \<and>
    (\<forall>P a b. p1_in_g1 L P \<longrightarrow> is_scalar L a \<longrightarrow> is_scalar L b \<longrightarrow>
      p1_in_g1 L (p1_mult L P a 255) \<and>
      p1_add L (p1_mult L P a 255) (p1_mult L P b 255) = p1_mult L P ((a + b) mod MODULUS L) 255 \<and>
      p1_mult L (p1_mult L P a 255) b 255 = p1_mult L P (a * b mod MODULUS L) 255) \<and>
    (\<forall>P. p1_in_g1 L P \<longrightarrow> length (p1_compress L P) = 48 \<and> p1_uncompress L (p1_compress L P) = P) \<and>
    (\<forall>Ps. p1s_add L Ps = foldr (p1_add L) Ps (p1_default L)) \<and>
    (\<forall>P. p1_in_g1 L P \<longrightarrow> p1_mult L P 0 255 = p1_default L) \<and>
    (\<forall>a. sk_to_pk_in_g1 L a = p1_mult L (p1_generator L) a 255)"

definition group2_ok :: "('p1, 'p2) blst_lib \<Rightarrow> bool" where
  "group2_ok L \<longleftrightarrow> (\<forall>m. p2_in_g2 L (hash_to_g2 L m)) \<and>
    (\<forall>P a b. p2_in_g2 L P \<longrightarrow> is_scalar L a \<longrightarrow> is_scalar L b \<longrightarrow>
      p2_in_g2 L (p2_mult L P a 255) \<and>
      p2_add L (p2_mult L P a 255) (p2_mult L P b 255) = p2_mult L P ((a + b) mod MODULUS L) 255 \<and>
      p2_mult L (p2_mult L P a 255) b 255 = p2_mult L P (a * b mod MODULUS L) 255) \<and>
    (\<forall>P. p2_in_g2 L P \<longrightarrow> p2_deserialize L (p2_compress L P) = P \<and>
      core_deserialize L (p2_serialize L P) = Inr P \<and>
      sig_deserialize L (p2_compress L P) = Inr (p2_compress L P) \<and>
      core_from_bytes L (INFINITY_SIGNATURE L) = Inr (p2_mult L P 0 255))"

definition valid_sk :: "('p1, 'p2) blst_lib \<Rightarrow> WrapSecretKey \<Rightarrow> bool" where
  "valid_sk L k \<longleftrightarrow> length k = 32 \<and> 0 < be_val k \<and> be_val k < MODULUS L"

definition keys_ok :: "('p1, 'p2) blst_lib \<Rightarrow> bool" where
  "keys_ok L \<longleftrightarrow>
    (\<forall>k. if valid_sk L k then sk_deserialize L k = Inr k else isl (sk_deserialize L k)) \<and>
    (\<forall>k. valid_sk L k \<longrightarrow>
      sk_public_key L k = p1_compress L (p1_mult L (p1_generator L) (be_val k) 255) \<and>
      (\<forall>m. sk_sign L k m = p2_compress L (p2_mult L (hash_to_g2 L m) (be_val k) 255) \<and>
        (\<forall>s. sig_verify L s (sk_public_key L k) m \<longleftrightarrow> s = sk_sign L k m)))"

section \<open>Lemmas\<close>

lemma mod_is_scalar [simp]: "field_ok L \<Longrightarrow> is_scalar L (a mod MODULUS L)"
  by (simp add: is_scalar_def field_ok_def)

lemma field_ok_modulus: "field_ok L \<Longrightarrow> 1 < MODULUS L" "field_ok L \<Longrightarrow> MODULUS L < 2 ^ 255"
  by (simp_all add: field_ok_def)

lemma scalar_ops:
  assumes "field_ok L" "is_scalar L a" "is_scalar L b"
  shows "blst_sk_add_n_check L a b = (a + b) mod MODULUS L"
    "blst_sk_sub_n_check L a b = (a - b) mod MODULUS L"
    "blst_sk_mul_n_check L a b = (a * b) mod MODULUS L"
  using assms by (simp_all add: field_ok_def)

lemma field_ok_mod_field:
  assumes "field_ok L"
  shows "mod_field (MODULUS L) (\<lambda>a. blst_sk_inverse L (a mod MODULUS L))"
  unfolding mod_field_def
proof (intro conjI allI impI)
  show "1 < MODULUS L" using assms by (rule field_ok_modulus)
  fix a assume "a mod MODULUS L \<noteq> 0"
  then have "(a mod MODULUS L) * blst_sk_inverse L (a mod MODULUS L) mod MODULUS L = 1"
    using assms mod_is_scalar [OF assms, of a] by (simp add: field_ok_def del: mod_is_scalar)
  then show "a * blst_sk_inverse L (a mod MODULUS L) mod MODULUS L = 1"
    by (simp only: mod_mult_left_eq)
qed

lemma keys_ok_deserialize:
  "keys_ok L \<Longrightarrow> if valid_sk L k then sk_deserialize L k = Inr k else isl (sk_deserialize L k)"
  by (simp add: keys_ok_def)

lemma keys_ok_sign:
  assumes "keys_ok L" "valid_sk L k"
  shows "sk_public_key L k = p1_compress L (p1_mult L (p1_generator L) (be_val k) 255)"
    "sk_sign L k m = p2_compress L (p2_mult L (hash_to_g2 L m) (be_val k) 255)"
    "sig_verify L s (sk_public_key L k) m \<longleftrightarrow> s = sk_sign L k m"
  using assms unfolding keys_ok_def by blast+

lemma valid_sk_scalar: "valid_sk L k \<Longrightarrow> is_scalar L (be_val k)"
  by (simp add: valid_sk_def is_scalar_def)

lemma be_val_bounds: "0 \<le> be_val bs \<and> be_val bs < 256 ^ length bs"
proof (induction bs)
  case (Cons b bs)
  have "uint b \<le> 255" using uint_bounded [of b] by simp
  then have "uint b * 256 ^ length bs \<le> 255 * (256 ^ length bs :: int)"
    by (intro mult_right_mono) simp_all
  with Cons have "uint b * 256 ^ length bs + be_val bs < 256 * 256 ^ length bs" by linarith
  then show ?case using Cons by simp
qed simp

lemma be_val_append: "be_val (xs @ ys) = be_val xs * 256 ^ length ys + be_val ys"
  by (induction xs) (simp_all add: algebra_simps power_add)

lemma be_val_zeros [simp]: "be_val (replicate n 0) = 0"
  by (induction n) simp_all

lemma length_le_digits [simp]: "length (le_digits n v) = n"
  by (induction n arbitrary: v) simp_all

lemma be_val_le_digits: "0 \<le> v \<Longrightarrow> be_val (rev (le_digits n v)) = v mod 256 ^ n"
proof (induction n arbitrary: v)
  case (Suc n)
  have "be_val (rev (le_digits (Suc n) v)) = (v div 256) mod 256 ^ n * 256 + v mod 256"
    using Suc by (simp add: be_val_append take_bit_eq_mod uint_word_of_int)
  also have "\<dots> = v mod 256 ^ Suc n" by (simp add: zmod_zmult2_eq [of "256 ^ n" v 256] algebra_simps)
  finally show ?case .
qed simp

text \<open>\<open>reduce\<close> is the mathematical remainder.\<close>

lemma reduce_mod: "0 < m \<Longrightarrow> reduce a m = a mod m"
proof -
  assume m: "0 < m"
  consider "0 \<le> a" | "a < 0" "(- a) mod m = 0" | "a < 0" "(- a) mod m \<noteq> 0" by linarith
  then show ?thesis
  proof cases
    case 1
    then have "rust_rem a m = a mod m" using m by (cases "a = 0") (simp_all add: rust_rem_def)
    moreover have "0 \<le> a mod m" using m by simp
    ultimately show ?thesis by (simp add: reduce_def)
  next
    case 2
    then have "a mod m = 0" by (simp only: mod_eq_0_iff_dvd dvd_minus_iff)
    then show ?thesis using 2 m by (simp add: reduce_def rust_rem_def)
  next
    case 3
    have "0 < (- a) mod m" using 3 m by (simp add: order_less_le)
    then have "reduce a m = m - (- a) mod m" using 3 m by (simp add: reduce_def rust_rem_def)
    then show ?thesis using 3 zmod_zminus1_eq_if [of "- a" m] by simp
  qed
qed

end
