(* ===== verification/Threshold.thy ===== *)
theory Threshold
  imports BlstLib
begin

text \<open>
  Threshold signatures: polynomials and their commitments (\<open>src/math/polynomial.rs\<close>), splitting of a
  key and aggregation of signature shares (\<open>src/crypto/generic_threshold.rs\<close>,
  \<open>src/crypto/impls/blst.rs\<close>).  The random generator is the function \<open>sample\<close>, its answer to
  \<open>sample_vec(len, modulus)\<close>.
\<close>

section \<open>Polynomials\<close>

record Polynomial =
  coeffs :: "int list"

definition Polynomial_len :: "Polynomial \<Rightarrow> nat" where
  "Polynomial_len p = length (coeffs p)"

definition Polynomial_deg :: "Polynomial \<Rightarrow> nat option" where
  "Polynomial_deg p = (if coeffs p = [] then None else Some (Polynomial_len p - 1))"

definition Polynomial_lc :: "Polynomial \<Rightarrow> int option" where
  "Polynomial_lc p = map_option (\<lambda>d. coeffs p ! d) (Polynomial_deg p)"

definition Polynomial_eval :: "Polynomial \<Rightarrow> int \<Rightarrow> int" where
  "Polynomial_eval p x = (case Polynomial_lc p of
      None \<Rightarrow> 0
    | Some lc \<Rightarrow> foldl (\<lambda>s i. s * x + coeffs p ! i) lc (rev [0..<Polynomial_len p - 1]))"

record 'p1 CommittedPoly =
  commitments :: "'p1 list"

definition CommittedPoly_eval ::
  "('p1, 'p2) blst_lib \<Rightarrow> 'p1 CommittedPoly \<Rightarrow> blst_scalar \<Rightarrow> (DvfError, 'p1) outcome" where
  "CommittedPoly_eval L self x = (case commitments self of
      [] \<Rightarrow> Panic ''index out of bounds: the len is 0 but the index is 0''
    | c # cs \<Rightarrow> Ok (fst (foldl (\<lambda>(y, x_power) cm.
          (p1_add L y (p1_mult L cm x_power 255), blst_sk_mul_n_check L x_power x)) (c, x) cs)))"

definition PUBLIC_KEY_BYTES_LEN :: nat where "PUBLIC_KEY_BYTES_LEN = 48"
definition SECRET_KEY_BYTES_LEN :: nat where "SECRET_KEY_BYTES_LEN = 32"
definition BLST_SCALAR_LEN :: nat where "BLST_SCALAR_LEN = 32"

definition bytes_len :: "'p1 CommittedPoly \<Rightarrow> nat" where
  "bytes_len self = 4 + PUBLIC_KEY_BYTES_LEN * length (commitments self)"

definition CommittedPoly_to_bytes :: "('p1, 'p2) blst_lib \<Rightarrow> 'p1 CommittedPoly \<Rightarrow> bytes" where
  "CommittedPoly_to_bytes L self =
    rev (le_digits 4 (int (length (commitments self)))) @ concat (map (p1_compress L) (commitments self))"

fun from_bytes_loop :: "('p1, 'p2) blst_lib \<Rightarrow> nat \<Rightarrow> bytes \<Rightarrow> (DvfError, 'p1 list) outcome" where
  "from_bytes_loop L 0 bs = Ok []"
| "from_bytes_loop L (Suc n) bs =
    (if length bs < PUBLIC_KEY_BYTES_LEN then Panic ''range end index out of range for slice''
     else bindO (from_bytes_loop L n (drop PUBLIC_KEY_BYTES_LEN bs)) (\<lambda>cms.
       Ok (p1_uncompress L (take PUBLIC_KEY_BYTES_LEN bs) # cms)))"

definition CommittedPoly_from_bytes ::
  "('p1, 'p2) blst_lib \<Rightarrow> bytes \<Rightarrow> (DvfError, 'p1 CommittedPoly) outcome" where
  "CommittedPoly_from_bytes L bs =
    (if length bs < 4 then Panic ''range end index 4 out of range for slice''
     else bindO (from_bytes_loop L (nat (be_val (take 4 bs))) (drop 4 bs)) (\<lambda>cms.
       Ok \<lparr>commitments = cms\<rparr>))"

text \<open>
  \<open>commit\<close>: the sign of a coefficient is dropped, its bytes are padded to 32, and the library reads
  the first 32 of them.
\<close>

definition Polynomial_commit :: "('p1, 'p2) blst_lib \<Rightarrow> Polynomial \<Rightarrow> 'p1 \<Rightarrow> 'p1 CommittedPoly" where
  "Polynomial_commit L self g = \<lparr>commitments = map (\<lambda>coeff.
      let coeff_bytes = to_bytes_le L coeff;
          coeff_bytes = coeff_bytes @ replicate (BLST_SCALAR_LEN - length coeff_bytes) 0
      in p1_mult L g (be_val (rev (take 32 coeff_bytes))) 255) (coeffs self)\<rparr>"

section \<open>Key splitting\<close>

type_synonym sampler = "nat \<Rightarrow> int \<Rightarrow> int list"

text \<open>The coefficients: as many random ones as the threshold, the first replaced by the key.\<close>

definition share_poly ::
  "('p1, 'p2) blst_lib \<Rightarrow> nat \<Rightarrow> sampler \<Rightarrow> WrapSecretKey \<Rightarrow> (DvfError, Polynomial) outcome" where
  "share_poly L threshold sample key = (case sample threshold (MODULUS L) of
      [] \<Rightarrow> Panic ''index out of bounds: the len is 0 but the index is 0''
    | _ # cs \<Rightarrow> Ok \<lparr>coeffs = from_bytes_be L key # cs\<rparr>)"

definition share_keypair ::
  "('p1, 'p2) blst_lib \<Rightarrow> Polynomial \<Rightarrow> u64 \<Rightarrow> (DvfError, WrapKeypair) outcome" where
  "share_keypair L poly i =
    (let sk_share = to_bytes_be L (reduce (Polynomial_eval poly (uint i)) (MODULUS L));
         sk_share = replicate (SECRET_KEY_BYTES_LEN - length sk_share) 0 @ sk_share
     in bindO (unwrap_sum (sk_deserialize L sk_share) ''called `Result::unwrap()` on an `Err` value'')
       (\<lambda>k. Ok \<lparr>kp_pk = sk_public_key L k, kp_sk = k\<rparr>))"

fun split_loop ::
  "('p1, 'p2) blst_lib \<Rightarrow> Polynomial \<Rightarrow> u64 list \<Rightarrow> (u64 \<times> WrapKeypair) list \<Rightarrow>
    (DvfError, (u64 \<times> WrapKeypair) list) outcome" where
  "split_loop L poly [] kps = Ok kps"
| "split_loop L poly (i # ids) kps =
    (if i = 0 then Err (KeyGenError ''Invalid id 0'')
     else bindO (share_keypair L poly i) (\<lambda>kp. split_loop L poly ids (AList.update i kp kps)))"

definition key_split_with_poly ::
  "('p1, 'p2) blst_lib \<Rightarrow> nat \<Rightarrow> sampler \<Rightarrow> WrapSecretKey \<Rightarrow> u64 list \<Rightarrow>
    (DvfError, (u64 \<times> WrapKeypair) list \<times> Polynomial) outcome" where
  "key_split_with_poly L threshold sample key ids =
    bindO (share_poly L threshold sample key) (\<lambda>poly.
    bindO (split_loop L poly ids []) (\<lambda>kps. Ok (kps, poly)))"

definition key_gen_with_poly where
  "key_gen_with_poly L threshold sample kp ids =
    bindO (key_split_with_poly L threshold sample (kp_sk kp) ids) (\<lambda>(kps, poly). Ok (kp, kps, poly))"
  for L :: "('p1, 'p2) blst_lib"

definition key_gen where
  "key_gen L threshold sample kp ids =
    bindO (key_split_with_poly L threshold sample (kp_sk kp) ids) (\<lambda>(kps, _). Ok (kp, kps))"
  for L :: "('p1, 'p2) blst_lib"

text \<open>The deterministic variants: \<open>seeded\<close> is the generator started from a seed.\<close>

definition deterministic_key_split ::
  "('p1, 'p2) blst_lib \<Rightarrow> (bytes \<Rightarrow> sampler) \<Rightarrow> nat \<Rightarrow> WrapSecretKey \<Rightarrow> u64 list \<Rightarrow>
    (DvfError, (u64 \<times> WrapKeypair) list) outcome" where
  "deterministic_key_split L seeded threshold key ids =
    bindO (share_poly L threshold (seeded (replicate 32 0)) key) (\<lambda>poly. split_loop L poly ids [])"

definition deterministic_key_share ::
  "('p1, 'p2) blst_lib \<Rightarrow> (bytes \<Rightarrow> sampler) \<Rightarrow> nat \<Rightarrow> WrapSecretKey \<Rightarrow> u64 \<Rightarrow>
    (DvfError, WrapKeypair) outcome" where
  "deterministic_key_share L seeded threshold key i =
    (if i = 0 then Panic ''Invalid id''
     else bindO (share_poly L threshold (seeded (replicate 32 0)) key) (\<lambda>poly. share_keypair L poly i))"

section \<open>Aggregation\<close>

definition lagrange_coeffs ::
  "('p1, 'p2) blst_lib \<Rightarrow> nat \<Rightarrow> u64 list \<Rightarrow> (DvfError, blst_scalar list) outcome" where
  "lagrange_coeffs L n x = bindO (require (n = length x) ''Different length'') (\<lambda>_.
    Ok (map (\<lambda>i. let xi = u64_to_blst_scalar (x ! i) in
      foldl (\<lambda>p j. if i \<noteq> j then
          let xj = u64_to_blst_scalar (x ! j);
              tmp = blst_sk_sub_n_check L xj xi;
              tmp = blst_sk_inverse L tmp;
              tmp = blst_sk_mul_n_check L xj tmp
          in blst_sk_mul_n_check L p tmp
        else p) (u64_to_blst_scalar 1) [0..<n]) [0..<n]))"

record 'p2 BlstThresholdSignature =
  agg_point :: 'p2
  agg_threshold :: nat

definition infinity ::
  "('p1, 'p2) blst_lib \<Rightarrow> nat \<Rightarrow> (DvfError, 'p2 BlstThresholdSignature) outcome" where
  "infinity L threshold =
    bindO (unwrap_sum (core_from_bytes L (INFINITY_SIGNATURE L)) ''should decode infinity signature'')
      (\<lambda>p. Ok \<lparr>agg_point = p, agg_threshold = threshold\<rparr>)"

fun aggregate_loop ::
  "('p1, 'p2) blst_lib \<Rightarrow> (blst_scalar \<times> WrapSignature) list \<Rightarrow> 'p2 \<Rightarrow> (DvfError, 'p2) outcome" where
  "aggregate_loop L [] agg = Ok agg"
| "aggregate_loop L ((coeff, sig) # rest) agg =
    (let d = p2_mult L (p2_deserialize L sig) coeff 255
     in bindO (unwrap_sum (core_deserialize L (p2_serialize L d)) ''called `Result::unwrap()` on an `Err` value'')
       (\<lambda>s. aggregate_loop L rest (p2_add L agg s)))"

text \<open>
  \<open>unsafe_aggregate\<close>: the loop indexes \<open>sigs\<close> up to the threshold, and ends with the panic of an
  index out of range when there are fewer.
\<close>

definition unsafe_aggregate ::
  "('p1, 'p2) blst_lib \<Rightarrow> 'p2 BlstThresholdSignature \<Rightarrow> WrapSignature list \<Rightarrow> u64 list \<Rightarrow>
    (DvfError, WrapSignature) outcome" where
  "unsafe_aggregate L self sigs ids =
    bindO (lagrange_coeffs L (agg_threshold self) ids) (\<lambda>coeffs.
    bindO (infinity L (agg_threshold self)) (\<lambda>agg.
    bindO (aggregate_loop L (zip coeffs sigs) (agg_point agg)) (\<lambda>agg.
    if length sigs < agg_threshold self then Panic ''index out of bounds''
    else unwrap_sum (sig_deserialize L (p2_compress L agg)) ''called `Result::unwrap()` on an `Err` value'')))"

definition BlstThresholdSignature_threshold_aggregate :: "(DvfError, WrapSignature) outcome" where
  "BlstThresholdSignature_threshold_aggregate = Err (UnexpectedCall ''threshold_aggregate'')"

text \<open>
  The loop of \<open>threshold_aggregate\<close>: it skips an operator already counted, and stops when enough
  signatures have been verified.
\<close>

fun collect_valid ::
  "('p1, 'p2) blst_lib \<Rightarrow> nat \<Rightarrow> Hash256 \<Rightarrow> (WrapSignature \<times> WrapPublicKey \<times> u64) list \<Rightarrow>
    WrapSignature list \<Rightarrow> u64 list \<Rightarrow> (DvfError, WrapSignature list \<times> u64 list) outcome" where
  "collect_valid L threshold msg [] sigs_valid ids_valid = Ok (sigs_valid, ids_valid)"
| "collect_valid L threshold msg ((sig, key, i) # rest) sigs_valid ids_valid =
    (if i = 0 then Err (InvalidOperatorId i)
     else if i \<in> set ids_valid then collect_valid L threshold msg rest sigs_valid ids_valid
     else if sig_verify L sig key msg then
       (if length (ids_valid @ [i]) \<ge> threshold then Ok (sigs_valid @ [sig], ids_valid @ [i])
        else collect_valid L threshold msg rest (sigs_valid @ [sig]) (ids_valid @ [i]))
     else collect_valid L threshold msg rest sigs_valid ids_valid)"

definition threshold_aggregate ::
  "('p1, 'p2) blst_lib \<Rightarrow> 'p2 BlstThresholdSignature \<Rightarrow> WrapSignature list \<Rightarrow> WrapPublicKey list \<Rightarrow>
    u64 list \<Rightarrow> Hash256 \<Rightarrow> (DvfError, WrapSignature) outcome" where
  "threshold_aggregate L self sigs pks ids msg =
    (if length sigs \<noteq> length pks then Err (DifferentLength (length sigs) (length pks))
     else if length sigs \<noteq> length ids then Err (DifferentLength (length sigs) (length ids))
     else if length sigs < agg_threshold self
       then Err (InsufficientSignatures (length sigs) (agg_threshold self))
     else bindO (collect_valid L (agg_threshold self) msg (zip sigs (zip pks ids)) [] [])
       (\<lambda>(sigs_valid, ids_valid).
         if length ids_valid < agg_threshold self
           then Err (InsufficientValidSignatures (length ids_valid) (agg_threshold self))
         else unsafe_aggregate L self sigs_valid ids_valid))"

section \<open>Evaluation\<close>

lemma horner_fold:
  "k \<le> length cs \<Longrightarrow>
    foldl (\<lambda>s i. s * x + cs ! i) acc (rev [0..<k]) = acc * x ^ k + polyval (take k cs) x"
proof (induction k arbitrary: acc)
  case (Suc k)
  then have "polyval (take (Suc k) cs) x = polyval (take k cs) x + x ^ k * cs ! k"
    by (simp add: take_Suc_conv_app_nth polyval_append)
  with Suc show ?case by (simp add: algebra_simps)
qed simp

lemma Polynomial_eval_polyval: "Polynomial_eval p x = polyval (coeffs p) x"
proof (cases "coeffs p = []")
  case True
  then show ?thesis by (simp add: Polynomial_eval_def Polynomial_lc_def Polynomial_deg_def)
next
  case False
  then obtain cs c where p: "coeffs p = cs @ [c]" by (metis rev_exhaust)
  have "Polynomial_eval p x = foldl (\<lambda>s i. s * x + coeffs p ! i) c (rev [0..<length cs])"
    by (simp add: Polynomial_eval_def Polynomial_lc_def Polynomial_deg_def Polynomial_len_def p)
  also have "\<dots> = c * x ^ length cs + polyval cs x" by (subst horner_fold) (simp_all add: p)
  finally show ?thesis by (simp add: p polyval_append)
qed

lemma polyval_mod:
  "polyval (map (\<lambda>c. c mod r) cs) x mod r = polyval cs x mod r"
  by (induction cs) (simp_all, metis mod_add_eq mod_mod_trivial mod_mult_right_eq)

section \<open>Commitments\<close>

text \<open>A multiple of a point of the group, and the sums of such multiples.\<close>

lemma p1_exponents:
  assumes "group1_ok L" "p1_in_g1 L P" "is_scalar L a" "is_scalar L b"
  shows "p1_add L (p1_mult L P a 255) (p1_mult L P b 255) = p1_mult L P ((a + b) mod MODULUS L) 255"
    "p1_mult L (p1_mult L P a 255) b 255 = p1_mult L P (a * b mod MODULUS L) 255"
    "p1_in_g1 L (p1_mult L P a 255)"
  using assms by (simp_all add: group1_ok_def)

lemma p2_exponents:
  assumes "group2_ok L" "p2_in_g2 L P" "is_scalar L a" "is_scalar L b"
  shows "p2_add L (p2_mult L P a 255) (p2_mult L P b 255) = p2_mult L P ((a + b) mod MODULUS L) 255"
    "p2_mult L (p2_mult L P a 255) b 255 = p2_mult L P (a * b mod MODULUS L) 255"
    "p2_in_g2 L (p2_mult L P a 255)"
  using assms by (simp_all add: group2_ok_def)

lemma committed_fold:
  assumes F: "field_ok L" and G: "group1_ok L" "p1_in_g1 L g" and x: "is_scalar L x"
    and "is_scalar L y" "is_scalar L xp" "list_all (is_scalar L) cs"
  shows "fst (foldl (\<lambda>(y, x_power) cm.
      (p1_add L y (p1_mult L cm x_power 255), blst_sk_mul_n_check L x_power x))
      (p1_mult L g y 255, xp) (map (\<lambda>c. p1_mult L g c 255) cs)) =
    p1_mult L g ((y + xp * polyval cs x) mod MODULUS L) 255"
  using assms(5-7)
proof (induction cs arbitrary: y xp)
  case Nil
  then show ?case by (simp add: is_scalar_def)
next
  case (Cons c cs)
  let ?r = "MODULUS L"
  have "p1_mult L (p1_mult L g c 255) xp 255 = p1_mult L g (c * xp mod ?r) 255"
    using Cons.prems by (intro p1_exponents [OF G]) simp_all
  then have add: "p1_add L (p1_mult L g y 255) (p1_mult L (p1_mult L g c 255) xp 255) =
    p1_mult L g ((y + c * xp mod ?r) mod ?r) 255"
    using Cons.prems p1_exponents(1) [OF G] by (simp add: F)
  have mul: "blst_sk_mul_n_check L xp x = xp * x mod ?r"
    using Cons.prems x by (intro scalar_ops [OF F]) simp_all
  have "((y + c * xp mod ?r) mod ?r + (xp * x mod ?r) * polyval cs x) mod ?r =
    (y + c * xp + xp * x * polyval cs x) mod ?r"
    by (metis (no_types, opaque_lifting) mod_add_left_eq mod_add_right_eq mod_mult_left_eq)
  also have "\<dots> = (y + xp * polyval (c # cs) x) mod ?r" by (simp add: algebra_simps)
  finally show ?case using Cons.IH [of "(y + c * xp mod ?r) mod ?r" "xp * x mod ?r"] Cons.prems
    by (simp add: add mul F)
qed

lemma commit_scalar:
  assumes B: "bigint_ok L" and c: "0 \<le> c" "c < 2 ^ 256"
  shows "be_val (rev (take 32 (to_bytes_le L c @ replicate (BLST_SCALAR_LEN - length (to_bytes_le L c)) 0))) = c"
proof -
  have "to_bytes_le L c = rev (to_bytes_be L c)" "length (to_bytes_be L c) \<le> 32"
    "be_val (to_bytes_be L c) = c"
    using assms by (simp_all add: bigint_ok_def)
  then show ?thesis by (simp add: BLST_SCALAR_LEN_def be_val_append)
qed

lemma commit_commitments:
  assumes "bigint_ok L" "field_ok L" "list_all (is_scalar L) (coeffs p)"
  shows "commitments (Polynomial_commit L p g) = map (\<lambda>c. p1_mult L g c 255) (coeffs p)"
proof -
  have "be_val (rev (take 32 (to_bytes_le L c @
    replicate (BLST_SCALAR_LEN - length (to_bytes_le L c)) 0))) = c" if "c \<in> set (coeffs p)" for c
  proof (rule commit_scalar [OF assms(1)])
    have "is_scalar L c" using assms(3) that by (simp add: list_all_iff)
    then show "0 \<le> c" "c < 2 ^ 256" using field_ok_modulus(2) [OF assms(2)]
      by (simp_all add: is_scalar_def)
  qed
  then show ?thesis by (simp add: Polynomial_commit_def Let_def)
qed

section \<open>Shares of a key\<close>

lemma padded_be:
  fixes L :: "('p1, 'p2) blst_lib" and v :: int
  assumes "bigint_ok L" "0 \<le> v" "v < 2 ^ 256"
  defines "b \<equiv> to_bytes_be L v"
  shows "length (replicate (SECRET_KEY_BYTES_LEN - length b) 0 @ b) = 32"
    "be_val (replicate (SECRET_KEY_BYTES_LEN - length b) 0 @ b) = v"
  using assms by (simp_all add: bigint_ok_def SECRET_KEY_BYTES_LEN_def be_val_append)

text \<open>A share is the value of the polynomial modulo the order; there is none when that is zero.\<close>

lemma share_keypair_spec:
  fixes L :: "('p1, 'p2) blst_lib" and poly :: Polynomial and i :: u64
  assumes B: "bigint_ok L" and F: "field_ok L" and K: "keys_ok L"
  defines "v \<equiv> polyval (coeffs poly) (uint i) mod MODULUS L"
  shows "if v = 0 then \<exists>p. share_keypair L poly i = Panic p
    else \<exists>k. share_keypair L poly i = Ok \<lparr>kp_pk = sk_public_key L k, kp_sk = k\<rparr> \<and>
      valid_sk L k \<and> be_val k = v"
proof -
  let ?b = "to_bytes_be L v"
  let ?k = "replicate (SECRET_KEY_BYTES_LEN - length ?b) 0 @ ?b"
  have r: "0 < MODULUS L" "MODULUS L < 2 ^ 255" using field_ok_modulus [OF F] by simp_all
  then have v: "0 \<le> v" "v < MODULUS L" by (simp_all add: v_def)
  have k: "length ?k = 32" "be_val ?k = v" using padded_be [OF B, of v] v r by simp_all
  have val: "valid_sk L ?k \<longleftrightarrow> v \<noteq> 0" unfolding valid_sk_def k using v by auto
  have "share_keypair L poly i =
    bindO (unwrap_sum (sk_deserialize L ?k) ''called `Result::unwrap()` on an `Err` value'')
      (\<lambda>k. Ok \<lparr>kp_pk = sk_public_key L k, kp_sk = k\<rparr>)"
    by (simp add: share_keypair_def Let_def v_def reduce_mod [OF r(1)] Polynomial_eval_polyval)
  moreover have "if v = 0 then isl (sk_deserialize L ?k) else sk_deserialize L ?k = Inr ?k"
    using keys_ok_deserialize [OF K, of ?k] unfolding val by (cases "v = 0") simp_all
  ultimately show ?thesis using k val
    by (cases "sk_deserialize L ?k") (auto simp: unwrap_sum_def split: if_splits)
qed

lemma share_keypair_Ok:
  assumes "bigint_ok L" "field_ok L" "keys_ok L" "share_keypair L poly i = Ok kp"
  shows "valid_sk L (kp_sk kp)" "kp_pk kp = sk_public_key L (kp_sk kp)"
    "be_val (kp_sk kp) = polyval (coeffs poly) (uint i) mod MODULUS L"
  using share_keypair_spec [OF assms(1-3), of poly i] assms(4) by (auto split: if_splits)

definition all_shares :: "('p1, 'p2) blst_lib \<Rightarrow> Polynomial \<Rightarrow> (u64 \<times> WrapKeypair) list \<Rightarrow> bool" where
  "all_shares L poly kps \<longleftrightarrow> (\<forall>i kp. map_of kps i = Some kp \<longrightarrow> share_keypair L poly i = Ok kp)"

lemma all_shares_update:
  "all_shares L poly kps \<Longrightarrow> share_keypair L poly i = Ok kp \<Longrightarrow> all_shares L poly (AList.update i kp kps)"
  by (simp add: all_shares_def update_conv)

lemma split_loop_shares:
  "split_loop L poly ids kps = Ok kps' \<Longrightarrow> all_shares L poly kps \<Longrightarrow>
    all_shares L poly kps' \<and> dom (map_of kps') = dom (map_of kps) \<union> set ids \<and> 0 \<notin> set ids"
proof (induction ids arbitrary: kps)
  case (Cons i ids)
  then obtain kp where i: "i \<noteq> 0" and kp: "share_keypair L poly i = Ok kp"
    and rest: "split_loop L poly ids (AList.update i kp kps) = Ok kps'"
    by (auto simp: bindO_Ok_iff split: if_splits)
  have "dom (map_of (AList.update i kp kps)) = insert i (dom (map_of kps))"
    by (simp add: update_conv')
  then show ?case using Cons.IH [OF rest all_shares_update [OF Cons.prems(2) kp]] i by simp
qed simp

section \<open>Selection of the shares\<close>

text \<open>The operators with a signature that verifies.\<close>

definition valid_ids ::
  "('p1, 'p2) blst_lib \<Rightarrow> Hash256 \<Rightarrow> (WrapSignature \<times> WrapPublicKey \<times> u64) list \<Rightarrow> u64 set" where
  "valid_ids L msg ts = {i. \<exists>s k. (s, k, i) \<in> set ts \<and> sig_verify L s k msg}"

lemma finite_valid_ids: "finite (valid_ids L msg ts)"
  by (rule finite_subset [of _ "(\<lambda>t. snd (snd t)) ` set ts"]) (force simp: valid_ids_def)+

lemma valid_ids_Cons:
  "valid_ids L msg ((s, k, i) # ts) =
    (if sig_verify L s k msg then insert i (valid_ids L msg ts) else valid_ids L msg ts)"
  by (auto simp: valid_ids_def)

definition shares_ok :: "('s \<Rightarrow> 'i \<Rightarrow> bool) \<Rightarrow> 's list \<Rightarrow> 'i list \<Rightarrow> bool" where
  "shares_ok P ss is \<longleftrightarrow> distinct is \<and> list_all2 P ss is"

lemma collect_valid_spec:
  assumes "list_all (\<lambda>(s, k, i). i \<noteq> 0 \<and> (sig_verify L s k msg \<longrightarrow> P s i)) ts"
    and "shares_ok P ss is" "length is < t"
  shows "\<exists>sv iv. collect_valid L t msg ts ss is = Ok (sv, iv) \<and> shares_ok P sv iv \<and>
    length iv = min t (card (set is \<union> valid_ids L msg ts))"
  using assms
proof (induction L t msg ts ss "is" rule: collect_valid.induct)
  case (1 L t msg ss "is")
  then show ?case by (simp add: valid_ids_def distinct_card shares_ok_def)
next
  case (2 L t msg s k i ts ss "is")
  have i: "i \<noteq> 0" and ts: "list_all (\<lambda>(s, k, i). i \<noteq> 0 \<and> (sig_verify L s k msg \<longrightarrow> P s i)) ts"
    using 2(4) by simp_all
  consider "i \<in> set is" | "i \<notin> set is" "\<not> sig_verify L s k msg"
    | "i \<notin> set is" "sig_verify L s k msg" by blast
  then show ?case
  proof cases
    case c: 1
    then have "set is \<union> valid_ids L msg ((s, k, i) # ts) = set is \<union> valid_ids L msg ts"
      by (auto simp: valid_ids_Cons)
    then show ?thesis using c i 2(1) [OF i c ts 2(5,6)] by simp
  next
    case c: 2
    then show ?thesis using i 2(3) [OF i c ts 2(5,6)] by (simp add: valid_ids_Cons)
  next
    case c: 3
    then have V: "set is \<union> valid_ids L msg ((s, k, i) # ts) = set (is @ [i]) \<union> valid_ids L msg ts"
      by (auto simp: valid_ids_Cons)
    have P: "shares_ok P (ss @ [s]) (is @ [i])" using c 2(4,5)
      by (simp add: shares_ok_def list_all2_appendI)
    show ?thesis
    proof (cases "t \<le> length (is @ [i])")
      case True
      have "length (is @ [i]) \<le> card (set (is @ [i]) \<union> valid_ids L msg ts)"
      proof -
        have "length (is @ [i]) = card (set (is @ [i]))"
          using P by (simp only: shares_ok_def distinct_card)
        also have "\<dots> \<le> card (set (is @ [i]) \<union> valid_ids L msg ts)"
          by (intro card_mono finite_UnI finite_set finite_valid_ids Un_upper1)
        finally show ?thesis .
      qed
      then have "length (is @ [i]) = min t (card (set (is @ [i]) \<union> valid_ids L msg ts))"
        using True 2(6) by simp
      then show ?thesis using True c i P by (simp add: V)
    next
      case False
      then show ?thesis using 2(2) [OF i c False ts P] c i by (simp add: V)
    qed
  qed
qed

section \<open>Interpolation of the shares\<close>

lemma fold_coeff:
  "foldl (\<lambda>p j. if i \<noteq> j then (p * f j) mod r else p) (1 mod r) [0..<k] =
    (\<Prod>j\<in>{..<k} - {i}. f j) mod (r :: int)"
proof (induction k)
  case (Suc k)
  have "{..<Suc k} - {i} = (if i = k then {..<k} - {i} else insert k ({..<k} - {i}))" by auto
  with Suc show ?case by (simp add: mod_mult_right_eq mult.commute)
qed simp

definition inverse_mod :: "('p1, 'p2) blst_lib \<Rightarrow> int \<Rightarrow> int" where
  "inverse_mod L a = blst_sk_inverse L (a mod MODULUS L)"

lemma lagrange_coeffs_Ok:
  assumes F: "field_ok L" and ids: "list_all (\<lambda>x. is_scalar L (uint x)) ids"
    and X: "apart (MODULUS L) (map uint ids)"
  shows "lagrange_coeffs L (length ids) ids =
    Ok (map (\<lambda>i. lagrange (inverse_mod L) (map uint ids) i mod MODULUS L) [0..<length ids])"
proof -
  let ?r = "MODULUS L" and ?xs = "map uint ids" and ?n = "length ids"
  let ?g = "\<lambda>i j. ?xs ! j * inverse_mod L (?xs ! j - ?xs ! i)"
  have step: "blst_sk_mul_n_check L p (blst_sk_mul_n_check L (uint (ids ! j))
      (blst_sk_inverse L (blst_sk_sub_n_check L (uint (ids ! j)) (uint (ids ! i))))) = p * ?g i j mod ?r"
    if "i < ?n" "j < ?n" "i \<noteq> j" "is_scalar L p" for i j p
  proof -
    have sc: "is_scalar L (uint (ids ! i))" "is_scalar L (uint (ids ! j))"
      using ids that by (simp_all add: list_all_length)
    have "(uint (ids ! j) - uint (ids ! i)) mod ?r \<noteq> 0"
      using apart_nth [OF X, of j i] that by (simp add: dvd_eq_mod_eq_0)
    then have "is_scalar L (inverse_mod L (uint (ids ! j) - uint (ids ! i)))"
      using F mod_is_scalar [OF F] by (simp add: inverse_mod_def field_ok_def)
    then show ?thesis using sc that
      by (simp add: scalar_ops [OF F] F mod_mult_right_eq flip: inverse_mod_def)
  qed
  have fold: "foldl (\<lambda>p j. if i \<noteq> j then blst_sk_mul_n_check L p (blst_sk_mul_n_check L (uint (ids ! j))
      (blst_sk_inverse L (blst_sk_sub_n_check L (uint (ids ! j)) (uint (ids ! i))))) else p) p js =
    foldl (\<lambda>p j. if i \<noteq> j then p * ?g i j mod ?r else p) p js"
    if "i < ?n" "set js \<subseteq> {..<?n}" "is_scalar L p" for i p js
    using that(2,3)
  proof (induction js arbitrary: p)
    case (Cons j js)
    then show ?case using step [OF that(1), of j p] mod_is_scalar [OF F, of "p * ?g i j"] by simp
  qed simp
  have "1 mod ?r = 1" "is_scalar L 1" using field_ok_modulus [OF F] by (simp_all add: is_scalar_def)
  then have "foldl (\<lambda>p j. if i \<noteq> j then blst_sk_mul_n_check L p (blst_sk_mul_n_check L (uint (ids ! j))
      (blst_sk_inverse L (blst_sk_sub_n_check L (uint (ids ! j)) (uint (ids ! i))))) else p) 1 [0..<?n] =
    lagrange (inverse_mod L) ?xs i mod ?r" if "i < ?n" for i
    using fold [OF that, of "[0..<?n]" 1] fold_coeff [of i "?g i" ?r ?n]
    by (simp add: lagrange_def lessThan_atLeast0)
  then show ?thesis
    unfolding lagrange_coeffs_def Let_def u64_to_blst_scalar_def by (simp add: require_def)
qed

lemma aggregate_loop_Ok:
  assumes F: "field_ok L" and G: "group2_ok L" "p2_in_g2 L H"
  shows "is_scalar L a \<Longrightarrow> list_all (\<lambda>(c, v). is_scalar L c \<and> is_scalar L v) ps \<Longrightarrow>
    aggregate_loop L (map (\<lambda>(c, v). (c, p2_compress L (p2_mult L H v 255))) ps) (p2_mult L H a 255) =
      Ok (p2_mult L H ((a + (\<Sum>(c, v)\<leftarrow>ps. v * c)) mod MODULUS L) 255)"
proof (induction ps arbitrary: a)
  case Nil
  then show ?case by (simp add: is_scalar_def)
next
  case (Cons cv ps)
  obtain c v where cv: "cv = (c, v)" by force
  have sc: "is_scalar L c" "is_scalar L v" using Cons.prems by (simp_all add: cv)
  have enc: "p2_deserialize L (p2_compress L P) = P" "core_deserialize L (p2_serialize L P) = Inr P"
    if "p2_in_g2 L P" for P using G(1) that by (simp_all add: group2_ok_def)
  have "p2_deserialize L (p2_compress L (p2_mult L H v 255)) = p2_mult L H v 255"
    by (intro enc p2_exponents(3) [OF G sc(2,1)])
  moreover have "p2_mult L (p2_mult L H v 255) c 255 = p2_mult L H (v * c mod MODULUS L) 255"
    by (rule p2_exponents(2) [OF G sc(2,1)])
  moreover have "p2_in_g2 L (p2_mult L H (v * c mod MODULUS L) 255)"
    by (rule p2_exponents(3) [OF G _ sc(1)]) (simp add: F)
  moreover have "p2_add L (p2_mult L H a 255) (p2_mult L H (v * c mod MODULUS L) 255) =
    p2_mult L H ((a + v * c mod MODULUS L) mod MODULUS L) 255"
    by (rule p2_exponents(1) [OF G Cons.prems(1)]) (simp add: F)
  ultimately have "aggregate_loop L (map (\<lambda>(c, v). (c, p2_compress L (p2_mult L H v 255))) (cv # ps))
      (p2_mult L H a 255) =
    aggregate_loop L (map (\<lambda>(c, v). (c, p2_compress L (p2_mult L H v 255))) ps)
      (p2_mult L H ((a + v * c) mod MODULUS L) 255)"
    by (simp add: cv enc unwrap_sum_def mod_add_right_eq)
  also have "\<dots> = Ok (p2_mult L H (((a + v * c) mod MODULUS L + (\<Sum>(c, v)\<leftarrow>ps. v * c)) mod MODULUS L) 255)"
    by (rule Cons.IH) (use Cons.prems in \<open>simp_all add: F\<close>)
  also have "((a + v * c) mod MODULUS L + (\<Sum>(c, v)\<leftarrow>ps. v * c)) mod MODULUS L =
    (a + (\<Sum>(c, v)\<leftarrow>cv # ps. v * c)) mod MODULUS L"
    by (simp add: cv mod_add_left_eq add.assoc)
  finally show ?case .
qed

lemma inverse_mod_field: "field_ok L \<Longrightarrow> mod_field (MODULUS L) (inverse_mod L)"
  using field_ok_mod_field [of L] by (simp add: inverse_mod_def [abs_def])

lemma apart_ids:
  "list_all (\<lambda>x. is_scalar L (uint x)) ids \<Longrightarrow> distinct ids \<Longrightarrow>
    apart (MODULUS L) (map uint (ids :: u64 list))"
  unfolding apart_def map_map distinct_map
  by (auto simp: inj_on_def is_scalar_def list_all_iff intro: unsigned_word_eqI)

lemma share_sum:
  fixes ids :: "u64 list" and L :: "('p1, 'p2) blst_lib" and cs :: "int list"
  assumes F: "field_ok L" and ids: "list_all (\<lambda>x. is_scalar L (uint x)) ids" "distinct ids"
    and cs: "length cs \<le> length ids"
  defines "l \<equiv> \<lambda>i. lagrange (inverse_mod L) (map uint ids) i mod MODULUS L"
    and "v \<equiv> \<lambda>i. polyval cs (uint i) mod MODULUS L"
  shows "(\<Sum>(c, x)\<leftarrow>zip (map l [0..<length ids]) (map v ids). x * c) mod MODULUS L =
    polyval cs 0 mod MODULUS L"
proof -
  let ?n = "length ids" and ?r = "MODULUS L"
  have "(\<Sum>(c, x)\<leftarrow>zip (map l [0..<?n]) (map v ids). x * c) = (\<Sum>i<?n. v (ids ! i) * l i)"
    by (simp add: sum_list_sum_nth lessThan_atLeast0)
  also have "\<dots> mod ?r = (\<Sum>i<?n. polyval cs (map uint ids ! i) *
    lagrange (inverse_mod L) (map uint ids) i) mod ?r"
    by (rule sum_mod_cong) (simp add: v_def l_def mod_mult_eq)
  also have "\<dots> = polyval cs 0 mod ?r"
    using lagrange_at_zero [OF inverse_mod_field [OF F] apart_ids [OF ids], of cs] cs by simp
  finally show ?thesis .
qed

lemma unsafe_aggregate_shares:
  assumes F: "field_ok L" and G: "group2_ok L" "p2_in_g2 L H"
    and ids: "list_all (\<lambda>x. is_scalar L (uint x)) ids" "distinct ids"
    and cs: "length cs \<le> length ids" and t: "agg_threshold self = length ids"
  shows "unsafe_aggregate L self
      (map (\<lambda>i. p2_compress L (p2_mult L H (polyval cs (uint i) mod MODULUS L) 255)) ids) ids =
    Ok (p2_compress L (p2_mult L H (polyval cs 0 mod MODULUS L) 255))"
proof -
  let ?r = "MODULUS L"
  let ?l = "map (\<lambda>i. lagrange (inverse_mod L) (map uint ids) i mod ?r) [0..<length ids]"
  let ?v = "map (\<lambda>i. polyval cs (uint i) mod ?r) ids"
  let ?enc = "\<lambda>v. p2_compress L (p2_mult L H v 255)"
  have "is_scalar L 0" using field_ok_modulus [OF F] by (simp add: is_scalar_def)
  moreover have "list_all (\<lambda>(c, v). is_scalar L c \<and> is_scalar L v) (zip ?l ?v)"
    by (simp add: list_all_length F)
  ultimately have "aggregate_loop L (map (\<lambda>(c, v). (c, ?enc v)) (zip ?l ?v)) (p2_mult L H 0 255) =
    Ok (p2_mult L H ((0 + (\<Sum>(c, v)\<leftarrow>zip ?l ?v. v * c)) mod ?r) 255)"
    by (rule aggregate_loop_Ok [OF F G])
  also have "map (\<lambda>(c, v). (c, ?enc v)) (zip ?l ?v) = zip ?l (map ?enc ?v)"
    by (simp only: zip_map2)
  finally have loop: "aggregate_loop L (zip ?l (map ?enc ?v)) (p2_mult L H 0 255) =
    Ok (p2_mult L H (polyval cs 0 mod ?r) 255)"
    by (simp only: add_0 share_sum [OF F ids cs])
  have inf: "infinity L t = Ok \<lparr>agg_point = p2_mult L H 0 255, agg_threshold = t\<rparr>" for t
    using G by (simp add: infinity_def group2_ok_def unwrap_sum_def)
  have "is_scalar L (polyval cs 0 mod ?r)" by (simp add: F)
  then have "p2_in_g2 L (p2_mult L H (polyval cs 0 mod ?r) 255)"
    by (intro p2_exponents(3) [OF G])
  then have "sig_deserialize L (?enc (polyval cs 0 mod ?r)) = Inr (?enc (polyval cs 0 mod ?r))"
    using G(1) by (simp add: group2_ok_def)
  moreover have "map (\<lambda>i. ?enc (polyval cs (uint i) mod ?r)) ids = map ?enc ?v" by simp
  ultimately show ?thesis
    unfolding unsafe_aggregate_def t lagrange_coeffs_Ok [OF F ids(1) apart_ids [OF ids]]
    by (simp only: bindO.simps inf loop BlstThresholdSignature.simps length_map) (simp add: unwrap_sum_def)
qed

end
