(* ===== verification/SecureIo.thy ===== *)
theory SecureIo
  imports Threshold
begin

text \<open>
  The channels between the parties of a key generation (\<open>src/network/io_committee.rs\<close>).

  \<^item> The crates for SHA-256, AES-GCM, hexadecimal and the \<open>blst\<close> signatures are the record \<open>chan_lib\<close>.
  \<^item> \<open>ConnectionManager\<close> is a state: the channels that peers have opened, the permits of their
    \<open>Notify\<close> objects, and whether the listening task still runs.
  \<^item> A party's view of the network is the state \<open>dkg_net\<close>: the frames that have arrived from each
    peer, the frames sent, and the random bytes drawn so far.  Sending and receiving are actions on it.
\<close>

section \<open>Library\<close>

record 'p1 chan_lib =
  sha256_digest :: "bytes \<Rightarrow> string"
  hex_decode :: "string \<Rightarrow> lib_error + bytes"
  aes_encrypt :: "bytes \<Rightarrow> bytes \<Rightarrow> bytes \<Rightarrow> lib_error + bytes"
  aes_decrypt :: "bytes \<Rightarrow> bytes \<Rightarrow> bytes \<Rightarrow> lib_error + bytes"
  core_sk_from_bytes :: "bytes \<Rightarrow> lib_error + bytes"
  core_sign :: "bytes \<Rightarrow> bytes \<Rightarrow> bytes"
  p1_serialize :: "'p1 \<Rightarrow> bytes"
  core_pk_deserialize :: "bytes \<Rightarrow> lib_error + bytes"
  core_verify :: "bytes \<Rightarrow> bytes \<Rightarrow> bytes \<Rightarrow> bool"
  bincode_u64 :: "bytes \<Rightarrow> lib_error + u64"

section \<open>Connections\<close>

record 'c ConnectionManager =
  connections :: "(u64 \<times> 'c) list"
  notifications :: "(u64 \<times> bool) list"
  listening :: bool

definition ConnectionManager_new :: "'c ConnectionManager" where
  "ConnectionManager_new = \<lparr>connections = [], notifications = [], listening = True\<rparr>"

text \<open>
  One turn of the listening task: a socket is accepted and its first frame names the peer.  A socket
  that closes first, or a frame that is no number, ends the task with a panic.
\<close>

definition listen_step ::
  "'p1 chan_lib \<Rightarrow> 'c \<Rightarrow> bytes option \<Rightarrow> 'c ConnectionManager \<Rightarrow> 'c ConnectionManager" where
  "listen_step A channel first cm =
    (if \<not> listening cm then cm
     else case first of
       None \<Rightarrow> cm\<lparr>listening := False\<rparr>
     | Some frame \<Rightarrow> (case bincode_u64 A frame of
         Inl _ \<Rightarrow> cm\<lparr>listening := False\<rparr>
       | Inr peer \<Rightarrow> cm\<lparr>connections := AList.update peer channel (connections cm),
           notifications := AList.update peer True (notifications cm)\<rparr>))"

text \<open>
  \<open>accept\<close>: the entry of the peer is created when it is missing; then the call waits for a permit,
  takes it with the entry, and takes the channel.  \<open>None\<close> is a call that still waits.
\<close>

definition accept_register :: "u64 \<Rightarrow> 'c ConnectionManager \<Rightarrow> 'c ConnectionManager" where
  "accept_register peer cm = (case map_of (notifications cm) peer of
      Some _ \<Rightarrow> cm
    | None \<Rightarrow> cm\<lparr>notifications := AList.update peer False (notifications cm)\<rparr>)"

definition accept_poll :: "u64 \<Rightarrow> 'c ConnectionManager \<Rightarrow> ('c option \<times> 'c ConnectionManager) option" where
  "accept_poll peer cm = (case map_of (notifications cm) peer of
      Some True \<Rightarrow> Some (map_of (connections cm) peer,
        cm\<lparr>notifications := AList.delete peer (notifications cm),
           connections := AList.delete peer (connections cm)\<rparr>)
    | _ \<Rightarrow> None)"

text \<open>\<open>connect\<close>: the delays slept while the attempts fail; \<open>None\<close> while no attempt has succeeded.\<close>

fun connect_delays :: "u64 \<Rightarrow> bool list \<Rightarrow> u64 list \<times> bool" where
  "connect_delays delay [] = ([], False)"
| "connect_delays delay (True # rest) = ([], True)"
| "connect_delays delay (False # rest) =
    (let (ds, ok) = connect_delays (min (2 * delay) 60000) rest in (delay # ds, ok))"

definition connect :: "bool list \<Rightarrow> u64 list \<times> bool" where
  "connect attempts = connect_delays 200 attempts"

section \<open>Committees\<close>

datatype conn_action = ConnectTo u64 SocketAddr | AcceptFrom u64

text \<open>The loop of \<open>NetIOCommittee::new\<close>: connect to the smaller identifiers, wait for the larger.\<close>

fun connection_plan :: "u64 \<Rightarrow> u64 list \<Rightarrow> SocketAddr list \<Rightarrow> ('e, conn_action list) outcome" where
  "connection_plan party [] addresses = Ok []"
| "connection_plan party (i # ids) addresses =
    (if i = party then connection_plan party ids (tl addresses)
     else if i < party then (case addresses of
         [] \<Rightarrow> Panic ''index out of bounds''
       | a # rest \<Rightarrow> bindO (connection_plan party ids rest) (\<lambda>plan. Ok (ConnectTo i a # plan)))
     else bindO (connection_plan party ids (tl addresses)) (\<lambda>plan. Ok (AcceptFrom i # plan)))"

record 'c IOCommittee =
  io_party :: u64
  io_ids :: "u64 list"
  io_channels :: "(u64 \<times> 'c) list"

definition io_channel :: "'c IOCommittee \<Rightarrow> u64 \<Rightarrow> u64 \<Rightarrow> (DvfError, 'c) outcome" where
  "io_channel io from to =
    (if from = to \<or> (from \<noteq> io_party io \<and> to \<noteq> io_party io) then Panic ''Invalid channel''
     else case map_of (io_channels io) (if from = io_party io then to else from) of
       None \<Rightarrow> Panic ''called `Option::unwrap()` on a `None` value''
     | Some c \<Rightarrow> Ok c)"

section \<open>The network of a party\<close>

record dkg_net =
  inbox :: "(u64 \<times> bytes list) list"
  sent :: "(u64 \<times> bytes) list"
  entropy :: "nat \<Rightarrow> bytes"
  drawn :: nat

definition draw :: "(dkg_net, 'e, bytes) act" where
  "draw n = (Ok (entropy n (drawn n)), n\<lparr>drawn := Suc (drawn n)\<rparr>)"

definition net_send :: "u64 \<Rightarrow> bytes \<Rightarrow> (dkg_net, 'e, unit) act" where
  "net_send peer frame = modM (\<lambda>n. n\<lparr>sent := sent n @ [(peer, frame)]\<rparr>)"

definition net_recv :: "u64 \<Rightarrow> (dkg_net, 'e, bytes) act" where
  "net_recv peer n = (case map_of (inbox n) peer of
      Some (frame # rest) \<Rightarrow> (Ok frame, n\<lparr>inbox := AList.update peer rest (inbox n)\<rparr>)
    | _ \<Rightarrow> (Panic ''Failed to recv message.'', n))"

section \<open>Secure channels\<close>

record 'p1 SecureNetIOChannel =
  ch_peer :: u64
  ch_sk :: blst_scalar
  ch_other_pk :: 'p1

definition cipher_key :: "'p1 chan_lib \<Rightarrow> bytes \<Rightarrow> (DvfError, bytes) outcome" where
  "cipher_key A key =
    bindO (unwrap_sum (hex_decode A (sha256_digest A key)) ''called `Result::unwrap()` on an `Err` value'')
      (\<lambda>secret. if length secret < 16 then Panic ''range end index 16 out of range for slice''
        else Ok (take 16 secret))"

definition encrypt_with_key ::
  "'p1 chan_lib \<Rightarrow> bytes \<Rightarrow> bytes \<Rightarrow> bytes \<Rightarrow> (DvfError, bytes) outcome" where
  "encrypt_with_key A nonce msg key =
    bindO (cipher_key A key) (\<lambda>k.
    bindO (unwrap_sum (aes_encrypt A k nonce msg) ''AES encryption failed!'') (\<lambda>ct. Ok (nonce @ ct)))"

definition decrypt_with_key :: "'p1 chan_lib \<Rightarrow> bytes \<Rightarrow> bytes \<Rightarrow> (DvfError, bytes) outcome" where
  "decrypt_with_key A enc_msg key =
    bindO (cipher_key A key) (\<lambda>k.
    if length enc_msg < 12 then Panic ''range end index 12 out of range for slice''
    else unwrap_sum (aes_decrypt A k (take 12 enc_msg) (drop 12 enc_msg)) ''AES decryption failed!'')"

definition shared_secret :: "('p1, 'p2) blst_lib \<Rightarrow> 'p1 SecureNetIOChannel \<Rightarrow> 'p1" where
  "shared_secret L ch = blst_ecdh_shared_secret L (ch_other_pk ch) (ch_sk ch)"

definition self_public_key :: "('p1, 'p2) blst_lib \<Rightarrow> 'p1 SecureNetIOChannel \<Rightarrow> 'p1" where
  "self_public_key L ch = blst_sk_to_pk L (ch_sk ch)"

definition channel_encrypt ::
  "('p1, 'p2) blst_lib \<Rightarrow> 'p1 chan_lib \<Rightarrow> 'p1 SecureNetIOChannel \<Rightarrow> bytes \<Rightarrow> (dkg_net, DvfError, bytes) act"
  where
  "channel_encrypt L A ch msg = bindM draw (\<lambda>rnd.
    liftO (encrypt_with_key A (take 12 rnd) msg (blst_p1_to_bytes L (shared_secret L ch))))"

definition channel_decrypt ::
  "('p1, 'p2) blst_lib \<Rightarrow> 'p1 chan_lib \<Rightarrow> 'p1 SecureNetIOChannel \<Rightarrow> bytes \<Rightarrow> (DvfError, bytes) outcome"
  where
  "channel_decrypt L A ch enc_msg = decrypt_with_key A enc_msg (blst_p1_to_bytes L (shared_secret L ch))"

definition channel_sign ::
  "'p1 chan_lib \<Rightarrow> 'p1 SecureNetIOChannel \<Rightarrow> bytes \<Rightarrow> (DvfError, bytes) outcome" where
  "channel_sign A ch msg =
    bindO (unwrap_sum (core_sk_from_bytes A (rev (blst_scalar_to_bytes (ch_sk ch))))
      ''called `Result::unwrap()` on an `Err` value'') (\<lambda>k. Ok (core_sign A k msg))"

definition verify_partner ::
  "'p1 chan_lib \<Rightarrow> 'p1 SecureNetIOChannel \<Rightarrow> bytes \<Rightarrow> bytes \<Rightarrow> (DvfError, bool) outcome" where
  "verify_partner A ch msg sig =
    bindO (unwrap_sum (core_pk_deserialize A (p1_serialize A (ch_other_pk ch)))
      ''called `Result::unwrap()` on an `Err` value'') (\<lambda>key. Ok (core_verify A sig msg key))"

definition channel_send ::
  "('p1, 'p2) blst_lib \<Rightarrow> 'p1 chan_lib \<Rightarrow> 'p1 SecureNetIOChannel \<Rightarrow> bytes \<Rightarrow> (dkg_net, DvfError, unit) act"
  where
  "channel_send L A ch msg = bindM (channel_encrypt L A ch msg) (net_send (ch_peer ch))"

definition channel_recv ::
  "('p1, 'p2) blst_lib \<Rightarrow> 'p1 chan_lib \<Rightarrow> 'p1 SecureNetIOChannel \<Rightarrow> (dkg_net, DvfError, bytes) act" where
  "channel_recv L A ch = bindM (net_recv (ch_peer ch)) (\<lambda>enc. liftO (channel_decrypt L A ch enc))"

definition io_broadcast ::
  "('p1, 'p2) blst_lib \<Rightarrow> 'p1 chan_lib \<Rightarrow> 'p1 SecureNetIOChannel IOCommittee \<Rightarrow> bytes \<Rightarrow>
    (dkg_net, DvfError, unit) act" where
  "io_broadcast L A io msg = forM (io_ids io) (\<lambda>i.
    if i = io_party io then retM ()
    else bindM (liftO (io_channel io (io_party io) i)) (\<lambda>ch. channel_send L A ch msg))"

section \<open>Opening a committee\<close>

text \<open>
  The second half of \<open>NetIOCommittee::new\<close>: every party broadcasts the acknowledgement \<open>Y\<close> in the
  clear and waits for that of each other party.
\<close>

definition ack :: bytes where "ack = [89]"

definition plain_broadcast :: "u64 \<Rightarrow> u64 list \<Rightarrow> bytes \<Rightarrow> (dkg_net, DvfError, unit) act" where
  "plain_broadcast party ids msg = forM ids (\<lambda>i. if i = party then retM () else net_send i msg)"

definition acknowledge :: "u64 \<Rightarrow> u64 list \<Rightarrow> (dkg_net, DvfError, unit) act" where
  "acknowledge party ids = thenM (plain_broadcast party ids ack)
    (forM ids (\<lambda>i. if i = party then retM ()
      else bindM (net_recv i) (\<lambda>a. if a \<noteq> ack
        then liftO (Panic ''Invalid acknowledge for channel connection'') else retM ())))"

text \<open>
  \<open>SecureNetIOCommittee::new\<close>: a fresh key is drawn, its public part broadcast in the clear, and a
  channel made from the public key that each peer sends.
\<close>

fun open_channels ::
  "('p1, 'p2) blst_lib \<Rightarrow> u64 \<Rightarrow> blst_scalar \<Rightarrow> u64 list \<Rightarrow> (u64 \<times> 'p1 SecureNetIOChannel) list \<Rightarrow>
    (dkg_net, DvfError, (u64 \<times> 'p1 SecureNetIOChannel) list) act" where
  "open_channels L party key [] chs = retM chs"
| "open_channels L party key (i # ids) chs =
    (if i = party then open_channels L party key ids chs
     else if map_of chs i \<noteq> None then liftO (Panic ''called `Option::unwrap()` on a `None` value'')
     else bindM (net_recv i) (\<lambda>other_pk_bytes.
       open_channels L party key ids (AList.update i
         \<lparr>ch_peer = i, ch_sk = key, ch_other_pk = bytes_to_blst_p1 L other_pk_bytes\<rparr> chs)))"

definition SecureNetIOCommittee_new ::
  "('p1, 'p2) blst_lib \<Rightarrow> u64 \<Rightarrow> u64 list \<Rightarrow>
    (dkg_net, DvfError, 'p1 SecureNetIOChannel IOCommittee) act" where
  "SecureNetIOCommittee_new L party ids =
    thenM (acknowledge party ids)
    (bindM draw (\<lambda>ikm.
     let key = random_blst_scalar L ikm in
     thenM (plain_broadcast party ids (blst_p1_to_bytes L (blst_sk_to_pk L key)))
     (bindM (open_channels L party key ids []) (\<lambda>chs.
       retM \<lparr>io_party = party, io_ids = ids, io_channels = chs\<rparr>))))"

end
