(* ===== verification/Dkg.thy ===== *)
theory Dkg
  imports SecureIo
begin

text \<open>
  Distributed key generation (\<open>src/crypto/dkg.rs\<close>): the phases of \<open>DKGMalicious\<close> and their
  composition in \<open>run\<close>, \<open>DKGSemiHonest\<close>, and the signer that uses the keys.

  A party is an action on its view of the network.  The \<open>bincode\<close> crate is the record \<open>dkg_codec\<close>: one
  pair of functions per message, on the fields as the code's own serialisers give them.  A \<open>HashMap\<close> is
  an association list in the order of its iteration.  \<open>sample\<close> and the key pair \<open>kp\<close> stand for what the
  random generators return.  The concurrent futures of a phase use one channel each, so that running
  them one after the other exchanges the same messages.
\<close>

section \<open>Messages\<close>

record 'p1 VssSharePayload =
  enc_share :: bytes
  vss_sig :: WrapSignature
  committed_poly :: "'p1 CommittedPoly"

type_synonym VerificationResult = "(u64 \<times> bool) list"

record DleqProof =
  proof_c :: blst_scalar
  proof_r :: blst_scalar

record 'p1 DisputeClaim =
  issue_party :: u64
  corrupted_party :: u64
  claim_enc_share :: bytes
  claim_key :: bytes
  claim_sig :: WrapSignature
  claim_poly :: "'p1 CommittedPoly"
  claim_proof :: DleqProof

record 'p1 PkPayload =
  payload_pk :: 'p1
  pk_proof :: DleqProof

record 'p1 GpkPayload =
  gpk :: 'p1
  aux_gpk :: 'p1
  gpk_proof :: DleqProof

record dkg_codec =
  ser_vss :: "bytes \<times> bytes \<times> bytes \<Rightarrow> bytes"
  de_vss :: "bytes \<Rightarrow> lib_error + (bytes \<times> bytes \<times> bytes)"
  ser_results :: "VerificationResult \<Rightarrow> bytes"
  de_results :: "bytes \<Rightarrow> lib_error + VerificationResult"
  ser_claim :: "u64 \<times> u64 \<times> bytes \<times> bytes \<times> bytes \<times> bytes \<times> bytes \<times> bytes \<Rightarrow> bytes"
  de_claim :: "bytes \<Rightarrow> lib_error + (u64 \<times> u64 \<times> bytes \<times> bytes \<times> bytes \<times> bytes \<times> bytes \<times> bytes)"
  ser_pk :: "bytes \<times> bytes \<times> bytes \<Rightarrow> bytes"
  de_pk :: "bytes \<Rightarrow> lib_error + (bytes \<times> bytes \<times> bytes)"
  ser_gpk :: "bytes \<times> bytes \<times> bytes \<times> bytes \<Rightarrow> bytes"
  de_gpk :: "bytes \<Rightarrow> lib_error + (bytes \<times> bytes \<times> bytes \<times> bytes)"

definition unwrap_err :: string where
  "unwrap_err = ''called `Result::unwrap()` on an `Err` value''"

definition VssSharePayload_to_bytes ::
  "('p1, 'p2) blst_lib \<Rightarrow> dkg_codec \<Rightarrow> 'p1 VssSharePayload \<Rightarrow> bytes" where
  "VssSharePayload_to_bytes L C p =
    ser_vss C (enc_share p, vss_sig p, CommittedPoly_to_bytes L (committed_poly p))"

definition VssSharePayload_from_bytes ::
  "('p1, 'p2) blst_lib \<Rightarrow> dkg_codec \<Rightarrow> bytes \<Rightarrow> (DvfError, 'p1 VssSharePayload) outcome" where
  "VssSharePayload_from_bytes L C b = bindO (unwrap_sum (de_vss C b) unwrap_err) (\<lambda>(enc, sig, poly).
    bindO (CommittedPoly_from_bytes L poly) (\<lambda>cp.
    Ok \<lparr>enc_share = enc, vss_sig = sig, committed_poly = cp\<rparr>))"

definition DleqProof_serialize :: "DleqProof \<Rightarrow> bytes \<times> bytes" where
  "DleqProof_serialize p = (blst_scalar_to_bytes (proof_c p), blst_scalar_to_bytes (proof_r p))"

definition DleqProof_deserialize :: "('p1, 'p2) blst_lib \<Rightarrow> bytes \<times> bytes \<Rightarrow> DleqProof" where
  "DleqProof_deserialize L cr =
    \<lparr>proof_c = bytes_to_blst_scalar L (fst cr), proof_r = bytes_to_blst_scalar L (snd cr)\<rparr>"

definition DisputeClaim_to_bytes ::
  "('p1, 'p2) blst_lib \<Rightarrow> dkg_codec \<Rightarrow> 'p1 DisputeClaim \<Rightarrow> bytes" where
  "DisputeClaim_to_bytes L C c = ser_claim C (issue_party c, corrupted_party c, claim_enc_share c,
    claim_key c, claim_sig c, CommittedPoly_to_bytes L (claim_poly c), DleqProof_serialize (claim_proof c))"

definition DisputeClaim_from_bytes ::
  "('p1, 'p2) blst_lib \<Rightarrow> dkg_codec \<Rightarrow> bytes \<Rightarrow> (DvfError, 'p1 DisputeClaim) outcome" where
  "DisputeClaim_from_bytes L C b =
    bindO (unwrap_sum (de_claim C b) unwrap_err) (\<lambda>(i, j, enc, key, sig, poly, cr).
    bindO (CommittedPoly_from_bytes L poly) (\<lambda>cp.
    Ok \<lparr>issue_party = i, corrupted_party = j, claim_enc_share = enc, claim_key = key, claim_sig = sig,
      claim_poly = cp, claim_proof = DleqProof_deserialize L cr\<rparr>))"

definition PkPayload_to_bytes :: "('p1, 'p2) blst_lib \<Rightarrow> dkg_codec \<Rightarrow> 'p1 PkPayload \<Rightarrow> bytes" where
  "PkPayload_to_bytes L C p =
    ser_pk C (blst_p1_to_bytes L (payload_pk p), DleqProof_serialize (pk_proof p))"

definition PkPayload_from_bytes ::
  "('p1, 'p2) blst_lib \<Rightarrow> dkg_codec \<Rightarrow> bytes \<Rightarrow> (DvfError, 'p1 PkPayload) outcome" where
  "PkPayload_from_bytes L C b = bindO (unwrap_sum (de_pk C b) unwrap_err) (\<lambda>(p, cr).
    Ok \<lparr>payload_pk = bytes_to_blst_p1 L p, pk_proof = DleqProof_deserialize L cr\<rparr>)"

definition GpkPayload_to_bytes :: "('p1, 'p2) blst_lib \<Rightarrow> dkg_codec \<Rightarrow> 'p1 GpkPayload \<Rightarrow> bytes" where
  "GpkPayload_to_bytes L C p = ser_gpk C (blst_p1_to_bytes L (gpk p), blst_p1_to_bytes L (aux_gpk p),
    DleqProof_serialize (gpk_proof p))"

definition GpkPayload_from_bytes ::
  "('p1, 'p2) blst_lib \<Rightarrow> dkg_codec \<Rightarrow> bytes \<Rightarrow> (DvfError, 'p1 GpkPayload) outcome" where
  "GpkPayload_from_bytes L C b = bindO (unwrap_sum (de_gpk C b) unwrap_err) (\<lambda>(p, q, cr).
    Ok \<lparr>gpk = bytes_to_blst_p1 L p, aux_gpk = bytes_to_blst_p1 L q, gpk_proof = DleqProof_deserialize L cr\<rparr>)"

section \<open>Proofs of equal discrete logarithms\<close>

definition dleq_prove ::
  "('p1, 'p2) blst_lib \<Rightarrow> bytes \<Rightarrow> 'p1 \<Rightarrow> 'p1 \<Rightarrow> 'p1 \<Rightarrow> 'p1 \<Rightarrow> blst_scalar \<Rightarrow> (DvfError, DleqProof) outcome"
  where
  "dleq_prove L ikm x1 y1 x2 y2 alpha =
    (if blst_p1_mult L x1 alpha \<noteq> y1 \<or> blst_p1_mult L x2 alpha \<noteq> y2 then Err ZKProofInvalidInput
     else
       let w = random_blst_scalar L ikm;
           t1 = blst_p1_mult L x1 w;
           t2 = blst_p1_mult L x2 w;
           c = hash_points_to_blst_scalar L [x1, y1, x2, y2, t1, t2]
       in Ok \<lparr>proof_c = c, proof_r = blst_scalar_sub L w (blst_scalar_mult L alpha c)\<rparr>)"

definition dleq_verify ::
  "('p1, 'p2) blst_lib \<Rightarrow> 'p1 \<Rightarrow> 'p1 \<Rightarrow> 'p1 \<Rightarrow> 'p1 \<Rightarrow> DleqProof \<Rightarrow> bool" where
  "dleq_verify L x1 y1 x2 y2 p =
    (let t1 = blst_p1_add L (blst_p1_mult L x1 (proof_r p)) (blst_p1_mult L y1 (proof_c p));
         t2 = blst_p1_add L (blst_p1_mult L x2 (proof_r p)) (blst_p1_mult L y2 (proof_c p))
     in proof_c p = hash_points_to_blst_scalar L [x1, y1, x2, y2, t1, t2])"

section \<open>The phases\<close>

record 'p1 DKGMalicious =
  dkg_party :: u64
  dkg_io :: "'p1 SecureNetIOChannel IOCommittee"
  dkg_threshold :: nat
  dkg_h :: 'p1

definition DKGMalicious_new ::
  "('p1, 'p2) blst_lib \<Rightarrow> u64 \<Rightarrow> 'p1 SecureNetIOChannel IOCommittee \<Rightarrow> nat \<Rightarrow> 'p1 DKGMalicious" where
  "DKGMalicious_new L party io threshold =
    \<lparr>dkg_party = party, dkg_io = io, dkg_threshold = threshold, dkg_h = another_p1_generator L\<rparr>"

definition self_channel ::
  "'p1 DKGMalicious \<Rightarrow> u64 \<Rightarrow> (DvfError, 'p1 SecureNetIOChannel) outcome" where
  "self_channel D i = io_channel (dkg_io D) (dkg_party D) i"

definition share_generation ::
  "('p1, 'p2) blst_lib \<Rightarrow> sampler \<Rightarrow> WrapKeypair \<Rightarrow> 'p1 DKGMalicious \<Rightarrow>
    (DvfError, WrapKeypair \<times> (u64 \<times> WrapKeypair) list \<times> Polynomial \<times> 'p1 CommittedPoly) outcome" where
  "share_generation L sample kp D =
    bindO (key_gen_with_poly L (dkg_threshold D) sample kp (io_ids (dkg_io D))) (\<lambda>(kp, kps, poly).
    Ok (kp, kps, poly, Polynomial_commit L poly (dkg_h D)))"

definition make_payload ::
  "('p1, 'p2) blst_lib \<Rightarrow> 'p1 chan_lib \<Rightarrow> 'p1 DKGMalicious \<Rightarrow> (u64 \<times> WrapKeypair) list \<Rightarrow>
    'p1 CommittedPoly \<Rightarrow> u64 \<Rightarrow> (dkg_net, DvfError, 'p1 VssSharePayload) act" where
  "make_payload L A D kps cp i =
    bindM (liftO (self_channel D i)) (\<lambda>ch.
    bindM (liftO (case map_of kps i of
        None \<Rightarrow> Panic ''called `Option::unwrap()` on a `None` value''
      | Some kp \<Rightarrow> Ok (blst_wrap_sk_to_bytes (kp_sk kp)))) (\<lambda>s_ij.
    bindM (channel_encrypt L A ch s_ij) (\<lambda>enc_s_ij.
    bindM (liftO (channel_sign A ch enc_s_ij)) (\<lambda>sig.
    bindM (liftO (map_err BlsError (of_sum (sig_deserialize L sig)))) (\<lambda>sig.
    retM \<lparr>enc_share = enc_s_ij, vss_sig = sig, committed_poly = cp\<rparr>)))))"

text \<open>The loop that prepares the payloads, and the exchange of them.\<close>

fun make_payloads where
  "make_payloads L A D kps cp [] = retM []"
| "make_payloads L A D kps cp (i # ids) =
    (if i = dkg_party D then make_payloads L A D kps cp ids
     else bindM (make_payload L A D kps cp i) (\<lambda>p.
       bindM (make_payloads L A D kps cp ids) (\<lambda>ps. retM ((i, p) # ps))))"

fun exchange_payloads ::
  "('p1, 'p2) blst_lib \<Rightarrow> 'p1 chan_lib \<Rightarrow> dkg_codec \<Rightarrow> 'p1 DKGMalicious \<Rightarrow> (u64 \<times> 'p1 VssSharePayload) list \<Rightarrow>
    (u64 \<times> 'p1 VssSharePayload) list \<Rightarrow> (dkg_net, DvfError, (u64 \<times> 'p1 VssSharePayload) list) act" where
  "exchange_payloads L A C D [] acc = retM acc"
| "exchange_payloads L A C D ((i, p) # ps) acc =
    bindM (liftO (self_channel D i)) (\<lambda>ch.
    thenM (channel_send L A ch (VssSharePayload_to_bytes L C p))
    (bindM (channel_recv L A ch) (\<lambda>b.
     bindM (liftO (VssSharePayload_from_bytes L C b)) (\<lambda>q.
     exchange_payloads L A C D ps (AList.update i q acc)))))"

definition share_transmission ::
  "('p1, 'p2) blst_lib \<Rightarrow> 'p1 chan_lib \<Rightarrow> dkg_codec \<Rightarrow> 'p1 DKGMalicious \<Rightarrow> (u64 \<times> WrapKeypair) list \<Rightarrow>
    'p1 CommittedPoly \<Rightarrow> (dkg_net, DvfError, (u64 \<times> 'p1 VssSharePayload) list) act" where
  "share_transmission L A C D kps cp =
    bindM (make_payloads L A D kps cp (io_ids (dkg_io D))) (\<lambda>ps. exchange_payloads L A C D ps [])"

text \<open>The decrypted share in a payload, as both \<open>reveal_shares\<close> and \<open>share_verification\<close> compute it.\<close>

definition open_share ::
  "('p1, 'p2) blst_lib \<Rightarrow> 'p1 chan_lib \<Rightarrow> 'p1 DKGMalicious \<Rightarrow> u64 \<Rightarrow> 'p1 VssSharePayload \<Rightarrow>
    (DvfError, blst_scalar) outcome" where
  "open_share L A D i share = bindO (self_channel D i) (\<lambda>ch.
    bindO (channel_decrypt L A ch (enc_share share)) (\<lambda>s. Ok (bytes_to_blst_scalar L s)))"

fun reveal_shares ::
  "('p1, 'p2) blst_lib \<Rightarrow> 'p1 chan_lib \<Rightarrow> 'p1 DKGMalicious \<Rightarrow> (u64 \<times> 'p1 VssSharePayload) list \<Rightarrow>
    (DvfError, (u64 \<times> blst_scalar) list) outcome" where
  "reveal_shares L A D [] = Ok []"
| "reveal_shares L A D ((i, share) # rest) =
    (if i = dkg_party D then reveal_shares L A D rest
     else bindO (open_share L A D i share) (\<lambda>s.
       bindO (reveal_shares L A D rest) (\<lambda>m. Ok ((i, s) # m))))"

definition verify_share ::
  "('p1, 'p2) blst_lib \<Rightarrow> 'p1 \<Rightarrow> 'p1 CommittedPoly \<Rightarrow> u64 \<Rightarrow> blst_scalar \<Rightarrow> (DvfError, bool) outcome" where
  "verify_share L h cp party s =
    bindO (CommittedPoly_eval L cp (u64_to_blst_scalar party)) (\<lambda>y'. Ok (blst_p1_mult L h s = y'))"

fun share_verification ::
  "('p1, 'p2) blst_lib \<Rightarrow> 'p1 chan_lib \<Rightarrow> 'p1 DKGMalicious \<Rightarrow> (u64 \<times> 'p1 VssSharePayload) list \<Rightarrow>
    (DvfError, VerificationResult) outcome" where
  "share_verification L A D [] = Ok []"
| "share_verification L A D ((i, share) # rest) =
    (if i = dkg_party D then share_verification L A D rest
     else bindO (open_share L A D i share) (\<lambda>s.
       bindO (verify_share L (dkg_h D) (committed_poly share) (dkg_party D) s) (\<lambda>b.
       bindO (share_verification L A D rest) (\<lambda>m. Ok ((i, b) # m)))))"


fun exchange_verification_loop where
  "exchange_verification_loop L A C D [] = retM []"
| "exchange_verification_loop L A C D (i # ids) =
    (if i = dkg_party D then exchange_verification_loop L A C D ids
     else bindM (liftO (io_channel (dkg_io D) i (dkg_party D))) (\<lambda>ch.
       bindM (channel_recv L A ch) (\<lambda>msg.
       bindM (liftO (unwrap_sum (de_results C msg) unwrap_err)) (\<lambda>result.
       bindM (exchange_verification_loop L A C D ids) (\<lambda>others. retM ((i, result) # others))))))"

definition exchange_verification_results ::
  "('p1, 'p2) blst_lib \<Rightarrow> 'p1 chan_lib \<Rightarrow> dkg_codec \<Rightarrow> 'p1 DKGMalicious \<Rightarrow> VerificationResult \<Rightarrow>
    (dkg_net, DvfError, (u64 \<times> VerificationResult) list) act" where
  "exchange_verification_results L A C D r =
    thenM (io_broadcast L A (dkg_io D) (ser_results C r))
      (exchange_verification_loop L A C D (io_ids (dkg_io D)))"

definition issue_dispute_claim ::
  "('p1, 'p2) blst_lib \<Rightarrow> 'p1 chan_lib \<Rightarrow> dkg_codec \<Rightarrow> 'p1 DKGMalicious \<Rightarrow> u64 \<Rightarrow> 'p1 VssSharePayload \<Rightarrow>
    (dkg_net, DvfError, unit) act" where
  "issue_dispute_claim L A C D corrupted share =
    bindM (liftO (self_channel D corrupted)) (\<lambda>ch.
    bindM draw (\<lambda>ikm.
    let kij = shared_secret L ch in
    bindM (liftO (dleq_prove L ikm (fixed_p1_generator L) (self_public_key L ch) (ch_other_pk ch) kij (ch_sk ch)))
      (\<lambda>zk.
    io_broadcast L A (dkg_io D) (DisputeClaim_to_bytes L C
      \<lparr>issue_party = dkg_party D, corrupted_party = corrupted, claim_enc_share = enc_share share,
       claim_key = blst_p1_to_bytes L kij, claim_sig = vss_sig share,
       claim_poly = committed_poly share, claim_proof = zk\<rparr>))))"

text \<open>
  \<open>verify_dispute_claim\<close>: the accuser's and the accused's channels, the accused's signature on the
  encrypted share, the proof that the revealed key is theirs, and the failed check of the share.
  A point is re-encoded before it is used as a key, as in the code.
\<close>

definition verify_dispute_claim ::
  "('p1, 'p2) blst_lib \<Rightarrow> 'p1 chan_lib \<Rightarrow> 'p1 DKGMalicious \<Rightarrow> 'p1 DisputeClaim \<Rightarrow> (DvfError, bool) outcome"
  where
  "verify_dispute_claim L A D claim =
    bindO (self_channel D (issue_party claim)) (\<lambda>channel_j.
    bindO (self_channel D (corrupted_party claim)) (\<lambda>channel_i.
    bindO (unwrap_sum (core_from_bytes L (claim_sig claim)) unwrap_err) (\<lambda>_.
    bindO (verify_partner A channel_i (claim_enc_share claim) (claim_sig claim)) (\<lambda>signed.
    if \<not> signed then Ok False
    else
      let kij = bytes_to_blst_p1 L (claim_key claim) in
      if \<not> dleq_verify L (fixed_p1_generator L) (ch_other_pk channel_j) (ch_other_pk channel_i) kij
          (claim_proof claim) then Ok False
      else
        bindO (decrypt_with_key A (claim_enc_share claim) (blst_p1_to_bytes L kij)) (\<lambda>s.
        bindO (verify_share L (dkg_h D) (claim_poly claim) (issue_party claim) (bytes_to_blst_scalar L s))
          (\<lambda>ok. Ok (\<not> ok)))))))"

definition head_commitment ::
  "(u64 \<times> 'p1 CommittedPoly) list \<Rightarrow> u64 \<Rightarrow> (DvfError, 'p1) outcome" where
  "head_commitment polys i = (case map_of polys i of
      None \<Rightarrow> Panic ''no entry found for key''
    | Some cp \<Rightarrow> (case commitments cp of
        [] \<Rightarrow> Panic ''index out of bounds: the len is 0 but the index is 0''
      | c # _ \<Rightarrow> Ok c))"

fun exchange_pk_loop where
  "exchange_pk_loop L A C D polys [] = retM []"
| "exchange_pk_loop L A C D polys (i # ids) =
    (if i = dkg_party D then exchange_pk_loop L A C D polys ids
     else bindM (liftO (io_channel (dkg_io D) i (dkg_party D))) (\<lambda>ch.
       bindM (channel_recv L A ch) (\<lambda>msg.
       bindM (liftO (PkPayload_from_bytes L C msg)) (\<lambda>p.
       bindM (liftO (head_commitment polys i)) (\<lambda>aux.
       bindM (exchange_pk_loop L A C D polys ids) (\<lambda>rest.
       retM (if dleq_verify L (fixed_p1_generator L) (payload_pk p) (dkg_h D) aux (pk_proof p)
         then (i, payload_pk p) # rest else rest)))))))"

definition exchange_public_keys ::
  "('p1, 'p2) blst_lib \<Rightarrow> 'p1 chan_lib \<Rightarrow> dkg_codec \<Rightarrow> 'p1 DKGMalicious \<Rightarrow> 'p1 \<Rightarrow> blst_scalar \<Rightarrow>
    (u64 \<times> 'p1 CommittedPoly) list \<Rightarrow> (dkg_net, DvfError, (u64 \<times> 'p1) list) act" where
  "exchange_public_keys L A C D public secret polys =
    bindM (liftO (head_commitment polys (dkg_party D))) (\<lambda>aux_pk.
    bindM draw (\<lambda>ikm.
    bindM (liftO (dleq_prove L ikm (fixed_p1_generator L) public (dkg_h D) aux_pk secret)) (\<lambda>zk.
    thenM (io_broadcast L A (dkg_io D) (PkPayload_to_bytes L C \<lparr>payload_pk = public, pk_proof = zk\<rparr>))
    (bindM (exchange_pk_loop L A C D polys (io_ids (dkg_io D))) (\<lambda>results.
     let results = AList.update (dkg_party D) public results in
     if length results < length (io_ids (dkg_io D)) then liftO (Err InsufficientValidPks)
     else retM results)))))"

definition construct_group_key ::
  "('p1, 'p2) blst_lib \<Rightarrow> (u64 \<times> blst_scalar) list \<Rightarrow> blst_scalar \<times> 'p1" where
  "construct_group_key L shares =
    (let gsk = foldl (\<lambda>gsk (_, s). blst_scalar_add L gsk s) 0 shares in (gsk, blst_sk_to_pk L gsk))"

fun eval_all ::
  "('p1, 'p2) blst_lib \<Rightarrow> u64 \<Rightarrow> (u64 \<times> 'p1 CommittedPoly) list \<Rightarrow> (DvfError, 'p1 list) outcome" where
  "eval_all L i [] = Ok []"
| "eval_all L i ((_, cp) # polys) =
    bindO (CommittedPoly_eval L cp (u64_to_blst_scalar i)) (\<lambda>y.
    bindO (eval_all L i polys) (\<lambda>ys. Ok (y # ys)))"

definition check_gpk ::
  "('p1, 'p2) blst_lib \<Rightarrow> 'p1 DKGMalicious \<Rightarrow> (u64 \<times> 'p1 CommittedPoly) list \<Rightarrow> u64 \<Rightarrow> 'p1 GpkPayload \<Rightarrow>
    (DvfError, bool) outcome" where
  "check_gpk L D polys i p =
    (if \<not> dleq_verify L (fixed_p1_generator L) (gpk p) (dkg_h D) (aux_gpk p) (gpk_proof p) then Ok False
     else bindO (eval_all L i polys) (\<lambda>evals. Ok (aux_gpk p = blst_p1s_add L evals)))"

fun exchange_gpk_loop where
  "exchange_gpk_loop L A C D polys [] = retM []"
| "exchange_gpk_loop L A C D polys (i # ids) =
    (if i = dkg_party D then exchange_gpk_loop L A C D polys ids
     else bindM (liftO (io_channel (dkg_io D) i (dkg_party D))) (\<lambda>ch.
       bindM (channel_recv L A ch) (\<lambda>msg.
       bindM (liftO (GpkPayload_from_bytes L C msg)) (\<lambda>p.
       bindM (liftO (check_gpk L D polys i p)) (\<lambda>ok.
       bindM (exchange_gpk_loop L A C D polys ids) (\<lambda>rest.
       retM (if ok then (i, gpk p) # rest else rest)))))))"

definition exchange_group_public_keys ::
  "('p1, 'p2) blst_lib \<Rightarrow> 'p1 chan_lib \<Rightarrow> dkg_codec \<Rightarrow> 'p1 DKGMalicious \<Rightarrow> 'p1 \<Rightarrow> blst_scalar \<Rightarrow>
    (u64 \<times> 'p1 CommittedPoly) list \<Rightarrow> (dkg_net, DvfError, (u64 \<times> 'p1) list) act" where
  "exchange_group_public_keys L A C D public gsk polys =
    (let aux = blst_p1_mult L (dkg_h D) gsk in
    bindM draw (\<lambda>ikm.
    bindM (liftO (dleq_prove L ikm (fixed_p1_generator L) public (dkg_h D) aux gsk)) (\<lambda>zk.
    thenM (io_broadcast L A (dkg_io D)
      (GpkPayload_to_bytes L C \<lparr>gpk = public, aux_gpk = aux, gpk_proof = zk\<rparr>))
    (bindM (exchange_gpk_loop L A C D polys (io_ids (dkg_io D))) (\<lambda>results.
     let results = AList.update (dkg_party D) public results in
     if length results < length (io_ids (dkg_io D)) then liftO (Err InsufficientValidPks)
     else retM results)))))"

section \<open>The protocol\<close>

text \<open>Claims for the shares that failed, and the verdicts on the claims of the others.\<close>

definition dispute ::
  "('p1, 'p2) blst_lib \<Rightarrow> 'p1 chan_lib \<Rightarrow> dkg_codec \<Rightarrow> 'p1 DKGMalicious \<Rightarrow> (u64 \<times> 'p1 VssSharePayload) list \<Rightarrow>
    VerificationResult \<Rightarrow> (dkg_net, DvfError, unit) act" where
  "dispute L A C D payloads vrfy = forM vrfy (\<lambda>(i, valid).
    if valid then retM ()
    else bindM (liftO (case map_of payloads i of
        None \<Rightarrow> Panic ''called `Option::unwrap()` on a `None` value'' | Some p \<Rightarrow> Ok p))
      (issue_dispute_claim L A C D i))"

fun judge_claims where
  "judge_claims L A C D ch id1 [] = retM []"
| "judge_claims L A C D ch id1 ((id2, valid) # results) =
    (if valid then judge_claims L A C D ch id1 results
     else bindM (channel_recv L A ch) (\<lambda>b.
       bindM (liftO (DisputeClaim_from_bytes L C b)) (\<lambda>claim.
       bindM (liftO (verify_dispute_claim L A D claim)) (\<lambda>ok.
       bindM (judge_claims L A C D ch id1 results) (\<lambda>rest.
       retM (if ok then (id1, id2) # rest else rest))))))"

fun judge_all where
  "judge_all L A C D [] = retM []"
| "judge_all L A C D ((id1, results) # others) =
    bindM (liftO (io_channel (dkg_io D) id1 (dkg_party D))) (\<lambda>ch.
    bindM (judge_claims L A C D ch id1 results) (\<lambda>vs.
    bindM (judge_all L A C D others) (\<lambda>ws. retM (vs @ ws))))"

definition wrap_pks ::
  "('p1, 'p2) blst_lib \<Rightarrow> (u64 \<times> 'p1) list \<Rightarrow> (DvfError, (u64 \<times> WrapPublicKey) list) outcome" where
  "wrap_pks L gpks = foldr (\<lambda>(i, p) acc. bindO (blst_p1_to_blst_wrap_pk L p) (\<lambda>k.
    bindO acc (\<lambda>ks. Ok ((i, k) # ks)))) gpks (Ok [])"

definition derive_keys ::
  "('p1, 'p2) blst_lib \<Rightarrow> 'p1 chan_lib \<Rightarrow> dkg_codec \<Rightarrow> 'p1 DKGMalicious \<Rightarrow> WrapKeypair \<Rightarrow>
    (u64 \<times> WrapKeypair) list \<Rightarrow> 'p1 CommittedPoly \<Rightarrow> (u64 \<times> 'p1 VssSharePayload) list \<Rightarrow>
    (dkg_net, DvfError, WrapKeypair \<times> WrapPublicKey \<times> (u64 \<times> WrapPublicKey) list) act" where
  "derive_keys L A C D kp kps cp payloads =
    (let polys = foldl (\<lambda>m (i, share). AList.update i (committed_poly share) m) [(dkg_party D, cp)] payloads;
         self_pk = bytes_to_blst_p1 L (kp_pk kp);
         self_sk = blst_wrap_sk_to_blst_scalar L (kp_sk kp)
     in
    bindM (exchange_public_keys L A C D self_pk self_sk polys) (\<lambda>pks.
    let pks = AList.update (dkg_party D) self_pk pks; mpk = blst_p1s_add L (map snd pks) in
    bindM (liftO (reveal_shares L A D payloads)) (\<lambda>shares.
    bindM (liftO (case map_of kps (dkg_party D) of
        None \<Rightarrow> Panic ''no entry found for key''
      | Some own \<Rightarrow> Ok (blst_wrap_sk_to_blst_scalar L (kp_sk own)))) (\<lambda>self_share.
    let shares = AList.update (dkg_party D) self_share shares;
        (gsk, public) = construct_group_key L shares in
    bindM (exchange_group_public_keys L A C D public gsk polys) (\<lambda>gpks.
    bindM (liftO (blst_scalar_to_blst_wrap_sk L gsk)) (\<lambda>wsk.
    bindM (liftO (blst_p1_to_blst_wrap_pk L mpk)) (\<lambda>wmpk.
    bindM (liftO (wrap_pks L gpks)) (\<lambda>wpks.
    retM (\<lparr>kp_pk = sk_public_key L wsk, kp_sk = wsk\<rparr>, wmpk, wpks)))))))))"

definition DKGMalicious_run ::
  "('p1, 'p2) blst_lib \<Rightarrow> 'p1 chan_lib \<Rightarrow> dkg_codec \<Rightarrow> sampler \<Rightarrow> WrapKeypair \<Rightarrow> 'p1 DKGMalicious \<Rightarrow>
    (dkg_net, DvfError, WrapKeypair \<times> WrapPublicKey \<times> (u64 \<times> WrapPublicKey) list) act" where
  "DKGMalicious_run L A C sample kp0 D =
    bindM (liftO (share_generation L sample kp0 D)) (\<lambda>(kp, kps, poly, cp).
    bindM (share_transmission L A C D kps cp) (\<lambda>payloads.
    bindM (liftO (share_verification L A D payloads)) (\<lambda>vrfy.
    bindM (exchange_verification_results L A C D vrfy) (\<lambda>others.
    thenM (dispute L A C D payloads vrfy)
    (bindM (judge_all L A C D others) (\<lambda>valid_claims.
     if valid_claims \<noteq> [] then liftO (Err (InvalidDkgShare valid_claims))
     else if list_ex (\<lambda>(_, valid). \<not> valid) vrfy then liftO (Err VssShareVerificationFailed)
     else derive_keys L A C D kp kps cp payloads))))))"

section \<open>The semi-honest protocol and the signer\<close>

text \<open>
  These run over any kind of channel: \<open>snd_to\<close> and \<open>rcv_from\<close> are its two operations.
\<close>

record dkg_channel =
  snd_to :: "u64 \<Rightarrow> bytes \<Rightarrow> (dkg_net, DvfError, unit) act"
  rcv_from :: "u64 \<Rightarrow> (dkg_net, DvfError, bytes) act"

fun semi_exchange where
  "semi_exchange L N party kp kps [] = retM []"
| "semi_exchange L N party kp kps (i # ids) =
    bindM (liftO (case map_of kps i of
        None \<Rightarrow> Panic ''called `Option::unwrap()` on a `None` value''
      | Some share \<Rightarrow> Ok (kp_sk share))) (\<lambda>s_ij.
    bindM (if i = party then retM (s_ij, kp_pk kp)
      else thenM (snd_to N i s_ij) (bindM (rcv_from N i) (\<lambda>s.
        thenM (snd_to N i (kp_pk kp)) (bindM (rcv_from N i) (\<lambda>p. retM (s, p)))))) (\<lambda>(s_ji, pk_j).
    bindM (semi_exchange L N party kp kps ids) (\<lambda>rest.
    retM ((from_bytes_be L s_ji, p1_uncompress L pk_j) # rest))))"

fun semi_publish where
  "semi_publish L N party public [] = retM []"
| "semi_publish L N party public (i # ids) =
    bindM (if i = party then retM public
      else thenM (snd_to N i public) (bindM (rcv_from N i) (\<lambda>b.
        liftO (unwrap_sum (pk_deserialize L b) unwrap_err)))) (\<lambda>key.
    bindM (semi_publish L N party public ids) (\<lambda>rest. retM ((i, key) # rest)))"

definition group_secret :: "('p1, 'p2) blst_lib \<Rightarrow> int list \<Rightarrow> (DvfError, WrapSecretKey) outcome" where
  "group_secret L ss =
    (let gsk_bytes = to_bytes_be L (reduce (foldl (+) 0 ss) (MODULUS L));
         gsk_bytes = replicate (SECRET_KEY_BYTES_LEN - length gsk_bytes) 0 @ gsk_bytes
     in unwrap_sum (sk_deserialize L gsk_bytes) unwrap_err)"

definition DKGSemiHonest_run ::
  "('p1, 'p2) blst_lib \<Rightarrow> dkg_channel \<Rightarrow> sampler \<Rightarrow> WrapKeypair \<Rightarrow> u64 \<Rightarrow> u64 list \<Rightarrow> nat \<Rightarrow>
    (dkg_net, DvfError, WrapKeypair \<times> WrapPublicKey \<times> (u64 \<times> WrapPublicKey) list) act" where
  "DKGSemiHonest_run L N sample kp0 party ids threshold =
    bindM (liftO (key_gen_with_poly L threshold sample kp0 ids)) (\<lambda>(kp, kps, poly).
    bindM (semi_exchange L N party kp kps ids) (\<lambda>results.
    bindM (liftO (group_secret L (map fst results))) (\<lambda>gsk.
    bindM (liftO (unwrap_sum (pk_deserialize L (p1_compress L (p1s_add L (map snd results)))) unwrap_err)) (\<lambda>mpk.
    bindM (semi_publish L N party (sk_public_key L gsk) ids) (\<lambda>pks.
    retM (\<lparr>kp_pk = sk_public_key L gsk, kp_sk = gsk\<rparr>, mpk, pks))))))"

record SimpleDistributedSigner =
  signer_party :: u64
  signer_kp :: WrapKeypair
  signer_mpk :: WrapPublicKey
  signer_pks :: "(u64 \<times> WrapPublicKey) list"
  signer_threshold :: nat

fun collect_signatures where
  "collect_signatures L N S my_sig [] = retM []"
| "collect_signatures L N S my_sig (i # ids) =
    bindM (if i = signer_party S then retM (i, kp_pk (signer_kp S), my_sig)
      else thenM (snd_to N i my_sig) (bindM (rcv_from N i) (\<lambda>b.
        bindM (liftO (unwrap_sum (sig_deserialize L b) unwrap_err)) (\<lambda>sig.
        liftO (case map_of (signer_pks S) i of
            None \<Rightarrow> Panic ''called `Option::unwrap()` on a `None` value''
          | Some key \<Rightarrow> Ok (i, key, sig)))))) (\<lambda>r.
    bindM (collect_signatures L N S my_sig ids) (\<lambda>rest. retM (r # rest)))"

definition signer_sign ::
  "('p1, 'p2) blst_lib \<Rightarrow> dkg_channel \<Rightarrow> SimpleDistributedSigner \<Rightarrow> u64 list \<Rightarrow> Hash256 \<Rightarrow>
    (dkg_net, DvfError, WrapSignature) act" where
  "signer_sign L N S ids msg =
    bindM (collect_signatures L N S (sk_sign L (kp_sk (signer_kp S)) msg) ids) (\<lambda>results.
    bindM (liftO (infinity L (signer_threshold S))) (\<lambda>ts.
    liftO (threshold_aggregate L ts (map (\<lambda>(i, k, s). s) results) (map (\<lambda>(i, k, s). k) results)
      (map fst results) msg)))"

end
