(* ===== verification/ThresholdProps.thy ===== *)
theory ThresholdProps
  imports Threshold
begin

text \<open>
  Properties of the threshold scheme, and a concrete curve library (the integers modulo 7, a group of
  prime order) on which their hypotheses hold.
\<close>

section \<open>A concrete library\<close>

definition toy_be :: "int \<Rightarrow> bytes" where
  "toy_be v = rev (le_digits (if \<bar>v\<bar> < 2 ^ 256 then 32 else nat \<bar>v\<bar>) \<bar>v\<bar>)"

definition toy_point :: "nat \<Rightarrow> int \<Rightarrow> bytes" where
  "toy_point n p = replicate n 0 @ [word_of_int p]"

fun toy_le_mod :: "bytes \<Rightarrow> int" where
  "toy_le_mod [] = 0"
| "toy_le_mod (b # bs) = (uint b + 256 * toy_le_mod bs) mod 7"

definition toy_blst :: "(int, int) blst_lib" where
  "toy_blst = \<lparr>
    MODULUS = 7,
    to_bytes_be = toy_be,
    to_bytes_le = (\<lambda>v. rev (toy_be v)),
    from_bytes_be = be_val,
    from_bytes_le = (\<lambda>b. be_val (rev b)),
    blst_sk_add_n_check = (\<lambda>a b. (a + b) mod 7),
    blst_sk_sub_n_check = (\<lambda>a b. (a - b) mod 7),
    blst_sk_mul_n_check = (\<lambda>a b. (a * b) mod 7),
    blst_sk_inverse = (\<lambda>a. a ^ 5 mod 7),
    blst_scalar_from_le_bytes = toy_le_mod,
    blst_scalar_from_be_bytes = (\<lambda>b. be_val b mod 7),
    blst_keygen = (\<lambda>b. be_val b mod 6 + 1),
    p1_generator = 1,
    p1_default = 0,
    hash_to_g1 = (\<lambda>_. 3),
    p1_in_g1 = (\<lambda>p. 0 \<le> p \<and> p < 7),
    p1_add = (\<lambda>p q. (p + q) mod 7),
    p1_mult = (\<lambda>p a n. p * a mod 7),
    p1s_add = (\<lambda>ps. foldr (\<lambda>p q. (p + q) mod 7) ps 0),
    p1_compress = toy_point 47,
    p1_uncompress = (\<lambda>b. uint (last b)),
    sk_to_pk_in_g1 = (\<lambda>a. 1 * a mod 7),
    p2_in_g2 = (\<lambda>p. 0 \<le> p \<and> p < 7),
    p2_add = (\<lambda>p q. (p + q) mod 7),
    p2_mult = (\<lambda>p a n. p * a mod 7),
    hash_to_g2 = (\<lambda>_. 2),
    p2_compress = toy_point 95,
    p2_serialize = toy_point 191,
    p2_deserialize = (\<lambda>b. uint (last b)),
    core_from_bytes = (\<lambda>b. Inr (uint (last b))),
    core_deserialize = (\<lambda>b. Inr (uint (last b))),
    INFINITY_SIGNATURE = toy_point 95 0,
    sk_deserialize = (\<lambda>k. if length k = 32 \<and> 0 < be_val k \<and> be_val k < 7 then Inr k else Inl 0),
    sk_public_key = (\<lambda>k. toy_point 47 (1 * be_val k mod 7)),
    sk_sign = (\<lambda>k m. toy_point 95 (2 * be_val k mod 7)),
    pk_deserialize = Inr,
    sig_deserialize = Inr,
    sig_verify = (\<lambda>s k m. s = toy_point 95 (2 * uint (last k) mod 7))\<rparr>"

lemma toy_le_mod_val: "toy_le_mod b = be_val (rev b) mod 7"
proof (induction b)
  case (Cons x xs)
  have "(uint x + 256 * (be_val (rev xs) mod 7)) mod 7 = (uint x + 256 * be_val (rev xs)) mod 7"
    by (simp only: mod_mult_right_eq mod_add_right_eq [symmetric, of _ "256 * _"])
  then show ?case by (simp add: Cons.IH be_val_append algebra_simps)
qed simp

lemma toy_be_val: "be_val (toy_be v) = \<bar>v\<bar>"
proof -
  have "n < 256 ^ n" for n :: nat by (induction n) simp_all
  from this [of "nat \<bar>v\<bar>"] have "int (nat \<bar>v\<bar>) < int (256 ^ nat \<bar>v\<bar>)" by (simp only: of_nat_less_iff)
  then have "\<bar>v\<bar> < 256 ^ nat \<bar>v\<bar>" by simp
  then show ?thesis by (simp add: toy_be_def be_val_le_digits)
qed

lemma toy_point_last [simp]: "0 \<le> p \<Longrightarrow> p < 7 \<Longrightarrow> uint (last (toy_point n p)) = p"
  by (simp add: toy_point_def uint_word_of_int)

lemma toy_point_length [simp]: "length (toy_point n p) = Suc n"
  by (simp add: toy_point_def)

lemma toy_bigint: "bigint_ok toy_blst"
  by (simp add: bigint_ok_def toy_blst_def toy_be_val) (simp add: toy_be_def)

lemma toy_field: "field_ok toy_blst"
proof -
  have "a * (a ^ 5 mod 7) mod 7 = 1" if "0 \<le> a" "a < 7" "a \<noteq> 0" for a :: int
  proof -
    from that have "a = 1 \<or> a = 2 \<or> a = 3 \<or> a = 4 \<or> a = 5 \<or> a = 6" by arith
    then show ?thesis by (elim disjE) simp_all
  qed
  moreover have "v mod 6 + 1 < (7 :: int)" for v using pos_mod_bound [of 6 v] by linarith
  moreover have "0 \<le> v mod 6 + (1 :: int)" for v by (simp add: add_nonneg_nonneg)
  ultimately show ?thesis by (simp add: field_ok_def is_scalar_def toy_blst_def toy_le_mod_val)
qed

lemma toy_group1: "group1_ok toy_blst"
  by (simp add: group1_ok_def is_scalar_def toy_blst_def mod_simps algebra_simps)

lemma toy_group2: "group2_ok toy_blst"
  by (simp add: group2_ok_def is_scalar_def toy_blst_def mod_simps algebra_simps)

lemma toy_keys: "keys_ok toy_blst"
  by (simp add: keys_ok_def valid_sk_def toy_blst_def)


lemmas toy_laws = toy_bigint toy_field toy_group1 toy_group2 toy_keys

text \<open>A key of the value 3, its polynomial \<open>3 + x\<close>, and its shares for the operators 1, 2, 3.\<close>

definition toy_sk :: WrapSecretKey where "toy_sk = replicate 31 0 @ [3]"

definition toy_sample :: sampler where "toy_sample n m = (if n = 2 then [0, 1] else [])"

definition toy_share :: "byte \<Rightarrow> WrapKeypair" where
  "toy_share v = \<lparr>kp_pk = toy_point 47 (uint v), kp_sk = replicate 31 0 @ [v]\<rparr>"

lemma toy_split:
  "key_split_with_poly toy_blst 2 toy_sample toy_sk [1, 2, 3] =
    Ok ([(1, toy_share 4), (2, toy_share 5), (3, toy_share 6)], \<lparr>coeffs = [3, 1]\<rparr>)"
  by code_simp

section \<open>Properties\<close>

text \<open>Horner's rule in \<open>Polynomial::eval\<close> computes the sum of the coefficients times the powers.\<close>

theorem Polynomial_eval_sum:
  "Polynomial_eval p x = (\<Sum>i<length (coeffs p). coeffs p ! i * x ^ i)"
  by (simp add: Polynomial_eval_polyval polyval_sum)

lemma share_polyD:
  assumes "bigint_ok L" "share_poly L t sample key = Ok poly" "length (sample t (MODULUS L)) = t"
  shows "0 < t" "length (coeffs poly) = t" "polyval (coeffs poly) 0 = be_val key"
  using assms by (auto simp: share_poly_def bigint_ok_def split: list.splits)

lemma valid_share_signature:
  assumes "bigint_ok L" "field_ok L" "keys_ok L" "all_shares L poly kps"
    and "map_of kps i = Some kp" "sig_verify L s (kp_pk kp) msg"
  shows "s = p2_compress L (p2_mult L (hash_to_g2 L msg) (polyval (coeffs poly) (uint i) mod MODULUS L) 255)"
proof -
  have "share_keypair L poly i = Ok kp" using assms(4,5) by (simp add: all_shares_def)
  note sh = share_keypair_Ok [OF assms(1-3) this]
  have "s = sk_sign L (kp_sk kp) msg" using assms(6) keys_ok_sign(3) [OF assms(3) sh(1)]
    unfolding sh(2) by simp
  then show ?thesis using keys_ok_sign(2) [OF assms(3) sh(1)] sh(3) by simp
qed

text \<open>When the key of a validator has been split among operators, \<open>threshold_aggregate\<close> on any list
  of signature shares, invalid and repeated ones included, returns the validator's own signature as
  soon as the shares of a threshold of different operators verify, and otherwise reports how many did.
\<close>

theorem threshold_aggregate_recovers:
  assumes lib: "bigint_ok L" "field_ok L" "group2_ok L" "keys_ok L"
    and key: "valid_sk L key" and rng: "length (sample t (MODULUS L)) = t"
    and split: "key_split_with_poly L t sample key operators = Ok (kps, poly)"
    and len: "length sigs = length ids" "t \<le> length sigs"
    and pks: "list_all2 (\<lambda>i k. map_option kp_pk (map_of kps i) = Some k \<and> uint i < MODULUS L) ids pks"
    and self: "agg_threshold self = t"
  shows "threshold_aggregate L self sigs pks ids msg =
    (let n = card (valid_ids L msg (zip sigs (zip pks ids))) in
     if n < t then Err (InsufficientValidSignatures n t) else Ok (sk_sign L key msg))"
proof -
  let ?ts = "zip sigs (zip pks ids)" and ?r = "MODULUS L"
  let ?enc = "\<lambda>i. p2_compress L (p2_mult L (hash_to_g2 L msg) (polyval (coeffs poly) (uint i) mod ?r) 255)"
  let ?P = "\<lambda>s i. s = ?enc i \<and> is_scalar L (uint i)"
  obtain sp: "share_poly L t sample key = Ok poly" and loop: "split_loop L poly operators [] = Ok kps"
    using split by (auto simp: key_split_with_poly_def bindO_Ok_iff)
  note poly = share_polyD [OF lib(1) sp rng]
  have sh: "all_shares L poly kps" "dom (map_of kps) = set operators" "0 \<notin> set operators"
    using split_loop_shares [OF loop] by (simp_all add: all_shares_def)
  have "i \<noteq> 0 \<and> (sig_verify L s k msg \<longrightarrow> ?P s i)" if "(s, k, i) \<in> set ?ts" for s k i
  proof -
    have "(i, k) \<in> set (zip ids pks)" using that
      by (metis in_set_zip fst_conv snd_conv set_zip_rightD zip_commute)
    then have k: "map_option kp_pk (map_of kps i) = Some k" "uint i < ?r"
      using pks by (auto simp: list_all2_iff)
    then obtain kp where kp: "map_of kps i = Some kp" "k = kp_pk kp" by auto
    then have "i \<noteq> 0" using sh(2,3) by auto
    then show ?thesis using valid_share_signature [OF lib(1,2,4) sh(1) kp(1)] kp(2) k(2)
      by (simp add: is_scalar_def)
  qed
  then have "list_all (\<lambda>(s, k, i). i \<noteq> 0 \<and> (sig_verify L s k msg \<longrightarrow> ?P s i)) ?ts"
    by (auto simp: list_all_iff)
  from collect_valid_spec [OF this, of "[]" "[]" t] poly(1)
  obtain sv iv where c: "collect_valid L t msg ?ts [] [] = Ok (sv, iv)" "shares_ok ?P sv iv"
    "length iv = min t (card (valid_ids L msg ?ts))" by (auto simp: shares_ok_def)
  have "sv = map ?enc iv" "list_all (\<lambda>x. is_scalar L (uint x)) iv" "distinct iv"
    using c(2) by (auto simp: shares_ok_def list_all2_conv_all_nth list_all_length intro: nth_equalityI)
  then have "unsafe_aggregate L self sv iv = Ok (sk_sign L key msg)" if "length iv = t"
    using unsafe_aggregate_shares [of L "hash_to_g2 L msg" iv "coeffs poly" self] lib poly self that key
    by (simp add: keys_ok_sign(2) group2_ok_def valid_sk_def)
  then show ?thesis using c len self pks
    by (auto simp: threshold_aggregate_def list_all2_iff Let_def min_def)
qed

theorem threshold_aggregate_recovers_witness:
  "threshold_aggregate toy_blst \<lparr>agg_point = 0, agg_threshold = 2\<rparr>
    [[], sk_sign toy_blst (kp_sk (toy_share 5)) [1], sk_sign toy_blst (kp_sk (toy_share 5)) [1],
      sk_sign toy_blst (kp_sk (toy_share 6)) [1]]
    [kp_pk (toy_share 4), kp_pk (toy_share 5), kp_pk (toy_share 5), kp_pk (toy_share 6)]
    [1, 2, 2, 3] [1] = Ok (sk_sign toy_blst toy_sk [1])"
proof -
  have "card (valid_ids toy_blst [1] (zip [[], sk_sign toy_blst (kp_sk (toy_share 5)) [1],
      sk_sign toy_blst (kp_sk (toy_share 5)) [1], sk_sign toy_blst (kp_sk (toy_share 6)) [1]]
    (zip [kp_pk (toy_share 4), kp_pk (toy_share 5), kp_pk (toy_share 5), kp_pk (toy_share 6)]
      [1, 2, 2, 3]))) = 2"
    by (simp add: valid_ids_Cons toy_blst_def toy_share_def toy_point_def be_val_append)
      (simp add: valid_ids_def)
  then show ?thesis
    by (subst threshold_aggregate_recovers [OF toy_laws(1,2,4,5) _ _ toy_split])
      (simp_all add: Let_def valid_sk_def toy_sk_def toy_sample_def toy_blst_def be_val_append)
qed

lemma commitment_value:
  assumes lib: "bigint_ok L" "field_ok L" "group1_ok L" and g: "p1_in_g1 L g" and x: "is_scalar L x"
    and p: "coeffs p \<noteq> []" "list_all (is_scalar L) (coeffs p)"
  shows "CommittedPoly_eval L (Polynomial_commit L p g) x =
    Ok (blst_p1_mult L g (bigint_to_blst_scalar L (Polynomial_eval p x)))"
proof -
  obtain c cs where cs: "coeffs p = c # cs" using p(1) by (cases "coeffs p") auto
  have sc: "is_scalar L c" "list_all (is_scalar L) cs" using p(2) by (simp_all add: cs)
  have cm: "commitments (Polynomial_commit L p g) = p1_mult L g c 255 # map (\<lambda>c. p1_mult L g c 255) cs"
    by (subst commit_commitments [OF lib(1,2) p(2)]) (simp add: cs)
  have ev: "Polynomial_eval p x = c + x * polyval cs x" by (simp add: Polynomial_eval_polyval cs)
  have "0 \<le> polyval cs x" using sc(2) x
    by (induction cs) (simp_all add: is_scalar_def)
  then have "0 \<le> Polynomial_eval p x" using sc(1) x by (simp add: ev is_scalar_def)
  then have "bigint_to_blst_scalar L (Polynomial_eval p x) = Polynomial_eval p x mod MODULUS L"
    using lib(1,2) by (simp add: bigint_to_blst_scalar_def field_ok_def bigint_ok_def)
  then show ?thesis
    using committed_fold [OF lib(2,3) g x sc(1) x sc(2)]
    by (simp add: CommittedPoly_eval_def cm ev blst_p1_mult_def)
qed



lemma from_bytes_loop_encoded:
  assumes "group1_ok L" "list_all (p1_in_g1 L) ps"
  shows "from_bytes_loop L (length ps) (concat (map (p1_compress L) ps) @ rest) = Ok ps"
  using assms(2)
proof (induction ps)
  case (Cons q ps)
  have "length (p1_compress L q) = 48" "p1_uncompress L (p1_compress L q) = q"
    using assms(1) Cons.prems by (simp_all add: group1_ok_def)
  then show ?case using Cons by (simp add: PUBLIC_KEY_BYTES_LEN_def)
qed simp

text \<open>Commitments that a party serialises are read back unchanged by its peer, and take the announced
  number of bytes.
\<close>

theorem committed_poly_roundtrip:
  assumes "group1_ok L" "list_all (p1_in_g1 L) (commitments cp)" "length (commitments cp) < 2 ^ 32"
  shows "CommittedPoly_from_bytes L (CommittedPoly_to_bytes L cp) = Ok \<lparr>commitments = commitments cp\<rparr> \<and>
    length (CommittedPoly_to_bytes L cp) = bytes_len cp"
proof
  let ?n = "length (commitments cp)"
  have "be_val (rev (le_digits 4 (int ?n))) = int ?n mod 256 ^ 4" by (rule be_val_le_digits) simp
  moreover have "int ?n < 256 ^ 4" using assms(3) by simp
  ultimately have "be_val (rev (le_digits 4 (int ?n))) = int ?n" by simp
  then show "CommittedPoly_from_bytes L (CommittedPoly_to_bytes L cp) = Ok \<lparr>commitments = commitments cp\<rparr>"
    using from_bytes_loop_encoded [OF assms(1,2), of "[]"]
    by (simp add: CommittedPoly_from_bytes_def CommittedPoly_to_bytes_def)
  have "length (concat (map (p1_compress L) ps)) = 48 * length ps" if "list_all (p1_in_g1 L) ps" for ps
    using that assms(1) by (induction ps) (simp_all add: group1_ok_def)
  then show "length (CommittedPoly_to_bytes L cp) = bytes_len cp"
    using assms(2) by (simp add: CommittedPoly_to_bytes_def bytes_len_def PUBLIC_KEY_BYTES_LEN_def)
qed

theorem committed_poly_roundtrip_witness:
  "CommittedPoly_from_bytes toy_blst (CommittedPoly_to_bytes toy_blst \<lparr>commitments = [3, 5]\<rparr>) =
      Ok \<lparr>commitments = [3, 5]\<rparr> \<and>
    length (CommittedPoly_to_bytes toy_blst \<lparr>commitments = [3, 5]\<rparr>) = bytes_len \<lparr>commitments = [3, 5 :: int]\<rparr>"
  using committed_poly_roundtrip [OF toy_group1, of "\<lparr>commitments = [3, 5]\<rparr>"]
  by (simp add: toy_blst_def)

end
