(* ===== verification/DkgProps.thy ===== *)
theory DkgProps
  imports Dkg ThresholdProps
begin

text \<open>
  Properties of the channels and of the key generation, with concrete libraries on which their
  hypotheses hold.
\<close>

section \<open>What the channel libraries document\<close>

definition cipher_ok :: "'p1 chan_lib \<Rightarrow> bool" where
  "cipher_ok A \<longleftrightarrow>
    (\<forall>b. \<exists>d. hex_decode A (sha256_digest A b) = Inr d \<and> length d = 32) \<and>
    (\<forall>k n m. length k = 16 \<longrightarrow> length n = 12 \<longrightarrow>
      (\<exists>c. aes_encrypt A k n m = Inr c \<and> aes_decrypt A k n c = Inr m))"

text \<open>The second generator has prime order: different scalars give different multiples.\<close>

definition generates :: "('p1, 'p2) blst_lib \<Rightarrow> 'p1 \<Rightarrow> bool" where
  "generates L h \<longleftrightarrow> p1_in_g1 L h \<and>
    (\<forall>a b. is_scalar L a \<longrightarrow> is_scalar L b \<longrightarrow> p1_mult L h a 255 = p1_mult L h b 255 \<longrightarrow> a = b)"

definition toy_chan :: "int chan_lib" where
  "toy_chan = \<lparr>
    sha256_digest = (\<lambda>b. ''''),
    hex_decode = (\<lambda>s. Inr (replicate 32 7)),
    aes_encrypt = (\<lambda>k n m. Inr (m @ n)),
    aes_decrypt = (\<lambda>k n c. if drop (length c - length n) c = n then Inr (take (length c - length n) c) else Inl 0),
    core_sk_from_bytes = Inr,
    core_sign = (\<lambda>k m. toy_point 95 (be_val k mod 7)),
    p1_serialize = toy_point 95,
    core_pk_deserialize = Inr,
    core_verify = (\<lambda>s m k. s = k),
    bincode_u64 = (\<lambda>b. if length b = 8 then Inr (of_le_bytes b) else Inl 0)\<rparr>"

lemma toy_cipher: "cipher_ok toy_chan"
  by (simp add: cipher_ok_def toy_chan_def)

section \<open>Channels\<close>

lemma decrypt_encrypt:
  assumes "cipher_ok A" "length nonce = 12"
  obtains enc where "encrypt_with_key A nonce msg key = Ok enc" "decrypt_with_key A enc key = Ok msg"
proof -
  obtain d where d: "hex_decode A (sha256_digest A key) = Inr d" "length d = 32"
    using assms(1) unfolding cipher_ok_def by blast
  then have k: "cipher_key A key = Ok (take 16 d)" by (simp add: cipher_key_def unwrap_sum_def)
  have "length (take 16 d) = 16" using d by simp
  then obtain c where "aes_encrypt A (take 16 d) nonce msg = Inr c" "aes_decrypt A (take 16 d) nonce c = Inr msg"
    using assms unfolding cipher_ok_def by blast
  then show ?thesis using that [of "nonce @ c"] assms(2)
    by (simp add: encrypt_with_key_def decrypt_with_key_def k unwrap_sum_def)
qed

lemma shared_secret_agrees:
  assumes "group1_ok L" "is_scalar L a" "is_scalar L b"
  shows "shared_secret L \<lparr>ch_peer = i, ch_sk = a, ch_other_pk = blst_sk_to_pk L b\<rparr> =
    shared_secret L \<lparr>ch_peer = j, ch_sk = b, ch_other_pk = blst_sk_to_pk L a\<rparr>"
  using assms
  by (simp add: shared_secret_def blst_ecdh_shared_secret_def blst_p1_mult_def blst_sk_to_pk_def
      group1_ok_def mult.commute)

text \<open>C30: what a party sends on a secure channel is what its peer receives: the two ends derive the same
  key from their own secret and the other's public key.
\<close>

theorem secure_channel_roundtrip:
  assumes "group1_ok L" "cipher_ok A" "is_scalar L a" "is_scalar L b"
    and "12 \<le> length (entropy n (drawn n))"
    and "map_of (inbox m) i = Some (map snd (sent (snd (channel_send L A
      \<lparr>ch_peer = j, ch_sk = a, ch_other_pk = blst_sk_to_pk L b\<rparr> msg (n\<lparr>sent := []\<rparr>)))) @ rest)"
  shows "\<exists>m'. channel_recv L A \<lparr>ch_peer = i, ch_sk = b, ch_other_pk = blst_sk_to_pk L a\<rparr> m = (Ok msg, m') \<and>
    map_of (inbox m') i = Some rest"
proof -
  let ?key = "blst_p1_to_bytes L (shared_secret L \<lparr>ch_peer = j, ch_sk = a, ch_other_pk = blst_sk_to_pk L b\<rparr>)"
  have "length (take 12 (entropy n (drawn n))) = 12" using assms(5) by simp
  then obtain enc where e: "encrypt_with_key A (take 12 (entropy n (drawn n))) msg ?key = Ok enc"
    "decrypt_with_key A enc ?key = Ok msg" using decrypt_encrypt [OF assms(2)] by metis
  have "map_of (inbox m) i = Some (enc # rest)"
    using assms(6) by (simp add: channel_send_def channel_encrypt_def draw_def bindM_def liftO_def
        e(1) net_send_def modM_def)
  then show ?thesis using e(2)
    by (simp add: channel_recv_def net_recv_def bindM_def liftO_def channel_decrypt_def update_conv
        shared_secret_agrees [OF assms(1,4,3), of i j])
qed

definition toy_net :: "(u64 \<times> bytes list) list \<Rightarrow> dkg_net" where
  "toy_net ib = \<lparr>inbox = ib, sent = [], entropy = (\<lambda>_. replicate 32 9), drawn = 0\<rparr>"

theorem secure_channel_roundtrip_witness:
  "\<exists>m'. channel_recv toy_blst toy_chan \<lparr>ch_peer = 1, ch_sk = 5, ch_other_pk = blst_sk_to_pk toy_blst 4\<rparr>
      (toy_net [(1, [replicate 12 9 @ [1, 2, 3] @ replicate 12 9, [0]])]) = (Ok [1, 2, 3], m') \<and>
    map_of (inbox m') 1 = Some [[0]]"
proof -
  have s: "map snd (sent (snd (channel_send toy_blst toy_chan
      \<lparr>ch_peer = 2, ch_sk = 4, ch_other_pk = blst_sk_to_pk toy_blst 5\<rparr> [1, 2, 3] ((toy_net [])\<lparr>sent := []\<rparr>)))) =
    [replicate 12 9 @ [1, 2, 3] @ replicate 12 9]" by code_simp
  show ?thesis
    by (rule secure_channel_roundtrip [OF toy_group1 toy_cipher, of 4 5 "toy_net []" _ _ 2])
      (simp_all only: s, simp_all add: toy_net_def is_scalar_def toy_blst_def)
qed

section \<open>Verification of shares\<close>


lemma toy_third:
  assumes "is_scalar toy_blst a"
  shows "5 * (3 * a mod 7) mod 7 = a"
proof -
  have "0 \<le> a" "a < 7" using assms by (simp_all add: is_scalar_def toy_blst_def)
  then have "a = 0 \<or> a = 1 \<or> a = 2 \<or> a = 3 \<or> a = 4 \<or> a = 5 \<or> a = 6" by arith
  then show ?thesis by (elim disjE) simp_all
qed

lemma toy_generates: "generates toy_blst 3"
  unfolding generates_def
proof (intro conjI allI impI)
  show "p1_in_g1 toy_blst 3" by (simp add: toy_blst_def)
  fix a b assume sc: "is_scalar toy_blst a" "is_scalar toy_blst b"
    and "p1_mult toy_blst 3 a 255 = p1_mult toy_blst 3 b 255"
  then have eq: "3 * a mod 7 = 3 * b mod 7" by (simp add: toy_blst_def)
  show "a = b" using toy_third [OF sc(1)] toy_third [OF sc(2)] unfolding eq by (rule trans [OF sym])
qed


text \<open>
  The check does not look at the number of commitments: a dealer that uses a polynomial with more
  coefficients than the threshold passes it.
\<close>

lemma verify_share_any_degree:
  assumes "bigint_ok L" "field_ok L" "group1_ok L" "generates L h"
    and "coeffs p \<noteq> []" "list_all (is_scalar L) (coeffs p)" "is_scalar L (uint party)"
  shows "verify_share L h (Polynomial_commit L p h) party
    (bigint_to_blst_scalar L (Polynomial_eval p (uint party))) = Ok True"
  using commitment_value [OF assms(1-3) _ assms(7,5,6)] assms(4)
  by (simp add: verify_share_def u64_to_blst_scalar_def generates_def)

section \<open>Proofs of equal discrete logarithms\<close>

lemma response_point:
  assumes F: "field_ok L" and G: "group1_ok L" "p1_in_g1 L x"
    and sc: "is_scalar L w" "is_scalar L alpha" "is_scalar L c"
  shows "p1_add L (p1_mult L x ((w - alpha * c mod MODULUS L) mod MODULUS L) 255)
    (p1_mult L (p1_mult L x alpha 255) c 255) = p1_mult L x w 255"
proof -
  let ?r = "MODULUS L"
  have "p1_mult L (p1_mult L x alpha 255) c 255 = p1_mult L x (alpha * c mod ?r) 255"
    by (rule p1_exponents(2) [OF G sc(2,3)])
  then have "p1_add L (p1_mult L x ((w - alpha * c mod ?r) mod ?r) 255)
      (p1_mult L (p1_mult L x alpha 255) c 255) =
    p1_mult L x (((w - alpha * c mod ?r) mod ?r + alpha * c mod ?r) mod ?r) 255"
    using p1_exponents(1) [OF G] by (simp add: F)
  also have "((w - alpha * c mod ?r) mod ?r + alpha * c mod ?r) mod ?r = w mod ?r"
    by (simp add: mod_simps)
  also have "w mod ?r = w" using sc(1) by (simp add: is_scalar_def)
  finally show ?thesis .
qed

text \<open>A proof that \<open>dleq_prove\<close> returns is accepted by \<open>dleq_verify\<close>.\<close>

theorem dleq_complete:
  assumes F: "field_ok L" and G: "group1_ok L" and x: "p1_in_g1 L x1" "p1_in_g1 L x2"
    and alpha: "is_scalar L alpha" and pr: "dleq_prove L ikm x1 y1 x2 y2 alpha = Ok p"
  shows "dleq_verify L x1 y1 x2 y2 p"
proof -
  let ?w = "random_blst_scalar L ikm"
  let ?c = "hash_points_to_blst_scalar L [x1, y1, x2, y2, blst_p1_mult L x1 ?w, blst_p1_mult L x2 ?w]"
  have y: "y1 = p1_mult L x1 alpha 255" "y2 = p1_mult L x2 alpha 255"
    and p: "p = \<lparr>proof_c = ?c, proof_r = blst_scalar_sub L ?w (blst_scalar_mult L alpha ?c)\<rparr>"
    using pr by (auto simp: dleq_prove_def Let_def blst_p1_mult_def split: if_splits)
  have w: "is_scalar L ?w" using F by (simp add: random_blst_scalar_def field_ok_def)
  have c: "is_scalar L ?c" using F by (simp add: hash_points_to_blst_scalar_def bytes_to_blst_scalar_def
        field_ok_def is_scalar_def Let_def)
  have r: "proof_r p = (?w - alpha * ?c mod MODULUS L) mod MODULUS L"
    using scalar_ops [OF F] w c alpha by (simp add: p blst_scalar_sub_def blst_scalar_mult_def F)
  have "blst_p1_add L (blst_p1_mult L x1 (proof_r p)) (blst_p1_mult L y1 ?c) = blst_p1_mult L x1 ?w"
    "blst_p1_add L (blst_p1_mult L x2 (proof_r p)) (blst_p1_mult L y2 ?c) = blst_p1_mult L x2 ?w"
    unfolding r y blst_p1_add_def blst_p1_mult_def
    using response_point [OF F G x(1) w alpha c] response_point [OF F G x(2) w alpha c]
    by (simp_all add: y blst_p1_mult_def)
  moreover have "proof_c p = ?c" by (simp add: p)
  ultimately show ?thesis by (simp only: dleq_verify_def Let_def)
qed

theorem dleq_complete_witness:
  "\<exists>p. dleq_prove toy_blst [5] 1 4 3 5 4 = Ok p \<and> dleq_verify toy_blst 1 4 3 5 p"
proof -
  obtain p where p: "dleq_prove toy_blst [5] 1 4 3 5 4 = Ok p"
    by (cases "dleq_prove toy_blst [5] 1 4 3 5 4")
      (simp_all add: dleq_prove_def blst_p1_mult_def toy_blst_def Let_def)
  have "dleq_verify toy_blst 1 4 3 5 p"
    by (rule dleq_complete [OF toy_field toy_group1 _ _ _ p]) (simp_all add: toy_blst_def is_scalar_def)
  with p show ?thesis by blast
qed

section \<open>Disputes\<close>

text \<open>C29: a dispute claim is not bound to the commitments the accused sent.  From any share that the
  accused signed, whether it is correct or not, the accuser can make one claim that every party of the
  key generation that judges it finds valid.  The judges are the parties other than the accuser and the
  accused; they all have the same two channel keys of these two, the signature on the share verifies
  on their channel to the accused, and the accuser reveals the key of its own channel with its proof.
\<close>

theorem dispute_claim_frames_dealer:
  fixes L :: "('p1, 'p2) blst_lib" and P Q :: 'p1
  assumes judges: "\<forall>(party, io) \<in> set judges. \<exists>channel_j channel_i.
      self_channel (DKGMalicious_new L party io t) (issue_party claim) = Ok channel_j \<and> ch_other_pk channel_j = pk_j \<and>
      self_channel (DKGMalicious_new L party io t) (corrupted_party claim) = Ok channel_i \<and> ch_other_pk channel_i = pk_i \<and>
      verify_partner A channel_i (claim_enc_share claim) (claim_sig claim) = Ok True"
    and "core_from_bytes L (claim_sig claim) = Inr sg"
    and "dleq_verify L (fixed_p1_generator L) pk_j pk_i (bytes_to_blst_p1 L (claim_key claim)) (claim_proof claim)"
    and "decrypt_with_key A (claim_enc_share claim)
      (blst_p1_to_bytes L (bytes_to_blst_p1 L (claim_key claim))) = Ok share"
    and "P \<noteq> Q"
  shows "\<exists>cp. \<forall>(party, io) \<in> set judges.
    verify_dispute_claim L A (DKGMalicious_new L party io t) (claim\<lparr>claim_poly := cp\<rparr>) = Ok True"
proof -
  obtain R where "R \<noteq> blst_p1_mult L (another_p1_generator L) (bytes_to_blst_scalar L share)" using assms(5) by metis
  then have "verify_share L (another_p1_generator L) \<lparr>commitments = [R]\<rparr> (issue_party claim) (bytes_to_blst_scalar L share) =
    Ok False" by (simp add: verify_share_def CommittedPoly_eval_def)
  then have "verify_dispute_claim L A (DKGMalicious_new L party io t) (claim\<lparr>claim_poly := \<lparr>commitments = [R]\<rparr>\<rparr>) = Ok True"
    if "(party, io) \<in> set judges" for party io
    using bspec [OF judges that] assms(2-4)
    by (auto simp: verify_dispute_claim_def unwrap_sum_def Let_def DKGMalicious_new_def)
  then show ?thesis by auto
qed

text \<open>
  Four parties 1, 2, 3, 4 with the channel keys 4, 5, 6, 2.  Party 2 accuses party 1, whose share for
  it is the correct one, before parties 3 and 4.
\<close>

definition toy_io :: "u64 \<Rightarrow> blst_scalar \<Rightarrow> (u64 \<times> blst_scalar) list \<Rightarrow> int SecureNetIOChannel IOCommittee" where
  "toy_io party key peers = \<lparr>io_party = party, io_ids = [1, 2, 3, 4],
    io_channels = map (\<lambda>(i, k). (i, \<lparr>ch_peer = i, ch_sk = key, ch_other_pk = blst_sk_to_pk toy_blst k\<rparr>)) peers\<rparr>"

definition toy_dkg :: "u64 \<Rightarrow> blst_scalar \<Rightarrow> (u64 \<times> blst_scalar) list \<Rightarrow> int DKGMalicious" where
  "toy_dkg party key peers = DKGMalicious_new toy_blst party (toy_io party key peers) 2"

definition toy_enc :: bytes where
  "toy_enc = replicate 12 9 @ rev (replicate 31 0 @ [5]) @ replicate 12 9"

definition toy_claim :: "int DisputeClaim" where
  "toy_claim = \<lparr>issue_party = 2, corrupted_party = 1, claim_enc_share = toy_enc,
    claim_key = toy_point 47 6, claim_sig = toy_point 95 4,
    claim_poly = Polynomial_commit toy_blst \<lparr>coeffs = [3, 1]\<rparr> 3,
    claim_proof = (case dleq_prove toy_blst [5] 1 5 4 6 5 of Ok p \<Rightarrow> p)\<rparr>"

lemma toy_claim_honest:
  "verify_dispute_claim toy_blst toy_chan (toy_dkg 3 6 [(1, 4), (2, 5)]) toy_claim = Ok False"
  by code_simp

theorem dispute_claim_frames_dealer_witness:
  "\<exists>cp. verify_dispute_claim toy_blst toy_chan (toy_dkg 3 6 [(1, 4), (2, 5), (4, 2)]) (toy_claim\<lparr>claim_poly := cp\<rparr>) = Ok True \<and>
    verify_dispute_claim toy_blst toy_chan (toy_dkg 4 2 [(1, 4), (2, 5), (3, 6)]) (toy_claim\<lparr>claim_poly := cp\<rparr>) = Ok True"
proof -
  let ?judges = "[(3, toy_io 3 6 [(1, 4), (2, 5), (4, 2)]), (4, toy_io 4 2 [(1, 4), (2, 5), (3, 6)])]"
  have c: "self_channel (toy_dkg 3 6 [(1, 4), (2, 5), (4, 2)]) (issue_party toy_claim) = Ok \<lparr>ch_peer = 2, ch_sk = 6, ch_other_pk = 5\<rparr>"
    "self_channel (toy_dkg 3 6 [(1, 4), (2, 5), (4, 2)]) (corrupted_party toy_claim) = Ok \<lparr>ch_peer = 1, ch_sk = 6, ch_other_pk = 4\<rparr>"
    "self_channel (toy_dkg 4 2 [(1, 4), (2, 5), (3, 6)]) (issue_party toy_claim) = Ok \<lparr>ch_peer = 2, ch_sk = 2, ch_other_pk = 5\<rparr>"
    "self_channel (toy_dkg 4 2 [(1, 4), (2, 5), (3, 6)]) (corrupted_party toy_claim) = Ok \<lparr>ch_peer = 1, ch_sk = 2, ch_other_pk = 4\<rparr>"
    by code_simp+
  have v: "verify_partner toy_chan \<lparr>ch_peer = 1, ch_sk = 6, ch_other_pk = 4\<rparr> (claim_enc_share toy_claim) (claim_sig toy_claim) = Ok True"
    "verify_partner toy_chan \<lparr>ch_peer = 1, ch_sk = 2, ch_other_pk = 4\<rparr> (claim_enc_share toy_claim) (claim_sig toy_claim) = Ok True"
    by code_simp+
  have "\<exists>cp. \<forall>(party, io) \<in> set ?judges.
    verify_dispute_claim toy_blst toy_chan (DKGMalicious_new toy_blst party io 2) (toy_claim\<lparr>claim_poly := cp\<rparr>) = Ok True"
  proof (rule dispute_claim_frames_dealer)
    show "core_from_bytes toy_blst (claim_sig toy_claim) = Inr 4" by code_simp
    show "dleq_verify toy_blst (fixed_p1_generator toy_blst) 5 4 (bytes_to_blst_p1 toy_blst (claim_key toy_claim))
      (claim_proof toy_claim)" by code_simp
    show "decrypt_with_key toy_chan (claim_enc_share toy_claim)
      (blst_p1_to_bytes toy_blst (bytes_to_blst_p1 toy_blst (claim_key toy_claim))) = Ok (rev (replicate 31 0 @ [5]))" by code_simp
    show "(0 :: int) \<noteq> 1" by simp
  qed (use c v in \<open>simp add: toy_dkg_def\<close>)
  then show ?thesis by (simp add: toy_dkg_def)
qed

text \<open>The accused party cannot judge a claim against itself: looking up its channel to itself ends the
  key generation with a panic, whatever the claim contains.
\<close>

theorem accused_party_panics:
  assumes "corrupted_party claim = dkg_party D"
  shows "\<exists>p. verify_dispute_claim L A D claim = Panic p"
  using assms
  by (cases "self_channel D (issue_party claim)")
    (auto simp: verify_dispute_claim_def self_channel_def io_channel_def split: if_splits option.splits)

theorem accused_party_panics_witness:
  "\<exists>p. verify_dispute_claim toy_blst toy_chan (toy_dkg 1 4 [(2, 5), (3, 6)]) toy_claim = Panic p"
  by (rule accused_party_panics) (simp add: toy_claim_def toy_dkg_def DKGMalicious_new_def)

section \<open>The keys of the group\<close>

lemma construct_group_key_sum:
  assumes "field_ok L" "list_all (\<lambda>(_, s). is_scalar L s) shares"
  shows "fst (construct_group_key L shares) = (\<Sum>(_, s)\<leftarrow>shares. s) mod MODULUS L"
proof -
  have "foldl (\<lambda>gsk (_, s). blst_scalar_add L gsk s) a shares = (a + (\<Sum>(_, s)\<leftarrow>shares. s)) mod MODULUS L"
    if "is_scalar L a" for a using assms(2) that
  proof (induction shares arbitrary: a)
    case Nil
    then show ?case by (simp add: is_scalar_def)
  next
    case (Cons x shares)
    obtain i s where x: "x = (i, s)" by force
    have "blst_scalar_add L a s = (a + s) mod MODULUS L"
      using Cons.prems scalar_ops(1) [OF assms(1)] by (simp add: x blst_scalar_add_def)
    then show ?case using Cons.IH [of "(a + s) mod MODULUS L"] Cons.prems
      by (simp add: x assms(1) mod_add_left_eq add.assoc)
  qed
  moreover have "is_scalar L 0" using field_ok_modulus [OF assms(1)] by (simp add: is_scalar_def)
  ultimately show ?thesis by (simp add: construct_group_key_def Let_def)
qed

lemma sum_polynomial:
  "list_all (\<lambda>(i, p). length (coeffs p) \<le> n) polys \<Longrightarrow>
    \<exists>cs. length cs \<le> n \<and> (\<forall>x. (\<Sum>(i, p)\<leftarrow>polys. polyval (coeffs p) x) = polyval cs x)"
proof (induction polys)
  case Nil
  then show ?case by (intro exI [of _ "[]"]) simp
next
  case (Cons ip polys)
  obtain i p where ip: "ip = (i, p)" by force
  from Cons have "polyfun n (\<lambda>x. \<Sum>(i, p)\<leftarrow>polys. polyval (coeffs p) x)" by (simp add: polyfun_def)
  moreover have "polyfun n (polyval (coeffs p))" using Cons.prems by (intro polyfun_polyval) (simp add: ip)
  ultimately have "polyfun n (\<lambda>x. polyval (coeffs p) x + (\<Sum>(i, p)\<leftarrow>polys. polyval (coeffs p) x))"
    by (intro polyfun_add)
  then show ?case by (simp add: ip polyfun_def)
qed

lemma p1s_add_multiples:
  assumes "field_ok L" "group1_ok L"
  shows "blst_p1s_add L (map (\<lambda>(i, p). blst_sk_to_pk L (f p mod MODULUS L)) polys) =
    blst_sk_to_pk L ((\<Sum>(i, p)\<leftarrow>polys. f p) mod MODULUS L)"
proof -
  let ?g = "p1_generator L"
  have g: "p1_in_g1 L ?g" and z: "p1_mult L ?g 0 255 = p1_default L"
    and pk: "sk_to_pk_in_g1 L a = p1_mult L ?g a 255" and sm: "p1s_add L Ps = foldr (p1_add L) Ps (p1_default L)"
    for a Ps using assms(2) by (simp_all add: group1_ok_def)
  have "foldr (p1_add L) (map (\<lambda>(i, p). p1_mult L ?g (f p mod MODULUS L) 255) polys) (p1_default L) =
    p1_mult L ?g ((\<Sum>(i, p)\<leftarrow>polys. f p) mod MODULUS L) 255"
  proof (induction polys)
    case Nil
    then show ?case by (simp add: z)
  next
    case (Cons ip polys)
    then show ?case using p1_exponents(1) [OF assms(2) g]
      by (cases ip) (simp add: assms(1) mod_add_eq)
  qed
  then show ?thesis by (simp add: blst_p1s_add_def blst_sk_to_pk_def sm pk case_prod_unfold)
qed

lemma sum_reduced:
  assumes r: "0 < r"
  shows "(\<Sum>(_, s)\<leftarrow>map (\<lambda>(i, p). (i, reduce (Polynomial_eval p x) r)) polys. s) mod r =
    (\<Sum>(i, p)\<leftarrow>polys. polyval (coeffs p) x) mod r"
proof (induction polys)
  case (Cons ip polys)
  obtain i p where ip: "ip = (i, p)" by force
  have "reduce (Polynomial_eval p x) r mod r = polyval (coeffs p) x mod r"
    by (simp add: reduce_mod [OF r] Polynomial_eval_polyval)
  from mod_add_cong [OF this Cons.IH] show ?case by (simp add: ip)
qed simp

text \<open>C10: the keys a key generation hands out fit together, when the dealers use polynomials of the degree
  of the scheme.  Let the polynomial of every dealer have at most as many coefficients as the threshold.
  When every party adds up the shares it got of these polynomials, any threshold of distinct parties
  that sign with their group keys produce the signature of the sum of the dealers' secrets, and the sum
  of the dealers' public keys is the public key of that secret.  Dealers that run the code satisfy the
  condition, since they draw exactly threshold coefficients; the code does not check it of the others, and
  \<open>high_degree_breaks_group_keys\<close> below shows that it cannot be dropped.
\<close>

theorem dkg_group_keys_sign:
  fixes L :: "('p1, 'p2) blst_lib" and polys :: "(u64 \<times> Polynomial) list" and js :: "u64 list"
  assumes F: "field_ok L" and G: "group1_ok L" "group2_ok L" and H: "p2_in_g2 L H"
    and deg: "list_all (\<lambda>(i, p). length (coeffs p) \<le> agg_threshold self) polys"
    and js: "list_all (\<lambda>j. is_scalar L (uint j)) js" "distinct js" "length js = agg_threshold self"
  defines "gsk \<equiv> \<lambda>j. fst (construct_group_key L
      (map (\<lambda>(i, p). (i, reduce (Polynomial_eval p (uint j)) (MODULUS L))) polys))"
    and "msk \<equiv> (\<Sum>(i, p)\<leftarrow>polys. Polynomial_eval p 0) mod MODULUS L"
  shows "unsafe_aggregate L self (map (\<lambda>j. p2_compress L (p2_mult L H (gsk j) 255)) js) js =
      Ok (p2_compress L (p2_mult L H msk 255)) \<and>
    blst_p1s_add L (map (\<lambda>(i, p). blst_sk_to_pk L (Polynomial_eval p 0 mod MODULUS L)) polys) =
      blst_sk_to_pk L msk"
proof
  let ?r = "MODULUS L"
  have r: "0 < ?r" using field_ok_modulus [OF F] by simp
  obtain cs where cs: "length cs \<le> agg_threshold self"
    "\<And>x. (\<Sum>(i, p)\<leftarrow>polys. polyval (coeffs p) x) = polyval cs x" using sum_polynomial [OF deg] by blast
  have g: "gsk j = polyval cs (uint j) mod ?r" for j
  proof -
    let ?sh = "map (\<lambda>(i, p). (i, reduce (Polynomial_eval p (uint j)) ?r)) polys"
    have "list_all (\<lambda>(_, s). is_scalar L s) ?sh"
      by (simp add: list_all_length reduce_mod [OF r] F case_prod_unfold)
    then have "gsk j = (\<Sum>(_, s)\<leftarrow>?sh. s) mod ?r" unfolding gsk_def by (rule construct_group_key_sum [OF F])
    also have "\<dots> = (\<Sum>(i, p)\<leftarrow>polys. polyval (coeffs p) (uint j)) mod ?r"
      by (rule sum_reduced [OF r])
    finally show ?thesis by (simp add: cs(2))
  qed
  have m: "msk = polyval cs 0 mod ?r"
    unfolding msk_def Polynomial_eval_polyval by (simp only: cs(2))
  show "unsafe_aggregate L self (map (\<lambda>j. p2_compress L (p2_mult L H (gsk j) 255)) js) js =
      Ok (p2_compress L (p2_mult L H msk 255))"
    unfolding g m by (rule unsafe_aggregate_shares [OF F G(2) H js(1,2)]) (simp_all only: cs(1) js(3))
  show "blst_p1s_add L (map (\<lambda>(i, p). blst_sk_to_pk L (Polynomial_eval p 0 mod ?r)) polys) =
      blst_sk_to_pk L msk"
    unfolding msk_def by (rule p1s_add_multiples [OF F G(1)])
qed

theorem dkg_group_keys_sign_witness:
  "unsafe_aggregate toy_blst \<lparr>agg_point = 0, agg_threshold = 2\<rparr>
      (map (\<lambda>j. p2_compress toy_blst (p2_mult toy_blst 2 (fst (construct_group_key toy_blst
        (map (\<lambda>(i, p). (i, reduce (Polynomial_eval p (uint j)) (MODULUS toy_blst)))
          [(1, \<lparr>coeffs = [3, 1]\<rparr>), (2, \<lparr>coeffs = [2, 5]\<rparr>)]))) 255)) [1, 3 :: u64]) [1, 3] =
    Ok (p2_compress toy_blst (p2_mult toy_blst 2
      ((\<Sum>(i, p)\<leftarrow>[(1 :: u64, \<lparr>coeffs = [3, 1]\<rparr>), (2, \<lparr>coeffs = [2, 5]\<rparr>)]. Polynomial_eval p 0) mod MODULUS toy_blst) 255))"
  by (rule conjunct1 [OF dkg_group_keys_sign [OF toy_field toy_group1 toy_group2,
      where H = 2 and self = "\<lparr>agg_point = 0, agg_threshold = 2\<rparr>" and js = "[1, 3]"
        and polys = "[(1, \<lparr>coeffs = [3, 1]\<rparr>), (2, \<lparr>coeffs = [2, 5]\<rparr>)]"]])
    (simp_all add: toy_blst_def is_scalar_def)

text \<open>One dealer of two with a third coefficient, at threshold 2: two parties with correct group keys do not
  produce the signature of the sum of the secrets.\<close>

lemma high_degree_breaks_group_keys:
  "unsafe_aggregate toy_blst \<lparr>agg_point = 0, agg_threshold = 2\<rparr>
      (map (\<lambda>j. p2_compress toy_blst (p2_mult toy_blst 2 (fst (construct_group_key toy_blst
        (map (\<lambda>(i, p). (i, reduce (Polynomial_eval p (uint j)) (MODULUS toy_blst)))
          [(1, \<lparr>coeffs = [3, 1]\<rparr>), (2, \<lparr>coeffs = [2, 5, 1]\<rparr>)]))) 255)) [1, 3 :: u64]) [1, 3] \<noteq>
    Ok (p2_compress toy_blst (p2_mult toy_blst 2 5 255))"
  by code_simp

end
