(* ===== verification/Elgamal.thy ===== *)
theory Elgamal
  imports DkgProps
begin

text \<open>
  Encryption of key shares under an operator's public key (\<open>src/crypto/elgamal.rs\<close>): an ephemeral key
  agreement on \<open>secp256k1\<close> whose hash is the key of AES-GCM.  The curve is the record \<open>secp_lib\<close>; hash
  and cipher are those of \<open>chan_lib\<close>.  The ephemeral key pair and the nonce are arguments.
\<close>

record secp_lib =
  shared_secret_point :: "bytes \<Rightarrow> bytes \<Rightarrow> bytes"
  secp_public_key :: "bytes \<Rightarrow> bytes"
  secp_pk_from_slice :: "bytes \<Rightarrow> lib_error + bytes"

record Ciphertext =
  temp_pk :: bytes
  aes_ct :: bytes

definition Ciphertext_to_bytes :: "Ciphertext \<Rightarrow> bytes" where
  "Ciphertext_to_bytes ct = temp_pk ct @ aes_ct ct"

definition Ciphertext_from_bytes :: "secp_lib \<Rightarrow> bytes \<Rightarrow> (lib_error, Ciphertext) outcome" where
  "Ciphertext_from_bytes E b =
    (if length b < 33 then Panic ''range end index 33 out of range for slice''
     else bindO (unwrap_sum (secp_pk_from_slice E (take 33 b)) unwrap_err) (\<lambda>key.
       Ok \<lparr>temp_pk = key, aes_ct = drop 33 b\<rparr>))"

definition point_key :: "'p1 chan_lib \<Rightarrow> bytes \<Rightarrow> (lib_error, bytes) outcome" where
  "point_key A point =
    bindO (unwrap_sum (hex_decode A (sha256_digest A point)) unwrap_err) (\<lambda>secret.
      if length secret < 16 then Panic ''range end index 16 out of range for slice''
      else Ok (take 16 secret))"

definition elgamal_encrypt ::
  "secp_lib \<Rightarrow> 'p1 chan_lib \<Rightarrow> bytes \<times> bytes \<Rightarrow> bytes \<Rightarrow> bytes \<Rightarrow> bytes \<Rightarrow> (lib_error, Ciphertext) outcome"
  where
  "elgamal_encrypt E A keypair nonce msg public =
    (let (other_sk, other_pk) = keypair in
     bindO (point_key A (shared_secret_point E public other_sk)) (\<lambda>key.
     bindO (of_sum (aes_encrypt A key nonce msg)) (\<lambda>ct.
     Ok \<lparr>temp_pk = other_pk, aes_ct = nonce @ ct\<rparr>)))"

definition elgamal_decrypt ::
  "secp_lib \<Rightarrow> 'p1 chan_lib \<Rightarrow> Ciphertext \<Rightarrow> bytes \<Rightarrow> (lib_error, bytes) outcome" where
  "elgamal_decrypt E A ct secret =
    bindO (point_key A (shared_secret_point E (temp_pk ct) secret)) (\<lambda>key.
    if length (aes_ct ct) < 12 then Panic ''range end index 12 out of range for slice''
    else of_sum (aes_decrypt A key (take 12 (aes_ct ct)) (drop 12 (aes_ct ct))))"

text \<open>
  What the curve library documents: both sides of a key agreement reach the same point, and a public
  key is 33 bytes that parse back.
\<close>

definition secp_ok :: "secp_lib \<Rightarrow> bool" where
  "secp_ok E \<longleftrightarrow>
    (\<forall>a b. shared_secret_point E (secp_public_key E a) b = shared_secret_point E (secp_public_key E b) a) \<and>
    (\<forall>a. length (secp_public_key E a) = 33 \<and> secp_pk_from_slice E (secp_public_key E a) = Inr (secp_public_key E a))"

lemma elgamal_inverse:
  assumes E: "secp_ok E" and A: "cipher_ok A" and nonce: "length nonce = 12"
  shows "\<exists>ct. elgamal_encrypt E A (other, secp_public_key E other) nonce msg (secp_public_key E own) = Ok ct \<and>
    bindO (Ciphertext_from_bytes E (Ciphertext_to_bytes ct)) (\<lambda>ct. elgamal_decrypt E A ct own) = Ok msg"
proof -
  let ?point = "shared_secret_point E (secp_public_key E own) other"
  obtain d where d: "hex_decode A (sha256_digest A ?point) = Inr d" "length d = 32"
    using A unfolding cipher_ok_def by blast
  then have k: "point_key A ?point = Ok (take 16 d)" by (simp add: point_key_def unwrap_sum_def)
  have "length (take 16 d) = 16" using d(2) by simp
  then obtain c where c: "aes_encrypt A (take 16 d) nonce msg = Inr c" "aes_decrypt A (take 16 d) nonce c = Inr msg"
    using A nonce unfolding cipher_ok_def by blast
  have "shared_secret_point E (secp_public_key E other) own = ?point"
    and "length (secp_public_key E other) = 33"
    and "secp_pk_from_slice E (secp_public_key E other) = Inr (secp_public_key E other)"
    using E unfolding secp_ok_def by blast+
  then show ?thesis using k c nonce
    by (simp add: elgamal_encrypt_def elgamal_decrypt_def Ciphertext_from_bytes_def
        Ciphertext_to_bytes_def of_sum_def unwrap_sum_def)
qed

text \<open>A key share encrypted for an operator, sent as bytes and parsed, decrypts to itself.\<close>

theorem elgamal_roundtrip:
  assumes "secp_ok E" "cipher_ok A" "length nonce = 12"
  shows "\<exists>ct. elgamal_encrypt E A (other, secp_public_key E other) nonce msg (secp_public_key E own) = Ok ct \<and>
    bindO (Ciphertext_from_bytes E (Ciphertext_to_bytes ct)) (\<lambda>ct. elgamal_decrypt E A ct own) = Ok msg"
  using assms by (rule elgamal_inverse)

definition toy_secp :: secp_lib where
  "toy_secp = \<lparr>shared_secret_point = (\<lambda>p k. [last p + last k]),
    secp_public_key = (\<lambda>k. replicate 32 2 @ [last k]), secp_pk_from_slice = Inr\<rparr>"

theorem elgamal_roundtrip_witness:
  "\<exists>ct. elgamal_encrypt toy_secp toy_chan ([3], secp_public_key toy_secp [3]) (replicate 12 1) [104, 105]
      (secp_public_key toy_secp [5]) = Ok ct \<and>
    bindO (Ciphertext_from_bytes toy_secp (Ciphertext_to_bytes ct)) (\<lambda>ct. elgamal_decrypt toy_secp toy_chan ct [5]) =
      Ok [104, 105]"
  by (rule elgamal_roundtrip [OF _ toy_cipher]) (simp_all add: secp_ok_def toy_secp_def add.commute)

end
