(* ===== verification/Operators.thy ===== *)
theory Operators
  imports Mempool Threshold
begin

text \<open>
  The operators of a validator as a node sees them.

  \<^item> Addresses of the services of a node (\<open>src/node/config.rs\<close>) and conversions (\<open>src/node/utils.rs\<close>).
  \<^item> Local and remote operators (\<open>src/validation/operator.rs\<close>).  The answers that a remote operator gives
    within the time allowed are an argument; time itself is not modelled.
  \<^item> The operator committee (\<open>impls/hotstuff.rs\<close>, \<open>operator_committees.rs\<close>): a table of operators, and the
    table of \<open>Notify\<close> objects on which calls of \<open>consensus\<close> wait.  Such an object is a number; a caller
    keeps the object it found, also after the table has lost it.
\<close>

section \<open>Addresses and conversions\<close>

definition invalid_addr :: SocketAddr where
  "invalid_addr = SocketAddr (V4 127 0 0 1) 0"

definition is_addr_invalid :: "SocketAddr \<Rightarrow> bool" where
  "is_addr_invalid addr = (if addr = invalid_addr then True else False)"

definition base_to_transaction_addr :: "SocketAddr \<Rightarrow> SocketAddr" where
  "base_to_transaction_addr a = (if is_addr_invalid a then a else SocketAddr (ip a) (port a + 0))"

definition base_to_mempool_addr :: "SocketAddr \<Rightarrow> SocketAddr" where
  "base_to_mempool_addr a = (if is_addr_invalid a then a else SocketAddr (ip a) (port a + 1))"

definition base_to_consensus_addr :: "SocketAddr \<Rightarrow> SocketAddr" where
  "base_to_consensus_addr a = (if is_addr_invalid a then a else SocketAddr (ip a) (port a + 2))"

definition base_to_signature_addr :: "SocketAddr \<Rightarrow> SocketAddr" where
  "base_to_signature_addr a = (if is_addr_invalid a then a else SocketAddr (ip a) (port a + 3))"

definition convert_va_pk_to_u64 :: "bytes \<Rightarrow> ('e, u64) outcome" where
  "convert_va_pk_to_u64 key =
    (if length key < 8 then Panic ''index out of bounds'' else Ok (of_le_bytes (take 8 key)))"

definition convert_address_to_withdraw_crendentials :: "bytes \<Rightarrow> bytes" where
  "convert_address_to_withdraw_crendentials a = 1 # replicate 11 0 @ take 20 a"

section \<open>Operators\<close>

record sig_codec =
  ser_sig :: "WrapSignature \<Rightarrow> bytes"
  de_sig :: "bytes \<Rightarrow> lib_error + WrapSignature"

datatype Operator =
    LocalOperator (op_validator: u64) (op_id: u64) (op_keypair: WrapKeypair) (op_base: SocketAddr)
  | RemoteOperator (op_validator: u64) (op_id: u64) (op_public_key: WrapPublicKey) (op_base: SocketAddr)

fun op_key :: "Operator \<Rightarrow> WrapPublicKey" where
  "op_key (LocalOperator v i kp a) = kp_pk kp"
| "op_key (RemoteOperator v i k a) = k"

datatype sign_answer = Answered bytes | Interrupted | TimedOut

text \<open>The tries of \<open>RemoteOperator::sign\<close>: the result, and how often the request was sent.\<close>

fun sign_tries :: "sig_codec \<Rightarrow> sign_answer list \<Rightarrow> (DvfError, WrapSignature) outcome \<times> nat" where
  "sign_tries C [] = (Err Unknown, 0)"
| "sign_tries C (a # as) = (case a of
      Answered data \<Rightarrow> (case de_sig C data of
          Inr s \<Rightarrow> (Ok s, 1)
        | Inl _ \<Rightarrow> (let (r, n) = sign_tries C as in (r, Suc n)))
    | _ \<Rightarrow> (let (r, n) = sign_tries C as in (r, Suc n)))"

definition remote_sign ::
  "mp_lib \<Rightarrow> sig_codec \<Rightarrow> u64 \<Rightarrow> SocketAddr \<Rightarrow> Hash256 \<Rightarrow> sign_answer list \<Rightarrow>
    (DvfError, WrapSignature) outcome \<times> (SocketAddr \<times> bytes) list" where
  "remote_sign M C vid base msg answers =
    (if is_addr_invalid base then (Err SocketAddrUnknown, [])
     else case (wrap_dvf M vid msg :: (DvfError, bytes) outcome) of
       Ok frame \<Rightarrow> (let (r, n) = sign_tries C (take 3 (answers @ replicate 3 TimedOut))
         in (r, replicate n (base_to_signature_addr base, frame)))
     | Panic p \<Rightarrow> (Panic p, []) | Err e \<Rightarrow> (Err e, []) | Diverge \<Rightarrow> (Diverge, []))"

fun operator_sign ::
  "('p1, 'p2) blst_lib \<Rightarrow> mp_lib \<Rightarrow> sig_codec \<Rightarrow> Operator \<Rightarrow> Hash256 \<Rightarrow> sign_answer list \<Rightarrow>
    (DvfError, WrapSignature) outcome" where
  "operator_sign L M C (LocalOperator v i kp a) msg answers = Ok (sk_sign L (kp_sk kp) msg)"
| "operator_sign L M C (RemoteOperator v i k a) msg answers = fst (remote_sign M C v a msg answers)"

fun operator_propose :: "mp_lib \<Rightarrow> Operator \<Rightarrow> Hash256 \<Rightarrow> (DvfError, (SocketAddr \<times> bytes) list) outcome" where
  "operator_propose M (LocalOperator v i kp a) msg =
    bindO (wrap_dvf M v msg) (\<lambda>frame. Ok [(base_to_transaction_addr a, frame)])"
| "operator_propose M (RemoteOperator v i k a) msg = Ok []"

section \<open>The committee\<close>

record OperatorCommitteeDefinition =
  ocd_total :: u64
  ocd_threshold :: u64
  ocd_validator_id :: u64
  ocd_validator_public_key :: WrapPublicKey
  ocd_operator_ids :: "u64 list"
  ocd_operator_public_keys :: "WrapPublicKey list"
  ocd_node_public_keys :: "PublicKey list"
  ocd_base_socket_addresses :: "SocketAddr option list"

record notify_table =
  notifications :: "(Hash256 \<times> nat) list"
  permit :: "nat \<Rightarrow> bool"
  waiting :: "nat \<Rightarrow> nat list"
  next_notify :: nat
  held :: "nat \<Rightarrow> (nat \<times> Hash256) option"
  woken :: "nat \<Rightarrow> bool"
  returned :: "nat list"

definition notify_table_new :: notify_table where
  "notify_table_new = \<lparr>notifications = [], permit = (\<lambda>_. False), waiting = (\<lambda>_. []), next_notify = 0,
    held = (\<lambda>_. None), woken = (\<lambda>_. False), returned = []\<rparr>"

record HotstuffOperatorCommittee =
  oc_validator_id :: u64
  oc_validator_public_key :: WrapPublicKey
  oc_operators :: "(u64 \<times> Operator) list"
  oc_threshold :: nat
  oc_table :: notify_table

definition OperatorCommittee_new :: "u64 \<Rightarrow> WrapPublicKey \<Rightarrow> nat \<Rightarrow> HotstuffOperatorCommittee" where
  "OperatorCommittee_new vid key t = \<lparr>oc_validator_id = vid, oc_validator_public_key = key,
    oc_operators = [], oc_threshold = t, oc_table = notify_table_new\<rparr>"

definition add_operator :: "u64 \<Rightarrow> Operator \<Rightarrow> HotstuffOperatorCommittee \<Rightarrow> HotstuffOperatorCommittee" where
  "add_operator i op c = c\<lparr>oc_operators := AList.update i op (oc_operators c)\<rparr>"

fun add_remote_operators ::
  "OperatorCommitteeDefinition \<Rightarrow> nat \<Rightarrow> nat \<Rightarrow> HotstuffOperatorCommittee \<Rightarrow>
    (DvfError, HotstuffOperatorCommittee) outcome" where
  "add_remote_operators d i 0 c = Ok c"
| "add_remote_operators d i (Suc n) c =
    (if i < length (ocd_base_socket_addresses d) \<and> i < length (ocd_operator_ids d) \<and>
        i < length (ocd_operator_public_keys d)
     then
       let addr = (case ocd_base_socket_addresses d ! i of None \<Rightarrow> invalid_addr | Some a \<Rightarrow> a);
           op = RemoteOperator (ocd_validator_id d) (ocd_operator_ids d ! i) (ocd_operator_public_keys d ! i) addr
       in add_remote_operators d (Suc i) n (add_operator (ocd_operator_ids d ! i) op c)
     else Panic ''index out of bounds'')"

definition from_definition ::
  "OperatorCommitteeDefinition \<Rightarrow> (DvfError, HotstuffOperatorCommittee) outcome" where
  "from_definition d = add_remote_operators d 0 (unat (ocd_total d))
    (OperatorCommittee_new (ocd_validator_id d) (ocd_validator_public_key d) (unat (ocd_threshold d)))"

definition sorted_ids :: "HotstuffOperatorCommittee \<Rightarrow> u64 list" where
  "sorted_ids c = sort (map fst (oc_operators c))"

definition op_get_leader :: "HotstuffOperatorCommittee \<Rightarrow> u64 \<Rightarrow> ('e, u64) outcome" where
  "op_get_leader c nonce =
    (if length (oc_operators c) = 0 then Panic ''attempt to calculate the remainder with a divisor of zero''
     else Ok (sorted_ids c ! (unat nonce mod length (oc_operators c))))"

text \<open>The task that receives the messages the consensus has committed.\<close>

definition consensus_achieved :: "Hash256 \<Rightarrow> notify_table \<Rightarrow> notify_table" where
  "consensus_achieved msg t = (case map_of (notifications t) msg of
      None \<Rightarrow> t
    | Some n \<Rightarrow> (case waiting t n of
        [] \<Rightarrow> t\<lparr>permit := (permit t)(n := True)\<rparr>
      | c # cs \<Rightarrow> t\<lparr>waiting := (waiting t)(n := cs), woken := (woken t)(c := True)\<rparr>))"

text \<open>
  \<open>consensus\<close> around the proposals: the object is found or made, then awaited; a caller that has been
  woken takes the lock again, removes the entry and returns.
\<close>

definition consensus_register :: "nat \<Rightarrow> Hash256 \<Rightarrow> notify_table \<Rightarrow> notify_table" where
  "consensus_register caller msg t = (case map_of (notifications t) msg of
      Some n \<Rightarrow> t\<lparr>held := (held t)(caller := Some (n, msg))\<rparr>
    | None \<Rightarrow> t\<lparr>notifications := AList.update msg (next_notify t) (notifications t),
        held := (held t)(caller := Some (next_notify t, msg)), next_notify := Suc (next_notify t)\<rparr>)"

definition consensus_await :: "nat \<Rightarrow> notify_table \<Rightarrow> notify_table" where
  "consensus_await caller t = (case held t caller of
      None \<Rightarrow> t
    | Some (n, _) \<Rightarrow>
        if permit t n then t\<lparr>permit := (permit t)(n := False), woken := (woken t)(caller := True)\<rparr>
        else t\<lparr>waiting := (waiting t)(n := waiting t n @ [caller])\<rparr>)"

definition consensus_finish :: "nat \<Rightarrow> notify_table \<Rightarrow> notify_table" where
  "consensus_finish caller t = (case held t caller of
      Some (_, msg) \<Rightarrow>
        if woken t caller
        then t\<lparr>notifications := AList.delete msg (notifications t), held := (held t)(caller := None),
          woken := (woken t)(caller := False), returned := returned t @ [caller]\<rparr>
        else t
    | None \<Rightarrow> t)"

datatype notify_event = Register nat Hash256 | Await nat | Finish nat | Achieved Hash256

fun notify_step :: "notify_event \<Rightarrow> notify_table \<Rightarrow> notify_table" where
  "notify_step (Register c m) t = consensus_register c m t"
| "notify_step (Await c) t = consensus_await c t"
| "notify_step (Finish c) t = consensus_finish c t"
| "notify_step (Achieved m) t = consensus_achieved m t"

definition notify_run :: "notify_event list \<Rightarrow> notify_table \<Rightarrow> notify_table" where
  "notify_run es t = fold notify_step es t"

text \<open>The proposals of \<open>consensus\<close>: one message per operator that sends any.\<close>

fun propose_all ::
  "mp_lib \<Rightarrow> (u64 \<times> Operator) list \<Rightarrow> Hash256 \<Rightarrow> (DvfError, (SocketAddr \<times> bytes) list) outcome" where
  "propose_all M [] msg = Ok []"
| "propose_all M ((_, op) # ops) msg = bindO (operator_propose M op msg) (\<lambda>fs.
    bindO (propose_all M ops msg) (\<lambda>gs. Ok (fs @ gs)))"

text \<open>
  \<open>sign\<close> after the consensus: \<open>answers\<close> gives what each remote operator answers.  An operator whose request
  cannot be serialized, on which the code panics, counts as one that does not answer.
\<close>

definition op_results ::
  "('p1, 'p2) blst_lib \<Rightarrow> mp_lib \<Rightarrow> sig_codec \<Rightarrow> (u64 \<Rightarrow> sign_answer list) \<Rightarrow> (u64 \<times> Operator) list \<Rightarrow>
    Hash256 \<Rightarrow> (u64 \<times> WrapPublicKey \<times> WrapSignature) list" where
  "op_results L M C answers ops msg = concat (map (\<lambda>(i, op). case operator_sign L M C op msg (answers i) of
      Ok s \<Rightarrow> [(i, op_key op, s)] | _ \<Rightarrow> []) ops)"

definition op_sign ::
  "('p1, 'p2) blst_lib \<Rightarrow> mp_lib \<Rightarrow> sig_codec \<Rightarrow> (u64 \<Rightarrow> sign_answer list) \<Rightarrow> HotstuffOperatorCommittee \<Rightarrow>
    Hash256 \<Rightarrow> (DvfError, WrapSignature \<times> u64 list) outcome" where
  "op_sign L M C answers c msg =
    (let results = op_results L M C answers (oc_operators c) msg;
         ids = map (\<lambda>(i, k, s). i) results; pks = map (\<lambda>(i, k, s). k) results;
         sigs = map (\<lambda>(i, k, s). s) results in
     bindO (infinity L (oc_threshold c)) (\<lambda>ts.
     bindO (threshold_aggregate L ts sigs pks ids msg) (\<lambda>sig. Ok (sig, ids))))"

section \<open>Leaders\<close>

interpretation orr: round_robin sorted_ids "op_get_leader :: HotstuffOperatorCommittee \<Rightarrow> u64 \<Rightarrow> (unit, u64) outcome"
proof
  show "op_get_leader c r = Ok (sorted_ids c ! (unat r mod length (sorted_ids c)))"
    if "sorted_ids c \<noteq> []" for c r using that by (auto simp: op_get_leader_def sorted_ids_def)
  show "\<exists>p. op_get_leader c r = Panic p" if "sorted_ids c = []" for c r
    using arg_cong [OF that, of length] by (simp add: op_get_leader_def sorted_ids_def)
qed

end
