(* ===== verification/DvfCore.thy ===== *)
theory DvfCore
  imports Operators
begin

text \<open>
  The node's side of one validator (\<open>src/node/dvfcore.rs\<close>): the handler that serves signatures to other
  operators, the signer with its two committees, and the task that reads committed blocks and reports
  the messages in them.  All of them, the mempool and the consensus share one store.
\<close>

section \<open>The signature handler\<close>

definition signature_dispatch :: "rocks_lib \<Rightarrow> (store_state, unit) dispatcher" where
  "signature_dispatch R st msg = (case store_read R msg st of
      Inr (Some data) \<Rightarrow> (Ok (), [Reply data])
    | Inr None \<Rightarrow> (Ok (), [Reply (ascii ''can't find signature, please wait'')])
    | Inl _ \<Rightarrow> (Ok (), [Reply (ascii ''can't read database, please wait'')]))"

section \<open>The signer\<close>

record DvfSigner =
  signer_operator_id :: u64
  signer_committee :: HotstuffOperatorCommittee
  signer_keypair :: WrapKeypair

definition local_sign :: "('p1, 'p2) blst_lib \<Rightarrow> DvfSigner \<Rightarrow> Hash256 \<Rightarrow> WrapSignature" where
  "local_sign L s msg = sk_sign L (kp_sk (signer_keypair s)) msg"

definition local_sign_and_store ::
  "('p1, 'p2) blst_lib \<Rightarrow> sig_codec \<Rightarrow> rocks_lib \<Rightarrow> DvfSigner \<Rightarrow> Hash256 \<Rightarrow> store_state \<Rightarrow>
    store_state \<times> reply list" where
  "local_sign_and_store L C R s msg st = store_write R msg (ser_sig C (local_sign L s msg)) st"

definition is_aggregator :: "DvfSigner \<Rightarrow> u64 \<Rightarrow> ('e, bool) outcome" where
  "is_aggregator s nonce =
    bindO (op_get_leader (signer_committee s) nonce) (\<lambda>l1.
    if l1 = signer_operator_id s then Ok True
    else bindO (op_get_leader (signer_committee s) (nonce + 1)) (\<lambda>l2. Ok (l2 = signer_operator_id s)))"

definition base_of :: "OperatorCommitteeDefinition \<Rightarrow> nat \<Rightarrow> SocketAddr" where
  "base_of d i = (case ocd_base_socket_addresses d ! i of None \<Rightarrow> invalid_addr | Some a \<Rightarrow> a)"

definition dvf_mempool_committee :: "OperatorCommitteeDefinition \<Rightarrow> MempoolCommittee" where
  "dvf_mempool_committee d = MempoolCommittee_new
    (map (\<lambda>(i, k). (k, 1, base_to_transaction_addr (base_of d i), base_to_mempool_addr (base_of d i),
      base_to_signature_addr (base_of d i))) (enumerate 0 (ocd_node_public_keys d))) 1"

definition dvf_consensus_committee :: "OperatorCommitteeDefinition \<Rightarrow> Committee" where
  "dvf_consensus_committee d = Committee_new
    (map (\<lambda>(i, k). (k, 1, base_to_consensus_addr (base_of d i)))
      (enumerate 0 (ocd_node_public_keys d))) 1"

text \<open>
  \<open>DvfSigner::spawn\<close> up to the start of the tasks: the node finds itself in the definition, replaces its
  remote operator by a local one, and builds the two committees.  \<open>opened\<close> is the result of opening the
  store.
\<close>

definition DvfSigner_spawn ::
  "PublicKey \<Rightarrow> SocketAddr \<Rightarrow> WrapKeypair \<Rightarrow> OperatorCommitteeDefinition \<Rightarrow> string + unit \<Rightarrow>
    (DvfError, DvfSigner \<times> MempoolCommittee \<times> Committee) outcome" where
  "DvfSigner_spawn name base kp d opened =
    (let operator_index = map fst (filter (\<lambda>(_, x). x = name) (enumerate 0 (ocd_node_public_keys d))) in
     if length operator_index \<noteq> 1 then Panic ''assertion failed: `(left == right)`''
     else if hd operator_index \<ge> length (ocd_operator_ids d) then Panic ''index out of bounds''
     else
       let operator_id = ocd_operator_ids d ! hd operator_index in
       bindO (from_definition d) (\<lambda>c.
       if length (ocd_base_socket_addresses d) < length (ocd_node_public_keys d) then Panic ''index out of bounds''
       else case opened of
         Inl e \<Rightarrow> Err (DvfError.StoreError (''Failed to create store: '' @ e))
       | Inr _ \<Rightarrow> Ok (\<lparr>signer_operator_id = operator_id,
             signer_committee = add_operator operator_id (LocalOperator (ocd_validator_id d) operator_id kp base) c,
             signer_keypair = kp\<rparr>,
           dvf_mempool_committee d, dvf_consensus_committee d)))"

section \<open>The core task\<close>

definition Hash256_from_slice :: "bytes \<Rightarrow> ('e, Hash256) outcome" where
  "Hash256_from_slice b = (if length b = 32 then Ok b
    else Panic ''assertion failed: `(left == right)`'')"

text \<open>
  The transactions of a batch are notified one after the other; what was sent before a panic stays
  sent.  The state is the list of notifications.
\<close>

type_synonym 'a dvf_act = "(Hash256 list, unit, 'a) act"

definition notify_transaction :: "Transaction \<Rightarrow> unit dvf_act" where
  "notify_transaction tx = bindM (liftO (Hash256_from_slice tx)) (\<lambda>msg. modM (\<lambda>sent. sent @ [msg]))"

definition dvf_payload :: "mp_lib \<Rightarrow> store_state \<Rightarrow> Digest \<Rightarrow> unit dvf_act" where
  "dvf_payload M st payload = (case store_read (rocks M) payload st of
      Inr (Some data) \<Rightarrow> bindM (liftO (unwrap_sum (de_mp M data) ''called `Result::unwrap()` on an `Err` value''))
        (\<lambda>msg. case msg of
            BatchMsg batches \<Rightarrow> forM batches notify_transaction
          | BatchRequest _ _ \<Rightarrow> retM ())
    | Inr None \<Rightarrow> retM ()
    | Inl _ \<Rightarrow> retM ())"

definition dvf_block :: "mp_lib \<Rightarrow> store_state \<Rightarrow> Block \<Rightarrow> unit dvf_act" where
  "dvf_block M st block = (if blk_payload block = [] then retM () else forM (blk_payload block) (dvf_payload M st))"

text \<open>
  \<open>run\<close>: committed blocks, each with the state of the store when it is handled, until the exit signal,
  which stops the store.
\<close>

datatype dvf_event = Committed store_state Block | ExitSignal

fun dvf_run :: "mp_lib \<Rightarrow> dvf_event list \<Rightarrow> bool dvf_act" where
  "dvf_run M [] = retM False"
| "dvf_run M (ExitSignal # es) = retM True"
| "dvf_run M (Committed st block # es) = thenM (dvf_block M st block) (dvf_run M es)"

text \<open>The tasks that \<open>DvfCore::spawn\<close> starts around the shared store.\<close>

definition DvfCore_spawn where
  "DvfCore_spawn name secret mc cc st vid txh mph csh sgh =
    (let (r, mtasks, txh1, mph1) = Mempool_spawn name mc MempoolParameters_default vid txh mph;
         (ctasks, csh1) = Consensus_spawn name cc Parameters_default secret st vid csh in
     (r, mtasks, ctasks, txh1, mph1, csh1, sgh(vid \<mapsto> st)))"

end
