(* ===== verification/OperatorProps.thy ===== *)
theory OperatorProps
  imports DvfCore ThresholdProps MempoolProps StoreProps
begin

text \<open>
  Properties of the operators of a validator, of their committee and of the core task of a node.
\<close>

section \<open>Signing by the committee\<close>

definition valid_results ::
  "('p1, 'p2) blst_lib \<Rightarrow> Hash256 \<Rightarrow> (u64 \<times> WrapPublicKey \<times> WrapSignature) list \<Rightarrow> u64 set" where
  "valid_results L msg rs = {i. \<exists>k s. (i, k, s) \<in> set rs \<and> sig_verify L s k msg}"

lemma zip_results:
  "zip (map (\<lambda>(i, k, s). s) rs) (zip (map (\<lambda>(i, k, s). k) rs) (map (\<lambda>(i, k, s). i) rs)) =
    map (\<lambda>(i, k, s). (s, k, i)) rs"
  by (induction rs) auto

lemma valid_ids_results:
  "valid_ids L msg (map (\<lambda>(i, k, s). (s, k, i)) rs) = valid_results L msg rs"
proof (rule set_eqI)
  have "(s, k, i) \<in> (\<lambda>(i, k, s). (s, k, i)) ` set rs \<longleftrightarrow> (i, k, s) \<in> set rs" for s k i
    by (auto intro: rev_image_eqI)
  then show "i \<in> valid_ids L msg (map (\<lambda>(i, k, s). (s, k, i)) rs) \<longleftrightarrow> i \<in> valid_results L msg rs" for i
    unfolding valid_ids_def valid_results_def set_map mem_Collect_eq by blast
qed

lemma op_results_member:
  assumes "(i, k, s) \<in> set (op_results L M C answers ops msg)"
  shows "\<exists>op. (i, op) \<in> set ops \<and> k = op_key op"
  using assms by (auto simp: op_results_def split: outcome.splits)

text \<open>C8: the committee of a validator whose key was split among its operators signs as the validator:
  whatever the remote operators answer, \<open>sign\<close> returns the validator's signature when the answers of a
  threshold of operators verify, and otherwise says how many signatures were missing.\<close>

theorem committee_signs_as_validator:
  fixes L :: "('p1, 'p2) blst_lib" and M :: mp_lib and C :: sig_codec and msg :: Hash256
    and answers :: "u64 \<Rightarrow> sign_answer list" and c :: HotstuffOperatorCommittee
  assumes lib: "bigint_ok L" "field_ok L" "group2_ok L" "keys_ok L"
    and vk: "valid_sk L vk" and rng: "length (sample t (MODULUS L)) = t"
    and split: "key_split_with_poly L t sample vk operators = Ok (kps, poly)"
    and ops: "\<forall>(i, op) \<in> set (oc_operators c). map_option kp_pk (map_of kps i) = Some (op_key op) \<and>
      uint i < MODULUS L"
    and t: "oc_threshold c = t"
  defines "rs \<equiv> op_results L M C answers (oc_operators c) msg"
  shows "op_sign L M C answers c msg =
    (if length rs < t then Err (InsufficientSignatures (length rs) t)
     else if card (valid_results L msg rs) < t
       then Err (InsufficientValidSignatures (card (valid_results L msg rs)) t)
     else Ok (sk_sign L vk msg, map fst rs))"
proof -
  let ?ids = "map (\<lambda>(i, k, s). i) rs" and ?pks = "map (\<lambda>(i, k, s). k) rs" and ?sigs = "map (\<lambda>(i, k, s). s) rs"
  obtain p where "core_from_bytes L (INFINITY_SIGNATURE L) = Inr p"
    using lib(3) unfolding group2_ok_def by blast
  then obtain ts where ts: "infinity L t = Ok ts" "agg_threshold ts = t"
    by (simp add: infinity_def unwrap_sum_def)
  have ids: "?ids = map fst rs" by (simp add: case_prod_unfold)
  have "map_option kp_pk (map_of kps i) = Some k \<and> uint i < MODULUS L" if "(i, k, s) \<in> set rs" for i k s
    using op_results_member [OF that [unfolded rs_def]] ops by auto
  then have "list_all2 (\<lambda>i k. map_option kp_pk (map_of kps i) = Some k \<and> uint i < MODULUS L) ?ids ?pks"
    by (auto simp: list_all2_conv_all_nth case_prod_unfold) (metis nth_mem prod.collapse)+
  from threshold_aggregate_recovers [OF lib vk rng split _ _ this ts(2), of ?sigs msg]
  have "threshold_aggregate L ts ?sigs ?pks ?ids msg =
    (if length rs < t then Err (InsufficientSignatures (length rs) t)
     else if card (valid_results L msg rs) < t
       then Err (InsufficientValidSignatures (card (valid_results L msg rs)) t)
     else Ok (sk_sign L vk msg))"
    by (cases "length rs < t")
      (simp_all add: threshold_aggregate_def ts(2) Let_def zip_results valid_ids_results)
  then show ?thesis
    unfolding op_sign_def Let_def rs_def [symmetric] t ts(1) bindO.simps ids [symmetric] by simp
qed

text \<open>Operators 1 (local), 2 (remote, answers with its share) and 3 (remote, answers garbage).\<close>

definition id_sigs :: sig_codec where "id_sigs = \<lparr>ser_sig = (\<lambda>s. s), de_sig = Inr\<rparr>"

definition toy_committee :: HotstuffOperatorCommittee where
  "toy_committee = \<lparr>oc_validator_id = 7, oc_validator_public_key = [],
    oc_operators = [(1, LocalOperator 7 1 (toy_share 4) (addr 1)), (2, RemoteOperator 7 2 (kp_pk (toy_share 5)) (addr 2)),
      (3, RemoteOperator 7 3 (kp_pk (toy_share 6)) (addr 3))],
    oc_threshold = 2, oc_table = notify_table_new\<rparr>"

definition toy_answers :: "u64 \<Rightarrow> sign_answer list" where
  "toy_answers i = (if i = 2 then [TimedOut, Answered (sk_sign toy_blst (kp_sk (toy_share 5)) [3])] else [Answered [1]])"

theorem committee_signs_as_validator_witness:
  "op_sign toy_blst codec2 id_sigs toy_answers toy_committee [3] = Ok (sk_sign toy_blst toy_sk [3], [1, 2, 3])"
proof -
  let ?rs = "op_results toy_blst codec2 id_sigs toy_answers (oc_operators toy_committee) [3]"
  have rs: "?rs = [(1, kp_pk (toy_share 4), toy_point 95 1), (2, kp_pk (toy_share 5), toy_point 95 3),
      (3, kp_pk (toy_share 6), [1])]" by code_simp
  have "sig_verify toy_blst (toy_point 95 1) (kp_pk (toy_share 4)) [3]"
    "sig_verify toy_blst (toy_point 95 3) (kp_pk (toy_share 5)) [3]"
    "\<not> sig_verify toy_blst [1] (kp_pk (toy_share 6)) [3]" by code_simp+
  then have "valid_results toy_blst [3] ?rs = {1, 2}" unfolding rs valid_results_def by auto
  then have "card (valid_results toy_blst [3] ?rs) = 2" by simp
  moreover have "length ?rs = 3" "map fst ?rs = [1, 2, 3]" by (simp_all add: rs)
  ultimately show ?thesis
    by (subst committee_signs_as_validator [OF toy_laws(1,2,4,5) _ _ toy_split])
      (simp_all add: valid_sk_def toy_sk_def toy_sample_def toy_blst_def be_val_append toy_committee_def)
qed

section \<open>Waiting for the consensus\<close>

fun concerns :: "nat \<Rightarrow> Hash256 \<Rightarrow> notify_event \<Rightarrow> bool" where
  "concerns c m (Register d m') \<longleftrightarrow> c = d \<or> m = m'"
| "concerns c m (Await d) \<longleftrightarrow> c = d"
| "concerns c m (Finish d) \<longleftrightarrow> c = d"
| "concerns c m (Achieved m') \<longleftrightarrow> m = m'"

text \<open>The numbers of \<open>Notify\<close> objects not made yet are unused, and the caller and the message are fresh.\<close>

definition fresh_table :: "nat \<Rightarrow> Hash256 \<Rightarrow> notify_table \<Rightarrow> bool" where
  "fresh_table c m t \<longleftrightarrow> (\<forall>k n. map_of (notifications t) k = Some n \<longrightarrow> n < next_notify t) \<and>
    (\<forall>d n m'. held t d = Some (n, m') \<longrightarrow> d \<noteq> c \<and> m' \<noteq> m \<and> n < next_notify t) \<and>
    (\<forall>n. permit t n \<longrightarrow> n < next_notify t) \<and> (\<forall>n x. x \<in> set (waiting t n) \<longrightarrow> x \<noteq> c \<and> n < next_notify t) \<and>
    map_of (notifications t) m = None \<and> \<not> woken t c"

text \<open>The caller \<open>c\<close> alone holds the object \<open>n\<close>, and has registered it for \<open>m\<close>.\<close>

definition sole_caller :: "nat \<Rightarrow> Hash256 \<Rightarrow> nat \<Rightarrow> notify_table \<Rightarrow> bool" where
  "sole_caller c m n t \<longleftrightarrow> held t c = Some (n, m) \<and> n < next_notify t \<and> map_of (notifications t) m = Some n \<and>
    (\<forall>m'. map_of (notifications t) m' = Some n \<longrightarrow> m' = m) \<and>
    (\<forall>d n' m'. held t d = Some (n', m') \<longrightarrow> d \<noteq> c \<longrightarrow> n' \<noteq> n \<and> m' \<noteq> m) \<and>
    (\<forall>n' x. x \<in> set (waiting t n') \<longrightarrow> (x = c \<longleftrightarrow> n' = n))"

lemmas notify_defs = consensus_register_def consensus_await_def consensus_finish_def consensus_achieved_def

lemma fresh_step:
  assumes "fresh_table c m t" "\<not> concerns c m e"
  shows "fresh_table c m (notify_step e t)"
proof -
  have f: "\<And>k n. map_of (notifications t) k = Some n \<Longrightarrow> n < next_notify t"
    "\<And>d n m'. held t d = Some (n, m') \<Longrightarrow> d \<noteq> c \<and> m' \<noteq> m \<and> n < next_notify t"
    "\<And>n. permit t n \<Longrightarrow> n < next_notify t" "\<And>n x. x \<in> set (waiting t n) \<Longrightarrow> x \<noteq> c \<and> n < next_notify t"
    "map_of (notifications t) m = None" "\<not> woken t c" using assms(1) unfolding fresh_table_def by blast+
  have w: "x \<noteq> c \<and> c \<notin> set xs" if "waiting t n = x # xs" for n x xs
    using f(4) [of _ n] by (auto simp: that)
  show ?thesis
    using assms(2) unfolding fresh_table_def
    by (cases e) (auto simp: notify_defs update_conv' delete_conv' f(5,6) less_Suc_eq
      split: option.split list.split if_splits dest: f(1-4) w)
qed

lemma sole_step:
  assumes "sole_caller c m n t" "\<not> concerns c m e"
  shows "sole_caller c m n (notify_step e t)"
proof -
  have f: "\<And>m'. map_of (notifications t) m' = Some n \<Longrightarrow> m' = m"
    "\<And>d n' m'. held t d = Some (n', m') \<Longrightarrow> d \<noteq> c \<Longrightarrow> n' \<noteq> n \<and> m' \<noteq> m"
    "\<And>n' x. x \<in> set (waiting t n') \<Longrightarrow> (x = c) = (n' = n)"
    "held t c = Some (n, m)" "n < next_notify t" "map_of (notifications t) m = Some n"
    using assms(1) unfolding sole_caller_def by blast+
  have n: "n \<noteq> next_notify t" using f(5) by simp
  have w: "(x = c) = (n' = n) \<and> (\<forall>y \<in> set xs. (y = c) = (n' = n))" if "waiting t n' = x # xs" for n' x xs
    using f(3) [of _ n'] by (auto simp: that)
  show ?thesis
    using assms(2) unfolding sole_caller_def
    by (cases e) (auto simp: notify_defs update_conv' delete_conv' f(4-6) n less_Suc_eq
      split: option.split list.split if_splits dest: f(1-3) w)
qed

text \<open>
  The stages of a call: \<open>a\<close> says that it awaits the object, \<open>g\<close> that the message has been committed.
\<close>

definition call_stage :: "nat \<Rightarrow> Hash256 \<Rightarrow> nat \<Rightarrow> bool \<Rightarrow> bool \<Rightarrow> notify_table \<Rightarrow> bool" where
  "call_stage c m n a g t \<longleftrightarrow> sole_caller c m n t \<and>
    (if a then if g then woken t c else waiting t n \<noteq> [] \<and> \<not> permit t n else waiting t n = [] \<and> permit t n = g)"

lemma stage_other:
  assumes "sole_caller c m n t" "\<not> concerns c m e"
  shows "waiting (notify_step e t) n = waiting t n" "permit (notify_step e t) n = permit t n"
    "woken (notify_step e t) c = woken t c"
proof -
  have f: "\<And>m'. map_of (notifications t) m' = Some n \<Longrightarrow> m' = m"
    "\<And>d n' m'. held t d = Some (n', m') \<Longrightarrow> d \<noteq> c \<Longrightarrow> n' \<noteq> n"
    "\<And>n' x xs. waiting t n' = x # xs \<Longrightarrow> (x = c) = (n' = n)"
    using assms(1) unfolding sole_caller_def by auto
  show "waiting (notify_step e t) n = waiting t n" "permit (notify_step e t) n = permit t n"
    "woken (notify_step e t) c = woken t c"
    using assms(2) by (cases e; auto simp: notify_defs split: option.split list.split dest: f)+
qed

lemma stage_step:
  assumes "call_stage c m n a g t" "concerns c m e \<longrightarrow> e = Await c \<or> e = Achieved m"
  shows "call_stage c m n (a \<or> e = Await c) (g \<or> e = Achieved m) (notify_step e t)"
proof (cases "concerns c m e")
  case False
  then have "e \<noteq> Await c" "e \<noteq> Achieved m" by auto
  then show ?thesis using assms(1) False sole_step stage_other [OF _ False]
    by (auto simp: call_stage_def)
next
  case True
  have s: "sole_caller c m n t" using assms(1) by (simp add: call_stage_def)
  then have k: "held t c = Some (n, m)" "map_of (notifications t) m = Some n"
    and w: "\<And>n' x. x \<in> set (waiting t n') \<Longrightarrow> (x = c) = (n' = n)"
    unfolding sole_caller_def by blast+
  have w': "x = c \<and> set xs \<subseteq> {c}" if "waiting t n = x # xs" for x xs using w [of _ n] by (auto simp: that)
  from True assms(2) consider "e = Await c" | "e = Achieved m" by blast
  then show ?thesis
  proof cases
    case 1
    moreover from s have "sole_caller c m n (notify_step e t)"
      unfolding 1 sole_caller_def by (simp add: consensus_await_def k)
    ultimately show ?thesis using assms(1) by (auto simp: call_stage_def consensus_await_def k split: if_splits)
  next
    case 2
    moreover from s have "sole_caller c m n (notify_step e t)"
      unfolding 2 sole_caller_def by (cases "waiting t n") (auto simp: consensus_achieved_def k(2) dest: w')
    ultimately show ?thesis using assms(1)
      by (cases "waiting t n") (auto simp: call_stage_def consensus_achieved_def k split: if_splits dest: w')
  qed
qed

lemma fresh_run:
  "fresh_table c m t \<Longrightarrow> list_all (\<lambda>e. \<not> concerns c m e) es \<Longrightarrow> fresh_table c m (notify_run es t)"
  by (induction es arbitrary: t) (simp_all add: notify_run_def fresh_step)

lemma stage_run:
  assumes "call_stage c m n a g t" "\<forall>e \<in> set es. concerns c m e \<longrightarrow> e = Await c \<or> e = Achieved m"
  shows "call_stage c m n (a \<or> Await c \<in> set es) (g \<or> Achieved m \<in> set es) (notify_run es t)"
  using assms
proof (induction es arbitrary: a g t)
  case (Cons e es)
  from Cons.IH [OF stage_step [OF Cons.prems(1), of e]] Cons.prems(2)
  show ?case by (auto simp: notify_run_def disj_ac eq_commute [of e])
qed (simp add: notify_run_def)

lemma stage_register:
  assumes f: "fresh_table c m t"
  shows "call_stage c m (next_notify t) False False (consensus_register c m t)"
proof -
  from f have "\<not> permit t (next_notify t)" "x \<notin> set (waiting t (next_notify t))" "held t d \<noteq> Some (next_notify t, m')"
    "map_of (notifications t) m = None" "map_of (notifications t) m' \<noteq> Some (next_notify t)" for x d m'
    unfolding fresh_table_def by fast+
  moreover have "x \<in> set (waiting t n) \<Longrightarrow> x \<noteq> c" "held t d = Some (n, m') \<Longrightarrow> m' \<noteq> m" for x n d m'
    using f unfolding fresh_table_def by fast+
  moreover from calculation(2) have "waiting t (next_notify t) = []" by (metis list.set_intros(1) neq_Nil_conv)
  ultimately show ?thesis
    by (auto simp: call_stage_def sole_caller_def consensus_register_def update_conv')
qed

lemma returned_grows: "set (returned t) \<subseteq> set (returned (notify_run es t))"
proof (induction es arbitrary: t)
  case (Cons e es)
  have "set (returned t) \<subseteq> set (returned (notify_step e t))"
    by (cases e) (auto simp: notify_defs split: option.splits list.splits)
  with Cons.IH [of "notify_step e t"] show ?case by (simp add: notify_run_def)
qed (simp add: notify_run_def)

lemma notify_run_append: "notify_run (es @ fs) t = notify_run fs (notify_run es t)"
  by (simp add: notify_run_def)

text \<open>C33: a call of \<open>consensus\<close> returns: when no other call waits for the same message, then whatever other
  calls and notifications are interleaved, and whether the message is committed before or after the
  call starts to wait, the call returns once it has waited, the message has been committed and the
  call is scheduled again.\<close>

theorem consensus_returns:
  assumes "list_all (\<lambda>e. \<not> concerns c m e) pre"
    and "\<forall>e \<in> set es. concerns c m e \<longrightarrow> e = Await c \<or> e = Achieved m" "Await c \<in> set es" "Achieved m \<in> set es"
  shows "c \<in> set (returned (notify_run (pre @ Register c m # es @ Finish c # post) notify_table_new))"
proof -
  let ?t = "notify_run pre notify_table_new"
  have "fresh_table c m notify_table_new" by (simp add: fresh_table_def notify_table_new_def)
  then have "fresh_table c m ?t" using assms(1) by (rule fresh_run)
  from stage_run [OF stage_register [OF this] assms(2)] assms(3,4)
  have "call_stage c m (next_notify ?t) True True (notify_run es (consensus_register c m ?t))" by simp
  then have "c \<in> set (returned (notify_step (Finish c) (notify_run es (consensus_register c m ?t))))"
    by (simp add: call_stage_def sole_caller_def consensus_finish_def)
  then have "c \<in> set (returned (notify_run post (notify_step (Finish c) (notify_run es (consensus_register c m ?t)))))"
    using returned_grows by blast
  then show ?thesis by (simp add: notify_run_def)
qed

theorem consensus_returns_witness:
  "1 \<in> set (returned (notify_run ([Register 2 [9], Await 2] @ Register 1 [7] # [Achieved [7], Achieved [9], Await 1] @
    Finish 1 # [Finish 2]) notify_table_new))"
  by (rule consensus_returns) auto

text \<open>The entry is removed by the first call that returns, so of two calls that wait for the same message
  the second never returns, however often the message is committed afterwards.\<close>

theorem second_waiter_starves:
  assumes "c \<noteq> d"
  shows "returned (notify_run ([Register c m, Register d m, Await c, Await d, Achieved m, Finish c] @
    concat (replicate k [Achieved m, Finish d])) notify_table_new) = [c]"
proof -
  let ?t = "notify_run [Register c m, Register d m, Await c, Await d, Achieved m, Finish c] notify_table_new"
  have t: "map_of (notifications ?t) m = None" "\<not> woken ?t d" "returned ?t = [c]"
    using assms by (simp_all add: notify_run_def notify_defs notify_table_new_def delete_conv')
  have "notify_run (concat (replicate k [Achieved m, Finish d])) ?t = ?t" 
  proof (induction k)
    case (Suc k)
    have "notify_run [Achieved m, Finish d] ?t = ?t"
      using t by (simp add: notify_run_def [of "[Achieved m, Finish d]"] notify_defs split: option.split)
    then show ?case using Suc by (simp only: replicate_Suc concat.simps notify_run_append)
  qed (simp add: notify_run_def)
  then show ?thesis using t(3) by (simp only: notify_run_append)
qed

theorem second_waiter_starves_witness:
  "returned (notify_run ([Register 1 [7], Register 2 [7], Await 1, Await 2, Achieved [7], Finish 1] @
    concat (replicate 5 [Achieved [7], Finish 2])) notify_table_new) = [1]"
  by (rule second_waiter_starves) simp

section \<open>Serving signatures\<close>

definition spares :: "bytes \<Rightarrow> StoreCommand \<Rightarrow> bool" where
  "spares k c = (case c of Write k' _ \<Rightarrow> k' \<noteq> k | Delete k' \<Rightarrow> k' \<noteq> k | Exit _ \<Rightarrow> False | NotifyDestroy _ \<Rightarrow> False | _ \<Rightarrow> True)"

lemma spares_run:
  assumes "rocks_ok R" "running st" "list_all (spares k) cs"
  shows "running (fst (store_run R cs st)) \<and> content (fst (store_run R cs st)) k = content st k"
  using assms(2,3)
proof (induction cs arbitrary: st)
  case (Cons c cs)
  have "running (fst (store_step R c st)) \<and> content (fst (store_step R c st)) k = content st k"
    using Cons.prems assms(1)
    by (cases c) (auto simp: spares_def store_step_def store_write_state rocks_okD split: sum.split option.split)
  with Cons.IH [of "fst (store_step R c st)"] Cons.prems(2) show ?case by (simp add: split_def Let_def)
qed simp

text \<open>C31: a signature that an operator has made is served to the others: after \<open>local_sign_and_store\<close>, and
  whatever commands that spare the key the store has executed since, the frame of a remote operator's
  \<open>sign\<close> makes the receiver answer with the stored bytes, and the remote operator returns the signature at
  its first try.\<close>

theorem signature_served:
  assumes "rocks_ok R" "running st" "list_all (spares msg) cs"
    and "st' = fst (store_run R cs (fst (local_sign_and_store L C R s msg st)))" "hm vid = Some st'"
    and "\<forall>sig. de_sig C (ser_sig C sig) = Inr sig" "\<forall>m w. ser_dvf M m = Inr w \<longrightarrow> de_dvf M w = Inr m"
    and "wrap_dvf M vid msg = (Ok frame :: (DvfError, bytes) outcome)" "\<not> is_addr_invalid base"
  shows "let answer = ser_sig C (local_sign L s msg) in
    rx_frame (hs_of M) (signature_dispatch R) hm (Some frame) = (None, [Reply answer]) \<and>
    remote_sign M C vid base msg (Answered answer # rest) =
      (Ok (local_sign L s msg), [(base_to_signature_addr base, frame)])"
proof -
  let ?a = "ser_sig C (local_sign L s msg)"
  note w = store_write_content [OF assms(1,2), of msg ?a]
  have "store_read R msg st' = Inr (Some ?a)"
    using spares_run [OF assms(1) w(2) assms(3)] store_read_running [OF _ assms(1)] w(1) assms(4)
    by (simp add: local_sign_and_store_def)
  moreover have "ser_dvf M \<lparr>version = VERSION, validator_id = vid, message = msg\<rparr> = Inr frame"
    using assms(8) by (auto simp: wrap_dvf_def unwrap_sum_def split: sum.splits)
  then have "de_dvf (hs_of M) frame = Inr \<lparr>version = VERSION, validator_id = vid, message = msg\<rparr>"
    using assms(7) by (simp add: hs_of_def hs_lib.truncate_def)
  ultimately have "rx_frame (hs_of M) (signature_dispatch R) hm (Some frame) = (None, [Reply ?a])"
    using rx_frame_dispatches [of "hs_of M" frame vid msg hm st' "signature_dispatch R" "[Reply ?a]"] assms(5)
    by (simp add: signature_dispatch_def)
  then show ?thesis using assms(6,8,9) by (simp add: remote_sign_def take_Cons')
qed

theorem signature_served_witness:
  "let answer = toy_point 95 1 in
    rx_frame (hs_of codec2) (signature_dispatch toy_rocks) [7 \<mapsto> fst (store_run toy_rocks [Write [9] [8], Read [3] 1]
      (fst (local_sign_and_store toy_blst id_sigs toy_rocks \<lparr>signer_operator_id = 1, signer_committee = toy_committee,
        signer_keypair = toy_share 4\<rparr> [3] Store_new)))] (Some [2]) = (None, [Reply answer]) \<and>
    remote_sign codec2 id_sigs 7 (addr 2) [3] [Answered answer] =
      (Ok (toy_point 95 1), [(base_to_signature_addr (addr 2), [2])])"
proof -
  let ?s = "\<lparr>signer_operator_id = 1, signer_committee = toy_committee, signer_keypair = toy_share 4\<rparr>"
  have sig: "local_sign toy_blst ?s [3] = toy_point 95 1" by code_simp
  have id: "ser_sig id_sigs x = x" for x by (simp add: id_sigs_def)
  show ?thesis
    using signature_served [OF toy_rocks_ok, of Store_new "[3]" "[Write [9] [8], Read [3] 1]" _ toy_blst id_sigs ?s
      "[7 \<mapsto> fst (store_run toy_rocks [Write [9] [8], Read [3] 1] (fst (local_sign_and_store toy_blst id_sigs toy_rocks
        ?s [3] Store_new)))]" 7 codec2 "[2]" "addr 2" "[]", unfolded sig id]
    by (simp add: Store_new_def spares_def id_sigs_def codec2_def hs_lib.extend_def toy_def wrap_dvf_def unwrap_sum_def
        is_addr_invalid_def invalid_addr_def addr_def)
qed

section \<open>Reporting committed messages\<close>

definition payload_txs :: "mp_lib \<Rightarrow> store_state \<Rightarrow> Digest \<Rightarrow> Transaction list option" where
  "payload_txs M st d = (case store_read (rocks M) d st of
      Inr (Some data) \<Rightarrow> (case de_mp M data of
          Inr (BatchMsg txs) \<Rightarrow> Some txs | Inr (BatchRequest _ _) \<Rightarrow> Some [] | Inl _ \<Rightarrow> None)
    | _ \<Rightarrow> Some [])"

definition is_message :: "Transaction \<Rightarrow> bool" where "is_message tx \<longleftrightarrow> length tx = 32"

definition block_ok :: "mp_lib \<Rightarrow> store_state \<Rightarrow> Block \<Rightarrow> bool" where
  "block_ok M st b = list_all (\<lambda>d. case payload_txs M st d of None \<Rightarrow> False | Some txs \<Rightarrow> list_all is_message txs)
    (blk_payload b)"

definition block_messages :: "mp_lib \<Rightarrow> store_state \<Rightarrow> Block \<Rightarrow> Transaction list" where
  "block_messages M st b = concat (map (\<lambda>d. case payload_txs M st d of None \<Rightarrow> [] | Some txs \<Rightarrow> txs) (blk_payload b))"

lemma notify_all:
  "list_all is_message txs \<Longrightarrow> forM txs notify_transaction sent = (Ok (), sent @ txs)"
  "\<not> list_all is_message txs \<Longrightarrow> \<exists>p out. forM txs notify_transaction sent = (Panic p, out)"
  by (induction txs arbitrary: sent)
    (auto simp: notify_transaction_def Hash256_from_slice_def is_message_def thenM_def act_simps liftO_def bindM_def modM_def retM_def)

lemma payload_reported:
  "payload_txs M st d = Some txs \<Longrightarrow> list_all is_message txs \<Longrightarrow> dvf_payload M st d sent = (Ok (), sent @ txs)"
  "payload_txs M st d = Some txs \<Longrightarrow> \<not> list_all is_message txs \<Longrightarrow> \<exists>p out. dvf_payload M st d sent = (Panic p, out)"
  "payload_txs M st d = None \<Longrightarrow> \<exists>p out. dvf_payload M st d sent = (Panic p, out)"
  by (auto simp: payload_txs_def dvf_payload_def unwrap_sum_def act_simps retM_def liftO_def notify_all
      split: sum.splits option.splits MempoolMessage.splits)

lemma payloads_reported:
  "list_all (\<lambda>d. case payload_txs M st d of None \<Rightarrow> False | Some txs \<Rightarrow> list_all is_message txs) ds \<Longrightarrow>
    forM ds (dvf_payload M st) sent =
      (Ok (), sent @ concat (map (\<lambda>d. case payload_txs M st d of None \<Rightarrow> [] | Some txs \<Rightarrow> txs) ds))"
  "\<not> list_all (\<lambda>d. case payload_txs M st d of None \<Rightarrow> False | Some txs \<Rightarrow> list_all is_message txs) ds \<Longrightarrow>
    \<exists>p out. forM ds (dvf_payload M st) sent = (Panic p, out)"
proof (induction ds arbitrary: sent)
  case (Cons d ds)
  { case 1
    then obtain txs where t: "payload_txs M st d = Some txs" "list_all is_message txs" by (auto split: option.splits)
    from 1 Cons.IH(1) show ?case
      by (simp add: thenM_def bindM_Ok [OF payload_reported(1) [OF t]] t) }
  { case 2
    show ?case
    proof (cases "payload_txs M st d")
      case None
      with payload_reported(3) [OF None, of sent] show ?thesis by (auto simp: thenM_def bindM_Panic)
    next
      case (Some txs)
      show ?thesis
      proof (cases "list_all is_message txs")
        case True
        with 2 Some Cons.IH(2) show ?thesis by (simp add: thenM_def bindM_Ok [OF payload_reported(1) [OF Some True]])
      next
        case False
        with payload_reported(2) [OF Some False, of sent] show ?thesis by (auto simp: thenM_def bindM_Panic)
      qed
    qed }
qed (simp_all add: retM_def)

lemma block_reported:
  "block_ok M st b \<Longrightarrow> dvf_block M st b sent = (Ok (), sent @ block_messages M st b)"
  "\<not> block_ok M st b \<Longrightarrow> \<exists>p out. dvf_block M st b sent = (Panic p, out)"
  using payloads_reported [of M st "blk_payload b" sent]
  by (auto simp: block_ok_def block_messages_def dvf_block_def retM_def)

text \<open>C32: the core task reports exactly the transactions of the batches of committed blocks, in the order of
  the blocks, of the payload and of the batch, as long as every batch in them decodes and every
  transaction is a 32-byte message; payloads missing from the store are passed over.\<close>

theorem core_reports_messages:
  assumes "list_all (\<lambda>(st, b). block_ok M st b) bs"
  shows "dvf_run M (map (\<lambda>(st, b). Committed st b) bs) sent =
    (Ok False, sent @ concat (map (\<lambda>(st, b). block_messages M st b) bs))"
  using assms
proof (induction bs arbitrary: sent)
  case (Cons x bs)
  obtain st b where x: "x = (st, b)" by fastforce
  with Cons show ?case by (simp add: thenM_def bindM_Ok [OF block_reported(1)])
qed (simp add: retM_def)

definition msg32 :: Transaction where "msg32 = replicate 32 5"

definition codec3 :: mp_lib where "codec3 = codec2\<lparr>de_mp := (\<lambda>b. Inr (BatchMsg [msg32]))\<rparr>"

theorem core_reports_messages_witness:
  "dvf_run codec3 [Committed (Store_new\<lparr>content := [[9] \<mapsto> [3]]\<rparr>) (mkblock 1 QC_genesis None [[8], [9]])] [] =
    (Ok False, [msg32])"
proof -
  let ?st = "Store_new\<lparr>content := [[9] \<mapsto> [3]]\<rparr>" and ?b = "mkblock 1 QC_genesis None [[8], [9]]"
  have p: "payload_txs codec3 ?st [8] = Some []" "payload_txs codec3 ?st [9] = Some [msg32]" by code_simp+
  have "block_ok codec3 ?st ?b" "block_messages codec3 ?st ?b = [msg32]"
    using p by (simp_all add: block_ok_def block_messages_def mkblock_def is_message_def msg32_def)
  with core_reports_messages [of codec3 "[(?st, ?b)]" "[]"] show ?thesis by simp
qed

text \<open>Any client can stop the core task of every operator: the handler of transactions accepts bytes of
  any length, and once a batch with a transaction that is not 32 bytes long has been stored by the
  processor and committed in a block, the core task panics and reports no later block.\<close>

theorem odd_transaction_stops_core:
  assumes "rocks_ok (rocks M)" "running st" "processor_batch (hs_of M) ser st = (st', rs, d)"
    and "de_mp M ser = Inr (BatchMsg txs)" "tx \<in> set txs" "length tx \<noteq> 32" "d \<in> set (blk_payload b)"
  shows "tx_dispatch \<lparr>trh_batch_maker_up = True\<rparr> tx = (Ok (), [Deliver tx]) \<and>
    (\<exists>p out. \<forall>es. dvf_run M (Committed st' b # es) sent = (Panic p, out))"
proof
  have r: "rocks (hs_of M) = rocks M" by (simp add: hs_of_def hs_lib.truncate_def)
  have "store_read (rocks M) d st' = Inr (Some ser)"
    using assms(3) store_write_content [OF assms(1,2)] store_read_running [OF _ assms(1)]
    by (auto simp: processor_batch_def r split_def Let_def)
  then have "payload_txs M st' d = Some txs" using assms(4) by (simp add: payload_txs_def)
  then have "\<not> block_ok M st' b" using assms(5-7) by (force simp: block_ok_def list_all_iff is_message_def)
  from block_reported(2) [OF this, of sent] obtain p out where "dvf_block M st' b sent = (Panic p, out)" by blast
  then show "\<exists>p out. \<forall>es. dvf_run M (Committed st' b # es) sent = (Panic p, out)"
    by (auto simp: thenM_def bindM_Panic)
qed (simp add: tx_dispatch_def)

lemma codec2_facts:
  "rocks codec2 = toy_rocks" "de_mp codec2 [3] = Inr (BatchMsg [[1]])" "running Store_new"
  by (simp_all add: codec2_def hs_lib.extend_def toy_def Store_new_def)

theorem odd_transaction_stops_core_witness:
  "\<exists>p out. \<forall>es. dvf_run codec2 (Committed (fst (processor_batch (hs_of codec2) [3] Store_new))
    (mkblock 1 QC_genesis None [snd (snd (processor_batch (hs_of codec2) [3] Store_new))]) # es) [] = (Panic p, out)"
proof -
  let ?r = "processor_batch (hs_of codec2) [3] Store_new"
  have "?r = (fst ?r, fst (snd ?r), snd (snd ?r))" by simp
  then show ?thesis
    by (rule odd_transaction_stops_core [where txs = "[[1]]" and tx = "[1]", rotated 2, THEN conjunct2])
      (simp_all add: codec2_facts mkblock_def)
qed

section \<open>The committees of a signer\<close>

lemma fold_update_members:
  fixes f :: "'x \<Rightarrow> 'k" and g :: "'x \<Rightarrow> 'v"
  assumes "distinct (map fst m)" "\<forall>(k, v) \<in> set m. P k v" "\<forall>x \<in> set xs. P (f x) (g x)"
  defines "r \<equiv> fold (\<lambda>x. AList.update (f x) (g x)) xs m"
  shows "distinct (map fst r)" "fst ` set r = fst ` set m \<union> f ` set xs" "\<forall>(k, v) \<in> set r. P k v"
    "length r \<le> length m + length xs"
proof -
  have "distinct (map fst (fold (\<lambda>x. AList.update (f x) (g x)) xs m)) \<and>
    fst ` set (fold (\<lambda>x. AList.update (f x) (g x)) xs m) = fst ` set m \<union> f ` set xs \<and>
    (\<forall>(k, v) \<in> set (fold (\<lambda>x. AList.update (f x) (g x)) xs m). P k v) \<and>
    length (fold (\<lambda>x. AList.update (f x) (g x)) xs m) \<le> length m + length xs"
    using assms(1-3)
  proof (induction xs arbitrary: m)
    case (Cons x xs)
    let ?m = "AList.update (f x) (g x) m"
    have d: "distinct (map fst ?m)" using Cons.prems(1) by (rule distinct_update)
    have k: "fst ` set ?m = insert (f x) (fst ` set m)" 
      using dom_map_of_conv_image_fst [of ?m] dom_map_of_conv_image_fst [of m] by (auto simp: update_conv')
    have "map_of ?m a = Some b \<Longrightarrow> P a b" for a b
      using Cons.prems by (auto simp: update_conv' split: if_splits dest!: map_of_SomeD)
    then have "\<forall>(a, b) \<in> set ?m. P a b" using d by auto
    moreover have "length ?m \<le> Suc (length m)" by (induction m) auto
    ultimately show ?case using Cons.IH [OF d] Cons.prems(3) k by auto
  qed simp
  then show "distinct (map fst r)" "fst ` set r = fst ` set m \<union> f ` set xs" "\<forall>(k, v) \<in> set r. P k v"
    "length r \<le> length m + length xs" unfolding r_def by blast+
qed

text \<open>A committee in which every authority has a stake of one.\<close>

lemma unit_stakes_valid:
  assumes "distinct (map fst (authorities c))" "\<forall>(k, a) \<in> set (authorities c). auth_stake a = 1"
    and "length (authorities c) < 2 ^ 31"
  shows "committee_valid c" "k \<in> names c \<Longrightarrow> nstake c k = 1"
proof -
  have "map (unat \<circ> auth_stake \<circ> snd) (authorities c) = replicate (length (authorities c)) 1"
    using assms(2) by (intro nth_equalityI) (auto simp: split_def)
  then show "committee_valid c" using assms(1,3) by (simp add: committee_valid_def sum_list_replicate)
  show "k \<in> names c \<Longrightarrow> nstake c k = 1"
    using assms(1,2) by (auto simp: names_def nstake_def stake_def)
qed

lemma dvf_committees:
  assumes "length (ocd_node_public_keys d) < 2 ^ 31"
  shows "committee_valid (dvf_consensus_committee d)" "mcommittee_valid (dvf_mempool_committee d)"
    "names (dvf_consensus_committee d) = set (ocd_node_public_keys d)"
    "mnames (dvf_mempool_committee d) = set (ocd_node_public_keys d)"
    "k \<in> set (ocd_node_public_keys d) \<Longrightarrow> nstake (dvf_consensus_committee d) k = 1"
    "k \<in> set (ocd_node_public_keys d) \<Longrightarrow> mnstake (dvf_mempool_committee d) k = 1"
proof -
  let ?cc = "dvf_consensus_committee d" and ?mc = "as_committee (dvf_mempool_committee d)"
  let ?ks = "enumerate 0 (ocd_node_public_keys d)"
  have ks: "snd ` set ?ks = set (ocd_node_public_keys d)" by (metis list.set_map map_snd_enumerate)
  let ?c = "\<lambda>x. \<lparr>auth_stake = 1, auth_address = base_to_consensus_addr (base_of d (fst x))\<rparr>"
  let ?m = "\<lambda>x. \<lparr>mauth_stake = 1,
      mauth_transactions_address = base_to_transaction_addr (base_of d (fst x)),
      mauth_mempool_address = base_to_mempool_addr (base_of d (fst x)),
      mauth_signature_address = base_to_signature_addr (base_of d (fst x))\<rparr>"
  have c: "authorities ?cc = fold (\<lambda>x. AList.update (snd x) (?c x)) ?ks []"
    by (simp add: dvf_consensus_committee_def Committee_new_def fold_map comp_def split_def)
  have m: "mauthorities (dvf_mempool_committee d) = 
      fold (\<lambda>x. AList.update (snd x) (?m x)) ?ks []"
    by (simp add: dvf_mempool_committee_def MempoolCommittee_new_def fold_map comp_def split_def)
  note fc = fold_update_members [of "[]" "\<lambda>_ a. auth_stake a = 1" ?ks snd ?c, folded c, simplified]
  note fm = fold_update_members [of "[]" "\<lambda>_ a. mauth_stake a = 1" ?ks snd ?m, folded m, simplified]
  show n: "names ?cc = set (ocd_node_public_keys d)" "mnames (dvf_mempool_committee d) = set (ocd_node_public_keys d)"
    using fc(2) fm(2) ks by (simp_all add: names_def mnames_def)
  have u: "distinct (map fst (authorities ?mc))" "\<forall>(k, a) \<in> set (authorities ?mc). auth_stake a = 1"
      "length (authorities ?mc) < 2 ^ 31"
    using fm assms by (auto simp: as_committee_def split_def comp_def)
  have v: "length (authorities ?cc) < 2 ^ 31" using fc(4) assms by simp
  show "committee_valid ?cc" "mcommittee_valid (dvf_mempool_committee d)"
    using unit_stakes_valid(1) [OF fc(1,3) v] unit_stakes_valid(1) [OF u] by (simp_all add: mcommittee_valid_def)
  show "k \<in> set (ocd_node_public_keys d) \<Longrightarrow> nstake ?cc k = 1"
    "k \<in> set (ocd_node_public_keys d) \<Longrightarrow> mnstake (dvf_mempool_committee d) k = 1"
    using unit_stakes_valid(2) [OF fc(1,3) v] unit_stakes_valid(2) [OF u] n by simp_all
qed

definition remote_entry :: "u64 \<Rightarrow> Operator \<Rightarrow> bool" where
  "remote_entry i op \<longleftrightarrow> (\<exists>v k a. op = RemoteOperator v i k a)"

lemma remote_operators_added:
  assumes "add_remote_operators d i n c = Ok c'" "distinct (map fst (oc_operators c))"
    "\<forall>(i, op) \<in> set (oc_operators c). remote_entry i op"
  shows "distinct (map fst (oc_operators c')) \<and> (\<forall>(i, op) \<in> set (oc_operators c'). remote_entry i op)"
  using assms
proof (induction d i n c rule: add_remote_operators.induct)
  case (2 d i n c)
  let ?op = "RemoteOperator (ocd_validator_id d) (ocd_operator_ids d ! i) (ocd_operator_public_keys d ! i)
    (case ocd_base_socket_addresses d ! i of None \<Rightarrow> invalid_addr | Some a \<Rightarrow> a)"
  note f = fold_update_members [of "oc_operators c" remote_entry "[()]" "\<lambda>_. ocd_operator_ids d ! i" "\<lambda>_. ?op", simplified]
  show ?case
    using "2.IH" [OF _ refl refl] "2.prems" f(1,3)
    by (auto simp: add_operator_def remote_entry_def Let_def split: if_splits)
qed simp

text \<open>C34: what \<open>DvfSigner::spawn\<close> builds is well formed: both committees contain exactly the nodes of the
  definition, this one included, each with a stake of one, their stakes do not overflow, their quorums
  are more than two thirds of the nodes, and the table of operators has one entry per identifier, the
  local operator under its own and a remote operator under every other.\<close>

theorem spawned_signer_well_formed:
  assumes "DvfSigner_spawn name base kp d opened = Ok (s, mc, cc)" "length (ocd_node_public_keys d) < 2 ^ 31"
  shows "committee_valid cc \<and> mcommittee_valid mc \<and> names cc = set (ocd_node_public_keys d) \<and> mnames mc = names cc \<and>
    name \<in> names cc \<and> (\<forall>k \<in> names cc. nstake cc k = 1 \<and> mnstake mc k = 1) \<and>
    unat (quorum_threshold cc) = 2 * card (names cc) div 3 + 1 \<and> mquorum_threshold mc = quorum_threshold cc \<and>
    distinct (map fst (oc_operators (signer_committee s))) \<and>
    map_of (oc_operators (signer_committee s)) (signer_operator_id s) =
      Some (LocalOperator (ocd_validator_id d) (signer_operator_id s) kp base) \<and>
    (\<forall>(i, op) \<in> set (oc_operators (signer_committee s)). i \<noteq> signer_operator_id s \<longrightarrow> remote_entry i op)"
proof -
  let ?ix = "map fst (filter (\<lambda>(_, x). x = name) (enumerate 0 (ocd_node_public_keys d)))"
  let ?id = "ocd_operator_ids d ! hd ?ix"
  let ?local = "LocalOperator (ocd_validator_id d) ?id kp base"
  obtain c where c: "from_definition d = Ok c" "length ?ix = 1" "s = \<lparr>signer_operator_id = ?id,
      signer_committee = add_operator ?id ?local c, signer_keypair = kp\<rparr>"
    "mc = dvf_mempool_committee d" "cc = dvf_consensus_committee d"
    using assms(1) by (auto simp: DvfSigner_spawn_def Let_def bindO_Ok_iff split: if_splits sum.splits)
  note v = dvf_committees [OF assms(2), folded c(4,5)]
  have "filter (\<lambda>(_, x). x = name) (enumerate 0 (ocd_node_public_keys d)) \<noteq> []" using c(2) by auto
  then have nm: "name \<in> names cc" unfolding v(3) by (force simp: filter_empty_conv in_set_enumerate_eq)
  have q: "unat (quorum_threshold cc) = 2 * card (names cc) div 3 + 1"
    using unat_quorum_threshold [OF v(1)] v(3,5) by simp
  have mq: "mquorum_threshold mc = quorum_threshold cc"
    using mq.quorum_eq [OF v(2)] v(3,4,6) q by (simp add: word_unat_eq_iff)
  have ops: "distinct (map fst (oc_operators c))" "\<forall>(i, op) \<in> set (oc_operators c). remote_entry i op"
    using remote_operators_added [OF c(1) [unfolded from_definition_def]] by (simp_all add: OperatorCommittee_new_def)
  have d: "distinct (map fst (AList.update ?id ?local (oc_operators c)))" using ops(1) by (rule distinct_update)
  have "remote_entry i op" if "(i, op) \<in> set (AList.update ?id ?local (oc_operators c))" "i \<noteq> ?id" for i op
  proof -
    have "map_of (oc_operators c) i = Some op" using map_of_is_SomeI [OF d that(1)] that(2) by (simp add: update_conv')
    then show ?thesis using ops(2) by (auto dest: map_of_SomeD)
  qed
  then have "\<forall>(i, op) \<in> set (oc_operators (signer_committee s)). i \<noteq> signer_operator_id s \<longrightarrow> remote_entry i op"
    by (auto simp: c(3) add_operator_def)
  then show ?thesis using v d nm q mq by (simp add: c(3) add_operator_def update_conv')
qed

definition toy_definition :: OperatorCommitteeDefinition where
  "toy_definition = \<lparr>ocd_total = 4, ocd_threshold = 3, ocd_validator_id = 7, ocd_validator_public_key = [],
    ocd_operator_ids = [11, 12, 13, 14], ocd_operator_public_keys = [[1], [2], [3], [4]],
    ocd_node_public_keys = [key 1, key 2, key 3, key 4],
    ocd_base_socket_addresses = [Some (addr 1), None, Some (addr 3), Some (addr 4)]\<rparr>"

theorem spawned_signer_well_formed_witness:
  "\<exists>s mc cc. DvfSigner_spawn (key 2) (addr 2) (toy_share 4) toy_definition (Inr ()) = Ok (s, mc, cc) \<and>
    committee_valid cc \<and> unat (quorum_threshold cc) = 3"
proof -
  have "case DvfSigner_spawn (key 2) (addr 2) (toy_share 4) toy_definition (Inr ()) of Ok _ \<Rightarrow> True | _ \<Rightarrow> False"
    by code_simp
  then obtain s mc cc where r: "DvfSigner_spawn (key 2) (addr 2) (toy_share 4) toy_definition (Inr ()) = Ok (s, mc, cc)"
    by (cases "DvfSigner_spawn (key 2) (addr 2) (toy_share 4) toy_definition (Inr ())") auto
  have "committee_valid cc" "names cc = {key 1, key 2, key 3, key 4}" "unat (quorum_threshold cc) = 2 * card (names cc) div 3 + 1"
    using spawned_signer_well_formed [OF r] by (simp_all add: toy_definition_def)
  then show ?thesis using r by (simp add: key_def)
qed

end
