(* ===== verification/NodeDb.thy ===== *)
theory NodeDb
  imports Operators
begin

text \<open>
  The local database of a node (\<open>src/node/db.rs\<close>) and the values in it (\<open>src/node/contract.rs\<close>).

  A table is a list of rows in the order of insertion, and each SQL statement of the source is written
  out on it: keys and foreign keys are checked where the schema declares them, and a statement that
  names a missing table or column fails.  Foreign keys are enforced only if the SQLite library was built
  so (\<open>enforce\<close>).  Where SQL leaves the order of rows open (\<open>order by\<close> with equal keys) an argument \<open>tie\<close>
  chooses.  A failed statement whose error is only logged leaves the tables unchanged.

  Hexadecimal, base64 and JSON coding are a parameter.  Validator identifiers, which the source stores
  as decimal text, are kept as numbers.
\<close>

section \<open>Values\<close>

type_synonym Address = bytes

record ContractOperator =
  cop_id :: u32
  cop_name :: string
  cop_address :: Address
  cop_public_key :: bytes

record Validator =
  va_id :: u64
  va_owner_address :: Address
  va_public_key :: bytes
  va_releated_operators :: "u32 list"
  va_active :: bool

record Initiator =
  ini_id :: u32
  ini_owner_address :: Address
  ini_releated_operators :: "u32 list"
  ini_validator_pk :: "bytes option"
  ini_minipool_address :: "Address option"

datatype ContractCommand =
    StartValidator Validator "bytes list" "bytes list" "bytes list"
  | RemoveValidator Validator
  | ActivateValidator Validator
  | StopValidator Validator
  | StartInitiator Initiator "bytes list"
  | MiniPoolCreated u32 bytes "bytes list" "u32 list" Address
  | MiniPoolReady u32 bytes "bytes list" "u32 list" Address
  | RemoveInitiator Initiator "bytes list"

record InitiatorStoreRecord =
  isr_id :: u32
  isr_share_bls_sk :: WrapSecretKey
  isr_validator_pk :: WrapPublicKey
  isr_share_bls_pks :: "(u64 \<times> WrapPublicKey) list"

record node_lib =
  hex_encode :: "bytes \<Rightarrow> string"
  hex_decode :: "string \<Rightarrow> lib_error + bytes"
  hex_address :: "Address \<Rightarrow> string"
  b64_encode :: "bytes \<Rightarrow> string"
  b64_decode :: "string \<Rightarrow> lib_error + bytes"
  ser_cmd :: "ContractCommand \<Rightarrow> string"
  de_cmd :: "string \<Rightarrow> lib_error + ContractCommand"

section \<open>Tables\<close>

datatype DbError = SqlError | ColumnTypeError

record operator_row =
  or_id :: u32
  or_name :: string
  or_address :: string
  or_public_key :: string

record validator_row =
  vr_public_key :: string
  vr_id :: u64
  vr_owner_address :: string
  vr_active :: bool

record initiator_row =
  ir_id :: u32
  ir_address :: string
  ir_validator_pk :: "string option"
  ir_minipool_address :: "string option"

record command_row =
  cc_id :: nat
  cc_owner :: u64
  cc_sequence_num :: u32
  cc_command :: string
  cc_update_time :: nat

record store_row =
  sr_id :: nat
  sr_initiator_id :: u32
  sr_share_bls_sk :: string
  sr_validator_pk :: string

record db =
  enforce :: bool
  operators :: "operator_row list"
  validators :: "validator_row list"
  validator_operators_mapping :: "(string \<times> u32) list"
  initiators :: "initiator_row list"
  initiator_operators_mapping :: "(u32 \<times> u32) list"
  contract_commands :: "command_row list"
  command_counter :: nat
  contract_cmd_sequence :: "(u64 \<times> u32) list"
  initiator_store_record :: "store_row list"
  store_counter :: nat
  initiator_store_record_oppk :: "(u64 \<times> string \<times> nat) list"

definition Database_new :: "bool \<Rightarrow> db" where
  "Database_new fk = \<lparr>enforce = fk, operators = [], validators = [], validator_operators_mapping = [],
    initiators = [], initiator_operators_mapping = [], contract_commands = [], command_counter = 0,
    contract_cmd_sequence = [], initiator_store_record = [], store_counter = 0,
    initiator_store_record_oppk = []\<rparr>"

abbreviation unwrap_panic :: string where
  "unwrap_panic \<equiv> ''called `Result::unwrap()` on an `Err` value''"

section \<open>Operators and validators\<close>

definition insert_operator :: "node_lib \<Rightarrow> ContractOperator \<Rightarrow> db \<Rightarrow> db" where
  "insert_operator N op d =
    (if cop_id op \<in> or_id ` set (operators d) then d
     else d\<lparr>operators := operators d @ [\<lparr>or_id = cop_id op, or_name = cop_name op,
       or_address = hex_address N (cop_address op), or_public_key = b64_encode N (cop_public_key op)\<rparr>]\<rparr>)"

text \<open>One row of a mapping table; a missing target is refused where foreign keys are enforced.\<close>

definition map_validator_operator :: "string \<Rightarrow> u32 \<Rightarrow> db \<Rightarrow> db option" where
  "map_validator_operator key operator_id d =
    (if enforce d \<and> (key \<notin> vr_public_key ` set (validators d) \<or> operator_id \<notin> or_id ` set (operators d)) then None
     else Some (d\<lparr>validator_operators_mapping := validator_operators_mapping d @ [(key, operator_id)]\<rparr>))"

fun map_validator_operators :: "string \<Rightarrow> u32 list \<Rightarrow> db \<Rightarrow> db option" where
  "map_validator_operators key [] d = Some d"
| "map_validator_operators key (i # is) d = (case map_validator_operator key i d of
      None \<Rightarrow> None | Some d' \<Rightarrow> map_validator_operators key is d')"

definition insert_validator :: "node_lib \<Rightarrow> Validator \<Rightarrow> db \<Rightarrow> db" where
  "insert_validator N v d =
    (let key = hex_encode N (va_public_key v) in
     if key \<in> vr_public_key ` set (validators d) then d
     else let d1 = d\<lparr>validators := validators d @ [\<lparr>vr_public_key = key, vr_id = va_id v,
         vr_owner_address = hex_address N (va_owner_address v), vr_active = True\<rparr>]\<rparr> in
       case map_validator_operators key (va_releated_operators v) d1 of None \<Rightarrow> d | Some d2 \<Rightarrow> d2)"

text \<open>The statement names a column \<open>operator_id\<close>, which the table does not have.\<close>

definition delete_operator :: "u32 \<Rightarrow> db \<Rightarrow> db" where
  "delete_operator operator_id d = d"

definition delete_validator :: "string \<Rightarrow> db \<Rightarrow> db" where
  "delete_validator key d = d\<lparr>validators := filter (\<lambda>r. vr_public_key r \<noteq> key) (validators d),
    validator_operators_mapping := (if enforce d then filter (\<lambda>(k, _). k \<noteq> key) (validator_operators_mapping d)
      else validator_operators_mapping d)\<rparr>"

text \<open>The statements lack a table, and name a column \<open>public_key\<close> that the mapping does not have.\<close>

definition query_operator_by_id :: "u32 \<Rightarrow> db \<Rightarrow> (DbError, ContractOperator option) outcome" where
  "query_operator_by_id operator_id d = Err SqlError"

definition query_validator_by_public_key :: "string \<Rightarrow> db \<Rightarrow> (DbError, Validator option) outcome" where
  "query_validator_by_public_key key d = Err SqlError"

definition query_operator_public_key_by_id :: "u32 \<Rightarrow> db \<Rightarrow> (DbError, string option) outcome" where
  "query_operator_public_key_by_id operator_id d =
    Ok (map_option or_public_key (find (\<lambda>r. or_id r = operator_id) (operators d)))"

definition query_operators_public_key_by_ids :: "u32 list \<Rightarrow> db \<Rightarrow> (DbError, string list option) outcome" where
  "query_operators_public_key_by_ids ids d =
    (if ids = [] then Panic ''assertion failed: `(left != right)`''
     else let ks = concat (map (\<lambda>i. case find (\<lambda>r. or_id r = i) (operators d) of
         Some r \<Rightarrow> [or_public_key r] | None \<Rightarrow> []) ids) in
       Ok (if ks = [] then None else Some ks))"

fun decode_validators ::
  "node_lib \<Rightarrow> Address \<Rightarrow> validator_row list \<Rightarrow> (DbError, Validator list) outcome" where
  "decode_validators N owner [] = Ok []"
| "decode_validators N owner (r # rs) = bindO (unwrap_sum (hex_decode N (vr_public_key r)) unwrap_panic) (\<lambda>key.
    bindO (decode_validators N owner rs) (\<lambda>vs. Ok (\<lparr>va_id = vr_id r, va_owner_address = owner,
      va_public_key = key, va_releated_operators = [], va_active = vr_active r\<rparr> # vs)))"

definition query_validator_by_address ::
  "node_lib \<Rightarrow> Address \<Rightarrow> db \<Rightarrow> (DbError, Validator list) outcome" where
  "query_validator_by_address N owner d = decode_validators N owner
    (filter (\<lambda>r. vr_owner_address r = hex_address N owner) (validators d))"

fun decode_addresses :: "node_lib \<Rightarrow> string list \<Rightarrow> (DbError, Address list) outcome" where
  "decode_addresses N [] = Ok []"
| "decode_addresses N (a # as) = bindO (unwrap_sum (hex_decode N a) unwrap_panic) (\<lambda>b.
    bindO (decode_addresses N as) (\<lambda>bs. Ok (b # bs)))"

definition query_all_validator_address :: "node_lib \<Rightarrow> db \<Rightarrow> (DbError, Address list) outcome" where
  "query_all_validator_address N d = decode_addresses N (remdups (map vr_owner_address (validators d)))"

definition set_active :: "bool \<Rightarrow> string \<Rightarrow> db \<Rightarrow> db" where
  "set_active b key d = d\<lparr>validators := map (\<lambda>r. if vr_public_key r = key then r\<lparr>vr_active := b\<rparr> else r) (validators d)\<rparr>"

definition disable_validator :: "string \<Rightarrow> db \<Rightarrow> db" where
  "disable_validator key d = set_active False key d"

definition enable_validator :: "string \<Rightarrow> db \<Rightarrow> db" where
  "enable_validator key d = set_active True key d"

definition if_validator_active :: "string \<Rightarrow> db \<Rightarrow> (DbError, bool) outcome" where
  "if_validator_active key d = Ok (case find (\<lambda>r. vr_public_key r = key) (validators d) of
      Some r \<Rightarrow> vr_active r | None \<Rightarrow> True)"

section \<open>Initiators\<close>

fun map_initiator_operators :: "u32 \<Rightarrow> u32 list \<Rightarrow> db \<Rightarrow> db" where
  "map_initiator_operators i [] d = d"
| "map_initiator_operators i (op # ops) d =
    (if enforce d \<and> (i \<notin> ir_id ` set (initiators d) \<or> op \<notin> or_id ` set (operators d)) then d
     else map_initiator_operators i ops
       (d\<lparr>initiator_operators_mapping := initiator_operators_mapping d @ [(i, op)]\<rparr>))"

definition insert_initiator :: "node_lib \<Rightarrow> Initiator \<Rightarrow> db \<Rightarrow> db" where
  "insert_initiator N ini d =
    (let d1 = (if ini_id ini \<in> ir_id ` set (initiators d) then d
       else d\<lparr>initiators := initiators d @ [\<lparr>ir_id = ini_id ini,
         ir_address = hex_address N (ini_owner_address ini), ir_validator_pk = None, ir_minipool_address = None\<rparr>]\<rparr>) in
     map_initiator_operators (ini_id ini) (ini_releated_operators ini) d1)"

definition update_initiator :: "u32 \<Rightarrow> string \<Rightarrow> string \<Rightarrow> db \<Rightarrow> (DbError, nat) outcome \<times> db" where
  "update_initiator i key minipool d =
    (Ok (length (filter (\<lambda>r. ir_id r = i) (initiators d))),
     d\<lparr>initiators := map (\<lambda>r. if ir_id r = i
       then r\<lparr>ir_validator_pk := Some key, ir_minipool_address := Some minipool\<rparr> else r) (initiators d)\<rparr>)"

text \<open>A column that is still \<open>NULL\<close> cannot be read as a string.\<close>

definition decode_initiator :: "node_lib \<Rightarrow> initiator_row \<Rightarrow> (DbError, Initiator) outcome" where
  "decode_initiator N r = (case (ir_validator_pk r, ir_minipool_address r) of
      (Some key, Some minipool) \<Rightarrow>
        bindO (if key = [] then Ok None else bindO (unwrap_sum (hex_decode N key) unwrap_panic) (\<lambda>b. Ok (Some b))) (\<lambda>vk.
        bindO (if minipool = [] then Ok None
          else bindO (unwrap_sum (hex_decode N minipool) unwrap_panic) (\<lambda>b. Ok (Some b))) (\<lambda>mp.
        bindO (unwrap_sum (hex_decode N (ir_address r)) unwrap_panic) (\<lambda>a.
        Ok \<lparr>ini_id = ir_id r, ini_owner_address = a, ini_releated_operators = [], ini_validator_pk = vk,
          ini_minipool_address = mp\<rparr>)))
    | _ \<Rightarrow> Err ColumnTypeError)"

definition query_initiator :: "node_lib \<Rightarrow> u32 \<Rightarrow> db \<Rightarrow> (DbError, Initiator option) outcome" where
  "query_initiator N i d = (case find (\<lambda>r. ir_id r = i) (initiators d) of
      None \<Rightarrow> Ok None
    | Some r \<Rightarrow> bindO (decode_initiator N r) (\<lambda>ini. Ok (Some ini)))"

definition query_initiator_releated_operator_pks :: "u32 \<Rightarrow> db \<Rightarrow> (DbError, string list \<times> u32 list) outcome" where
  "query_initiator_releated_operator_pks i d =
    (let rs = filter (\<lambda>r. (i, or_id r) \<in> set (initiator_operators_mapping d)) (operators d) in
     Ok (map or_public_key rs, map or_id rs))"

definition delete_initiator :: "node_lib \<Rightarrow> u32 \<Rightarrow> db \<Rightarrow> (DbError, Initiator option) outcome \<times> db" where
  "delete_initiator N i d = (let r = query_initiator N i d in
    case r of
      Ok (Some _) \<Rightarrow> (r, d\<lparr>initiators := filter (\<lambda>r. ir_id r \<noteq> i) (initiators d),
        initiator_operators_mapping := (if enforce d then filter (\<lambda>(j, _). j \<noteq> i) (initiator_operators_mapping d)
          else initiator_operators_mapping d)\<rparr>)
    | _ \<Rightarrow> (r, d))"

definition insert_initiator_store :: "node_lib \<Rightarrow> InitiatorStoreRecord \<Rightarrow> db \<Rightarrow> db" where
  "insert_initiator_store N r d =
    (let i = Suc (store_counter d) in
     d\<lparr>initiator_store_record := initiator_store_record d @ [\<lparr>sr_id = i, sr_initiator_id = isr_id r,
         sr_share_bls_sk = hex_encode N (isr_share_bls_sk r), sr_validator_pk = hex_encode N (isr_validator_pk r)\<rparr>],
       store_counter := i,
       initiator_store_record_oppk := initiator_store_record_oppk d @
         map (\<lambda>(op, k). (op, hex_encode N k, i)) (isr_share_bls_pks r)\<rparr>)"

text \<open>
  The rows of the join, and what the loop over them makes of them.  \<open>sk_de\<close> and \<open>pk_de\<close> are the parsers
  of the curve library.
\<close>

definition store_join :: "u32 \<Rightarrow> db \<Rightarrow> (string \<times> string \<times> u64 \<times> string) list" where
  "store_join i d = concat (map (\<lambda>a. map (\<lambda>(op, k, _). (sr_share_bls_sk a, sr_validator_pk a, op, k))
    (filter (\<lambda>(_, _, r). r = sr_id a) (initiator_store_record_oppk d)))
    (filter (\<lambda>a. sr_initiator_id a = i) (initiator_store_record d)))"

definition decode_with :: "node_lib \<Rightarrow> (bytes \<Rightarrow> lib_error + 'a) \<Rightarrow> string \<Rightarrow> (DbError, 'a) outcome" where
  "decode_with N de s = bindO (unwrap_sum (hex_decode N s) unwrap_panic) (\<lambda>b. unwrap_sum (de b) unwrap_panic)"

fun read_store_rows ::
  "node_lib \<Rightarrow> ('p1, 'p2) blst_lib \<Rightarrow> (string \<times> string \<times> u64 \<times> string) list \<Rightarrow>
    (WrapSecretKey \<times> WrapPublicKey) option \<Rightarrow> (u64 \<times> WrapPublicKey) list \<Rightarrow>
    (DbError, (WrapSecretKey \<times> WrapPublicKey) option \<times> (u64 \<times> WrapPublicKey) list) outcome" where
  "read_store_rows N L [] head ks = Ok (head, ks)"
| "read_store_rows N L ((s, v, op, k) # rows) head ks =
    bindO (case head of Some h \<Rightarrow> Ok h
      | None \<Rightarrow> bindO (decode_with N (sk_deserialize L) s) (\<lambda>s'.
          bindO (decode_with N (pk_deserialize L) v) (\<lambda>v'. Ok (s', v')))) (\<lambda>h.
    bindO (decode_with N (pk_deserialize L) k) (\<lambda>k'.
    read_store_rows N L rows (Some h) (AList.update op k' ks)))"

definition query_initiator_store ::
  "node_lib \<Rightarrow> ('p1, 'p2) blst_lib \<Rightarrow> u32 \<Rightarrow> db \<Rightarrow> (DbError, InitiatorStoreRecord option) outcome" where
  "query_initiator_store N L i d = bindO (read_store_rows N L (store_join i d) None []) (\<lambda>(head, ks).
    Ok (case head of
        None \<Rightarrow> None
      | Some (s, v) \<Rightarrow> Some \<lparr>isr_id = i, isr_share_bls_sk = s, isr_validator_pk = v, isr_share_bls_pks = ks\<rparr>))"

section \<open>The queue of contract commands\<close>

definition increase_va_sequence :: "u64 \<Rightarrow> db \<Rightarrow> u32 \<times> db" where
  "increase_va_sequence vid d =
    (let sequence_num = (case map_of (contract_cmd_sequence d) vid of Some n \<Rightarrow> n | None \<Rightarrow> 0);
         d1 = (if sequence_num = 0
           then if vid \<in> fst ` set (contract_cmd_sequence d) then d
             else d\<lparr>contract_cmd_sequence := contract_cmd_sequence d @ [(vid, 1)]\<rparr>
           else d\<lparr>contract_cmd_sequence :=
             map (\<lambda>(v, n). if v = vid then (v, sequence_num + 1) else (v, n)) (contract_cmd_sequence d)\<rparr>) in
     (sequence_num + 1, d1))"

definition insert_contract_command :: "nat \<Rightarrow> u64 \<Rightarrow> string \<Rightarrow> db \<Rightarrow> db" where
  "insert_contract_command now vid command d =
    (let (sequence_num, d1) = increase_va_sequence vid d; i = Suc (command_counter d1) in
     d1\<lparr>contract_commands := contract_commands d1 @ [\<lparr>cc_id = i, cc_owner = vid, cc_sequence_num = sequence_num,
       cc_command = command, cc_update_time = now\<rparr>], command_counter := i\<rparr>)"

definition delete_contract_command :: "u32 \<Rightarrow> db \<Rightarrow> db" where
  "delete_contract_command i d = d\<lparr>contract_commands := filter (\<lambda>r. cc_id r \<noteq> unat i) (contract_commands d)\<rparr>"

text \<open>An update that changes nothing but fires the trigger on the row.\<close>

definition updatetime_contract_command :: "nat \<Rightarrow> u32 \<Rightarrow> db \<Rightarrow> db" where
  "updatetime_contract_command now i d = d\<lparr>contract_commands :=
    map (\<lambda>r. if cc_id r = unat i then r\<lparr>cc_update_time := now\<rparr> else r) (contract_commands d)\<rparr>"

text \<open>\<open>order by key asc limit 1\<close>.\<close>

definition first_by :: "nat \<Rightarrow> ('r \<Rightarrow> nat) \<Rightarrow> 'r list \<Rightarrow> 'r option" where
  "first_by tie key rows = (if rows = [] then None
    else let m = Min (set (map key rows)); ms = filter (\<lambda>r. key r = m) rows in Some (ms ! (tie mod length ms)))"

definition select_command :: "nat \<Rightarrow> db \<Rightarrow> command_row option" where
  "select_command tie d = (case first_by tie cc_update_time (contract_commands d) of
      None \<Rightarrow> None
    | Some r \<Rightarrow> first_by tie (\<lambda>r. unat (cc_sequence_num r))
        (filter (\<lambda>r'. cc_owner r' = cc_owner r) (contract_commands d)))"

definition get_contract_command :: "nat \<Rightarrow> nat \<Rightarrow> db \<Rightarrow> (DbError, string \<times> u32) outcome \<times> db" where
  "get_contract_command tie now d = (case select_command tie d of
      None \<Rightarrow> (Ok ([], 0), d)
    | Some r \<Rightarrow>
        if 2 ^ 32 \<le> cc_id r then (Panic unwrap_panic, d)
        else (Ok (cc_command r, of_nat (cc_id r)), updatetime_contract_command now (of_nat (cc_id r)) d))"

section \<open>The task and its clients\<close>

datatype DbCommand =
    InsertOperator ContractOperator
  | InsertValidator Validator
  | DeleteOperator u32
  | DeleteValidator string
  | QueryOperatorById u32
  | QueryValidatorByPublicKey string
  | QueryOperatorPublicKeyByIds "u32 list"
  | QueryOperatorPublicKeyById u32
  | InsertInitiator Initiator
  | UpdateInitiator u32 string string
  | QueryInitiator u32
  | QueryInitiatorReleaterOpPk u32
  | QueryAllValidatorOwners
  | QueryValidatorByAddress Address
  | DisableValidator string
  | EnableValidator string
  | ValidatorActive string
  | InsertContractCommand u64 string
  | GetContractCommand
  | DeleteContractCommand u32
  | UpdatetimeContractCommand u32
  | DeleteInitiator u32
  | InsertInitiatorStore InitiatorStoreRecord
  | QueryInitiatorStore u32

datatype db_reply =
    NoReply
  | OperatorReply "ContractOperator option"
  | ValidatorReply "Validator option"
  | KeysReply "string list option"
  | KeyReply "string option"
  | CountReply nat
  | InitiatorReply "Initiator option"
  | KeysIdsReply "string list" "u32 list"
  | AddressesReply "Address list"
  | ValidatorsReply "Validator list"
  | ActiveReply bool
  | CommandReply string u32
  | StoreReply "InitiatorStoreRecord option"

definition reply_of :: "('a \<Rightarrow> db_reply) \<Rightarrow> (DbError, 'a) outcome \<Rightarrow> db \<Rightarrow> (DbError, db_reply) outcome \<times> db" where
  "reply_of f r d = (bindO r (\<lambda>a. Ok (f a)), d)"

text \<open>
  One command of the task, with the time and the choice among equal rows as arguments; a panic ends the
  task.
\<close>

fun db_step ::
  "node_lib \<Rightarrow> ('p1, 'p2) blst_lib \<Rightarrow> nat \<Rightarrow> nat \<Rightarrow> DbCommand \<Rightarrow> db \<Rightarrow> (DbError, db_reply) outcome \<times> db" where
  "db_step N L now tie (InsertOperator op) d = (Ok NoReply, insert_operator N op d)"
| "db_step N L now tie (InsertValidator v) d = (Ok NoReply, insert_validator N v d)"
| "db_step N L now tie (DeleteOperator i) d = (Ok NoReply, delete_operator i d)"
| "db_step N L now tie (DeleteValidator k) d = (Ok NoReply, delete_validator k d)"
| "db_step N L now tie (QueryOperatorById i) d = reply_of OperatorReply (query_operator_by_id i d) d"
| "db_step N L now tie (QueryValidatorByPublicKey k) d = reply_of ValidatorReply (query_validator_by_public_key k d) d"
| "db_step N L now tie (QueryOperatorPublicKeyByIds is) d =
    reply_of KeysReply (query_operators_public_key_by_ids is d) d"
| "db_step N L now tie (QueryOperatorPublicKeyById i) d = reply_of KeyReply (query_operator_public_key_by_id i d) d"
| "db_step N L now tie (InsertInitiator ini) d = (Ok NoReply, insert_initiator N ini d)"
| "db_step N L now tie (UpdateInitiator i k a) d =
    (let (r, d') = update_initiator i k a d in reply_of CountReply r d')"
| "db_step N L now tie (QueryInitiator i) d = reply_of InitiatorReply (query_initiator N i d) d"
| "db_step N L now tie (QueryInitiatorReleaterOpPk i) d =
    reply_of (\<lambda>(ks, is). KeysIdsReply ks is) (query_initiator_releated_operator_pks i d) d"
| "db_step N L now tie QueryAllValidatorOwners d = reply_of AddressesReply (query_all_validator_address N d) d"
| "db_step N L now tie (QueryValidatorByAddress a) d = reply_of ValidatorsReply (query_validator_by_address N a d) d"
| "db_step N L now tie (DisableValidator k) d = (Ok NoReply, disable_validator k d)"
| "db_step N L now tie (EnableValidator k) d = (Ok NoReply, enable_validator k d)"
| "db_step N L now tie (ValidatorActive k) d = reply_of ActiveReply (if_validator_active k d) d"
| "db_step N L now tie (InsertContractCommand vid c) d = (Ok NoReply, insert_contract_command now vid c d)"
| "db_step N L now tie GetContractCommand d =
    (let (r, d') = get_contract_command tie now d in reply_of (\<lambda>(c, i). CommandReply c i) r d')"
| "db_step N L now tie (DeleteContractCommand i) d = (Ok NoReply, delete_contract_command i d)"
| "db_step N L now tie (UpdatetimeContractCommand i) d = (Ok NoReply, updatetime_contract_command now i d)"
| "db_step N L now tie (DeleteInitiator i) d =
    (let (r, d') = delete_initiator N i d in reply_of InitiatorReply r d')"
| "db_step N L now tie (InsertInitiatorStore r) d = (Ok NoReply, insert_initiator_store N r d)"
| "db_step N L now tie (QueryInitiatorStore i) d = reply_of StoreReply (query_initiator_store N L i d) d"

fun db_run ::
  "node_lib \<Rightarrow> ('p1, 'p2) blst_lib \<Rightarrow> (nat \<times> nat \<times> DbCommand) list \<Rightarrow> db \<Rightarrow> db" where
  "db_run N L [] d = d"
| "db_run N L ((now, tie, c) # cs) d = (case db_step N L now tie c d of
      (Panic _, d') \<Rightarrow> d'
    | (_, d') \<Rightarrow> db_run N L cs d')"

text \<open>The commands that the two client methods for a handled contract command send.\<close>

definition Database_delete_contract_command :: "u32 \<Rightarrow> DbCommand" where
  "Database_delete_contract_command i = DeleteContractCommand i"

definition Database_updatetime_contract_command :: "u32 \<Rightarrow> DbCommand" where
  "Database_updatetime_contract_command i = DeleteContractCommand i"

end
