(* ===== verification/Contract.thy ===== *)
theory Contract
  imports NodeDb DvfCore
begin

text \<open>
  The watcher of the contracts (\<open>src/src/node/contract.rs\<close>): the handlers of the six events, the task
  that fetches logs and dispatches them, and the monitor of paid blocks.

  The Ethereum client is a parameter.  \<open>eth_lib\<close> holds the ABI decoder; a \<open>web3\<close> value holds the answers
  that the client gives during one round of a task.  Handlers act on the database, whose task serves
  their commands in the order in which they are sent.
\<close>

section \<open>Logs, tokens and answers of the client\<close>

datatype Token = TAddress Address | TUint nat | TBytes bytes | TArray "Token list"

datatype ParamType = PAddress | PUint nat | PBytes | PArray ParamType

record eth_event =
  ev_name :: string
  ev_inputs :: "(string \<times> ParamType \<times> bool) list"

record Log =
  log_block_number :: "u64 option"
  log_topics :: "bytes list"
  log_data :: bytes

record eth_lib =
  parse_log :: "eth_event \<Rightarrow> bytes list \<Rightarrow> bytes \<Rightarrow> lib_error + Token list"

record web3 =
  w_block_number :: "lib_error + u64"
  w_operator_by_id :: "u32 \<Rightarrow> lib_error + (string \<times> Address \<times> bytes)"
  w_paid_block :: "Address \<Rightarrow> lib_error + nat"

datatype ContractError =
    StoreError
  | Web3Error lib_error
  | BlockNumberError lib_error
  | LogError
  | RecordFileError
  | LogParseError
  | NoEnoughOperatorError
  | DatabaseError
  | InvalidArgumentError
  | FileError
  | ContractParseError
  | QueryError

fun into_address :: "Token \<Rightarrow> Address option" where
  "into_address (TAddress a) = Some a"
| "into_address _ = None"

fun into_uint :: "Token \<Rightarrow> nat option" where
  "into_uint (TUint n) = Some n"
| "into_uint _ = None"

fun into_bytes :: "Token \<Rightarrow> bytes option" where
  "into_bytes (TBytes b) = Some b"
| "into_bytes _ = None"

fun into_array :: "Token \<Rightarrow> Token list option" where
  "into_array (TArray ts) = Some ts"
| "into_array _ = None"

definition ok_or :: "'a option \<Rightarrow> 'e \<Rightarrow> ('e, 'a) outcome" where
  "ok_or x e = (case x of Some a \<Rightarrow> Ok a | None \<Rightarrow> Err e)"

definition unwrap_option :: "'a option \<Rightarrow> ('e, 'a) outcome" where
  "unwrap_option x = (case x of Some a \<Rightarrow> Ok a | None \<Rightarrow> Panic ''called `Option::unwrap()` on a `None` value'')"

text \<open>\<open>U256::as_u32\<close> and \<open>as_u64\<close> panic on an overflow.\<close>

definition as_word :: "nat \<Rightarrow> ('e, 'w::len word) outcome" where
  "as_word n = (if n < 2 ^ LENGTH('w) then Ok (of_nat n) else Panic ''Integer overflow when casting'')"

definition param :: "(Token \<Rightarrow> 'a option) \<Rightarrow> nat \<Rightarrow> Token list \<Rightarrow> (ContractError, 'a) outcome" where
  "param conv i ts = (if i < length ts then ok_or (conv (ts ! i)) LogParseError
    else Panic ''index out of bounds'')"

fun mapO :: "('a \<Rightarrow> ('e, 'b) outcome) \<Rightarrow> 'a list \<Rightarrow> ('e, 'b list) outcome" where
  "mapO f [] = Ok []"
| "mapO f (x # xs) = bindO (f x) (\<lambda>y. bindO (mapO f xs) (\<lambda>ys. Ok (y # ys)))"

definition parse_bytes_token :: "nat \<Rightarrow> Token list \<Rightarrow> (ContractError, bytes list) outcome" where
  "parse_bytes_token i ts = bindO (param into_array i ts) (mapO (\<lambda>t. unwrap_option (into_bytes t)))"

definition op_ids_token :: "nat \<Rightarrow> Token list \<Rightarrow> (ContractError, u32 list) outcome" where
  "op_ids_token i ts = bindO (param into_array i ts)
    (mapO (\<lambda>t. bindO (unwrap_option (into_uint t)) as_word))"

definition parse :: "eth_lib \<Rightarrow> string \<Rightarrow> (string \<times> ParamType \<times> bool) list \<Rightarrow> Log \<Rightarrow> (ContractError, Token list) outcome" where
  "parse E n ps l = map_err (\<lambda>_. LogParseError)
    (of_sum (parse_log E \<lparr>ev_name = n, ev_inputs = ps\<rparr> (log_topics l) (log_data l)))"

section \<open>Calls of the contracts\<close>

definition get_current_block :: "web3 \<Rightarrow> (ContractError, u64) outcome" where
  "get_current_block w = map_err BlockNumberError (of_sum (w_block_number w))"

definition query_operator_from_contract :: "u32 \<Rightarrow> web3 \<Rightarrow> (ContractError, ContractOperator) outcome" where
  "query_operator_from_contract i w = bindO (map_err (\<lambda>_. QueryError) (of_sum (w_operator_by_id w i)))
    (\<lambda>(name, a, pk). Ok \<lparr>cop_id = i, cop_name = name, cop_address = a, cop_public_key = pk\<rparr>)"

definition check_account :: "Address \<Rightarrow> web3 \<Rightarrow> (ContractError, bool) outcome" where
  "check_account owner w = bindO (map_err (\<lambda>_. QueryError) (of_sum (w_paid_block w owner))) (\<lambda>paid_block.
    bindO (get_current_block w) (\<lambda>current_block.
    bindO (as_word paid_block) (\<lambda>paid. Ok (paid \<le> current_block))))"

section \<open>Handlers\<close>

text \<open>The keys of the operators: from the database, or else from the registry, which is then stored.\<close>

fun operator_pks :: "node_lib \<Rightarrow> web3 \<Rightarrow> u32 list \<Rightarrow> (db, ContractError, string list) act" where
  "operator_pks N w [] = retM []"
| "operator_pks N w (i # is) =
    bindM (bindM (getM (query_operator_public_key_by_id i)) (\<lambda>r. liftO (map_err (\<lambda>_. DatabaseError) r))) (\<lambda>pk.
    bindM (case pk of
        Some s \<Rightarrow> retM s
      | None \<Rightarrow> bindM (liftO (query_operator_from_contract i w)) (\<lambda>op.
          thenM (modM (insert_operator N op)) (retM (b64_encode N (cop_public_key op))))) (\<lambda>s.
    bindM (operator_pks N w is) (\<lambda>ss. retM (s # ss))))"

definition decode_pks :: "node_lib \<Rightarrow> string list \<Rightarrow> ('e, bytes list) outcome" where
  "decode_pks N = mapO (\<lambda>s. unwrap_sum (b64_decode N s) unwrap_panic)"

definition send_command :: "node_lib \<Rightarrow> nat \<Rightarrow> u64 \<Rightarrow> ContractCommand \<Rightarrow> (db, ContractError, unit) act" where
  "send_command N now i cmd = modM (insert_contract_command now i (ser_cmd N cmd))"

definition process_validator_registration ::
  "node_lib \<Rightarrow> eth_lib \<Rightarrow> nat \<Rightarrow> string \<Rightarrow> web3 \<Rightarrow> Log \<Rightarrow> (db, ContractError, unit) act" where
  "process_validator_registration N E now operator_pk_base64 w raw_log =
    bindM (liftO (parse E ''ValidatorRegistration'' [(''ownerAddress'', PAddress, True),
      (''publicKey'', PBytes, False), (''operatorIds'', PArray (PUint 32), False),
      (''sharesPublicKeys'', PArray PBytes, False), (''encryptedKeys'', PArray PBytes, False),
      (''paidBlockNumber'', PUint 256, False)] raw_log)) (\<lambda>log.
    bindM (liftO (param into_address 0 log)) (\<lambda>owner.
    bindM (liftO (param into_bytes 1 log)) (\<lambda>va_pk.
    bindM (liftO (convert_va_pk_to_u64 va_pk)) (\<lambda>validator_id.
    bindM (liftO (op_ids_token 2 log)) (\<lambda>op_ids.
    bindM (operator_pks N w op_ids) (\<lambda>pks.
    whenM (operator_pk_base64 \<in> set pks)
     (bindM (liftO (parse_bytes_token 3 log)) (\<lambda>shared_pks.
      bindM (liftO (parse_bytes_token 4 log)) (\<lambda>encrypted_sks.
      bindM (liftO (bindO (param into_uint 5 log) (as_word :: _ \<Rightarrow> (_, u64) outcome))) (\<lambda>_.
      thenM (liftO (if length shared_pks \<noteq> length encrypted_sks then Err InvalidArgumentError else Ok ()))
     (bindM (liftO (decode_pks N pks)) (\<lambda>op_pk_bn.
      let validator = \<lparr>va_id = validator_id, va_owner_address = owner, va_public_key = va_pk,
            va_releated_operators = op_ids, va_active = True\<rparr> in
      thenM (modM (insert_validator N validator))
        (send_command N now validator_id (StartValidator validator op_pk_bn shared_pks encrypted_sks))))))))))))))"

definition process_validator_removal ::
  "node_lib \<Rightarrow> eth_lib \<Rightarrow> nat \<Rightarrow> Log \<Rightarrow> (db, ContractError, unit) act" where
  "process_validator_removal N E now raw_log =
    bindM (liftO (parse E ''ValidatorRemoval'' [(''ownerAddress'', PAddress, True),
      (''publicKey'', PBytes, False)] raw_log)) (\<lambda>log.
    bindM (liftO (param into_address 0 log)) (\<lambda>owner.
    bindM (liftO (param into_bytes 1 log)) (\<lambda>va_pk.
    bindM (liftO (convert_va_pk_to_u64 va_pk)) (\<lambda>i.
    send_command N now i (RemoveValidator \<lparr>va_id = i, va_owner_address = owner, va_public_key = va_pk,
      va_releated_operators = [], va_active = True\<rparr>)))))"

definition process_initiator_registration ::
  "node_lib \<Rightarrow> eth_lib \<Rightarrow> nat \<Rightarrow> string \<Rightarrow> web3 \<Rightarrow> Log \<Rightarrow> (db, ContractError, unit) act" where
  "process_initiator_registration N E now operator_pk_base64 w raw_log =
    bindM (liftO (parse E ''InitiatorRegistration'' [(''initiatorId'', PUint 32, False),
      (''ownerAddress'', PAddress, False), (''operatorIds'', PArray (PUint 32), False)] raw_log)) (\<lambda>log.
    bindM (liftO (bindO (param into_uint 0 log) as_word)) (\<lambda>i.
    bindM (liftO (param into_address 1 log)) (\<lambda>owner.
    bindM (liftO (op_ids_token 2 log)) (\<lambda>op_ids.
    bindM (operator_pks N w op_ids) (\<lambda>pks.
    whenM (operator_pk_base64 \<in> set pks)
     (bindM (liftO (decode_pks N pks)) (\<lambda>op_pk_bn.
      let initiator = \<lparr>ini_id = i, ini_owner_address = owner, ini_releated_operators = op_ids,
            ini_validator_pk = None, ini_minipool_address = None\<rparr> in
      thenM (modM (insert_initiator N initiator))
        (send_command N now (ucast i) (StartInitiator initiator op_pk_bn)))))))))"

definition releated_op_pks :: "node_lib \<Rightarrow> u32 \<Rightarrow> (db, ContractError, bytes list \<times> u32 list) act" where
  "releated_op_pks N i = bindM (getM (query_initiator_releated_operator_pks i)) (\<lambda>r.
    bindM (liftO (map_err (\<lambda>_. DatabaseError) r)) (\<lambda>(op_pks, op_ids).
    bindM (liftO (decode_pks N op_pks)) (\<lambda>op_pk_bns. retM (op_pk_bns, op_ids))))"

definition process_initiator_removal ::
  "node_lib \<Rightarrow> eth_lib \<Rightarrow> nat \<Rightarrow> Log \<Rightarrow> (db, ContractError, unit) act" where
  "process_initiator_removal N E now raw_log =
    bindM (liftO (parse E ''InitiatorRemoval'' [(''initiatorId'', PUint 32, False)] raw_log)) (\<lambda>log.
    bindM (liftO (bindO (param into_uint 0 log) as_word)) (\<lambda>i.
    bindM (bindM (getM (query_initiator N i)) (\<lambda>r. liftO (map_err (\<lambda>_. DatabaseError) r))) (\<lambda>found.
    case found of
      None \<Rightarrow> liftO (Err DatabaseError)
    | Some initiator \<Rightarrow>
        if ini_validator_pk initiator = None then liftO (Err DatabaseError)
        else bindM (releated_op_pks N i) (\<lambda>(op_pk_bns, _).
          send_command N now (ucast i) (RemoveInitiator initiator op_pk_bns)))))"

definition process_minipool_created ::
  "node_lib \<Rightarrow> eth_lib \<Rightarrow> nat \<Rightarrow> Log \<Rightarrow> (db, ContractError, unit) act" where
  "process_minipool_created N E now raw_log =
    bindM (liftO (parse E ''InitiatorMiniPoolCreated'' [(''initiatorId'', PUint 32, False),
      (''validatorPublicKey'', PBytes, False), (''minipoolAddress'', PAddress, False)] raw_log)) (\<lambda>log.
    bindM (liftO (bindO (param into_uint 0 log) as_word)) (\<lambda>i.
    bindM (liftO (param into_bytes 1 log)) (\<lambda>va_pk.
    bindM (liftO (param into_address 2 log)) (\<lambda>minipool_address.
    bindM (\<lambda>d. let (r, d') = update_initiator i (hex_encode N va_pk) (hex_address N minipool_address) d in
      (map_err (\<lambda>_. DatabaseError) r, d')) (\<lambda>updated.
    whenM (updated \<noteq> 0)
     (bindM (releated_op_pks N i) (\<lambda>(op_pk_bns, op_ids).
      send_command N now (ucast i) (MiniPoolCreated i va_pk op_pk_bns op_ids minipool_address))))))))"

definition process_minipool_ready ::
  "node_lib \<Rightarrow> eth_lib \<Rightarrow> nat \<Rightarrow> Log \<Rightarrow> (db, ContractError, unit) act" where
  "process_minipool_ready N E now raw_log =
    bindM (liftO (parse E ''InitiatorMiniPoolReady'' [(''initiatorId'', PUint 32, False)] raw_log)) (\<lambda>log.
    bindM (liftO (bindO (param into_uint 0 log) as_word)) (\<lambda>i.
    bindM (bindM (getM (query_initiator N i)) (\<lambda>r. liftO (map_err (\<lambda>_. DatabaseError) r))) (\<lambda>found.
    case found of
      None \<Rightarrow> retM ()
    | Some initiator \<Rightarrow>
        bindM (liftO (ok_or (ini_validator_pk initiator) DatabaseError)) (\<lambda>validator_pk.
        bindM (liftO (ok_or (ini_minipool_address initiator) DatabaseError)) (\<lambda>minipool_address.
        bindM (releated_op_pks N i) (\<lambda>(op_pk_bns, op_ids).
        send_command N now (ucast i) (MiniPoolReady i validator_pk op_pk_bns op_ids minipool_address)))))))"

section \<open>The tasks\<close>

datatype TopicHandler =
    ValidatorRegistrationHandler
  | ValidatorRemovalHandler
  | InitiatorRegistrationHandler
  | MinipoolCreatedHandler
  | MinipoolReadyHandler
  | InitiatorRemovalHandler

fun process :: "TopicHandler \<Rightarrow> node_lib \<Rightarrow> eth_lib \<Rightarrow> nat \<Rightarrow> string \<Rightarrow> web3 \<Rightarrow> Log \<Rightarrow> (db, ContractError, unit) act" where
  "process ValidatorRegistrationHandler N E now pk w l = process_validator_registration N E now pk w l"
| "process ValidatorRemovalHandler N E now pk w l = process_validator_removal N E now l"
| "process InitiatorRegistrationHandler N E now pk w l = process_initiator_registration N E now pk w l"
| "process MinipoolCreatedHandler N E now pk w l = process_minipool_created N E now l"
| "process MinipoolReadyHandler N E now pk w l = process_minipool_ready N E now l"
| "process InitiatorRemovalHandler N E now pk w l = process_initiator_removal N E now l"

record ContractConfig =
  validator_registration_topic :: string
  validator_removal_topic :: string
  initiator_registration_topic :: string
  initiator_minipool_created_topic :: string
  initiator_minipool_ready_topic :: string
  initiator_removal_topic :: string

text \<open>The topics that the two filters ask for, and the handler of each topic.\<close>

definition construct_filter ::
  "node_lib \<Rightarrow> ContractConfig \<Rightarrow> (ContractError, bytes list \<times> bytes list \<times> (bytes \<times> TopicHandler) list) outcome" where
  "construct_filter N config =
    bindO (mapO (\<lambda>t. bindO (unwrap_sum (hex_decode N t) unwrap_panic) Hash256_from_slice)
      [validator_registration_topic config, validator_removal_topic config, initiator_registration_topic config,
       initiator_minipool_created_topic config, initiator_minipool_ready_topic config, initiator_removal_topic config])
    (\<lambda>ts. Ok ([ts ! 0, ts ! 1], [ts ! 2, ts ! 3, ts ! 4, ts ! 5],
      fold (\<lambda>(t, h) m. AList.update t h m) (zip ts [ValidatorRegistrationHandler, ValidatorRemovalHandler,
        InitiatorRegistrationHandler, MinipoolCreatedHandler, MinipoolReadyHandler, InitiatorRemovalHandler]) []))"

record Contract =
  block_num :: u64
  record_file :: "u64 option"
  contract_db :: db
  operator_pk :: bytes
  handlers :: "(bytes \<times> TopicHandler) list"
  handled :: "Log list"

text \<open>
  \<open>Contract::new\<close> takes the block from the record file or, when the file cannot be read, the current one;
  \<open>saved\<close> is what the file holds.  \<open>handled\<close> lists the logs that were passed to a handler and models
  nothing of the code.
\<close>

definition Contract_new :: "u64 option \<Rightarrow> bytes \<Rightarrow> db \<Rightarrow> web3 \<Rightarrow> (ContractError, Contract) outcome" where
  "Contract_new saved pk d w = bindO (case saved of Some b \<Rightarrow> Ok b | None \<Rightarrow> get_current_block w) (\<lambda>b.
    Ok \<lparr>block_num = b, record_file = saved, contract_db = d, operator_pk = pk, handlers = [], handled = []\<rparr>)"

definition check_operator_id :: "node_lib \<Rightarrow> u32 \<Rightarrow> web3 \<Rightarrow> (Contract, ContractError, unit) act" where
  "check_operator_id N self_id w = (case query_operator_from_contract self_id w of
      Ok op \<Rightarrow> bindM (getM operator_pk) (\<lambda>pk.
        if cop_public_key op \<noteq> pk
        then liftO (Panic ''operator id is not consistent with smart contract! Please input right operator id'')
        else modM (\<lambda>s. s\<lparr>contract_db := insert_operator N op (contract_db s)\<rparr>))
    | Panic p \<Rightarrow> liftO (Panic p)
    | _ \<Rightarrow> retM ())"

text \<open>An action on the database whose error is only logged; a panic ends the task.\<close>

definition logged :: "(db, ContractError, unit) act \<Rightarrow> (Contract, ContractError, unit) act" where
  "logged m s = (case m (contract_db s) of
      (Panic p, d) \<Rightarrow> (Panic p, s\<lparr>contract_db := d\<rparr>)
    | (_, d) \<Rightarrow> (Ok (), s\<lparr>contract_db := d\<rparr>))"

definition handle_log ::
  "node_lib \<Rightarrow> eth_lib \<Rightarrow> nat \<Rightarrow> web3 \<Rightarrow> Log \<Rightarrow> (Contract, ContractError, unit) act" where
  "handle_log N E now w l =
    bindM (liftO (unwrap_option (log_block_number l))) (\<lambda>b.
    thenM (modM (\<lambda>s. s\<lparr>block_num := b + 1\<rparr>))
   (bindM (liftO (if log_topics l = [] then Panic ''index out of bounds'' else Ok (hd (log_topics l)))) (\<lambda>topic.
    bindM (getM (\<lambda>s. (map_of (handlers s) topic, operator_pk s))) (\<lambda>(h, pk).
    case h of
      None \<Rightarrow> retM ()
    | Some handler \<Rightarrow>
        thenM (modM (\<lambda>s. s\<lparr>handled := handled s @ [l]\<rparr>))
          (logged (process handler N E now (b64_encode N pk) w l))))))"

text \<open>
  One round of \<open>get_logs_from_contract\<close>.  The two queries are given as functions of what the filter asks
  for, the block to start from and the limit on the number of logs; the round asks for at most 20 logs of
  each kind.  A query that fails contributes nothing.
\<close>

record log_tick =
  lt_va :: "u64 \<Rightarrow> nat \<Rightarrow> lib_error + Log list"
  lt_initiator :: "u64 \<Rightarrow> nat \<Rightarrow> lib_error + Log list"
  lt_web3 :: web3
  lt_now :: nat
  lt_file_ok :: bool

definition logs_or_none :: "lib_error + Log list \<Rightarrow> Log list" where
  "logs_or_none r = (case r of Inr ls \<Rightarrow> ls | Inl _ \<Rightarrow> [])"

definition block_of :: "Log \<Rightarrow> u64" where
  "block_of l = (case log_block_number l of Some b \<Rightarrow> b | None \<Rightarrow> 0)"

definition update_record_file :: "bool \<Rightarrow> (Contract, ContractError, unit) act" where
  "update_record_file file_ok = (if file_ok then modM (\<lambda>s. s\<lparr>record_file := Some (block_num s)\<rparr>)
    else liftO (Panic unwrap_panic))"

definition logs_round :: "node_lib \<Rightarrow> eth_lib \<Rightarrow> log_tick \<Rightarrow> (Contract, ContractError, unit) act" where
  "logs_round N E t = bindM (getM block_num) (\<lambda>from_block.
    let all_logs = logs_or_none (lt_va t from_block 20) @ logs_or_none (lt_initiator t from_block 20) in
    thenM
     (if all_logs = [] then
        (case get_current_block (lt_web3 t) of
           Ok b \<Rightarrow> modM (\<lambda>s. s\<lparr>block_num := b\<rparr>)
         | _ \<Rightarrow> retM ())
      else if 2 \<le> length all_logs \<and> (\<exists>l \<in> set all_logs. log_block_number l = None)
      then liftO (Panic ''called `Option::unwrap()` on a `None` value'')
      else forM (sort_key block_of all_logs) (handle_log N E (lt_now t) (lt_web3 t)))
     (update_record_file (lt_file_ok t)))"

definition logs_run :: "node_lib \<Rightarrow> eth_lib \<Rightarrow> log_tick list \<Rightarrow> (Contract, ContractError, unit) act" where
  "logs_run N E ts = forM ts (logs_round N E)"

text \<open>One round of \<open>monitor_validator_paidblock\<close>.\<close>

definition paidblock_validator :: "node_lib \<Rightarrow> nat \<Rightarrow> bool \<Rightarrow> Validator \<Rightarrow> (db, ContractError, unit) act" where
  "paidblock_validator N now overdue va =
    (if overdue then
       whenM (va_active va) (thenM (modM (disable_validator (hex_encode N (va_public_key va))))
         (send_command N now (va_id va) (StopValidator va)))
     else
       whenM (\<not> va_active va) (thenM (modM (enable_validator (hex_encode N (va_public_key va))))
         (send_command N now (va_id va) (ActivateValidator va))))"

definition paidblock_owner :: "node_lib \<Rightarrow> nat \<Rightarrow> web3 \<Rightarrow> Address \<Rightarrow> (db, ContractError, unit) act" where
  "paidblock_owner N now w owner = (case check_account owner w of
      Ok overdue \<Rightarrow> bindM (getM (query_validator_by_address N owner)) (\<lambda>r. case r of
          Ok vas \<Rightarrow> forM vas (paidblock_validator N now overdue)
        | Panic p \<Rightarrow> liftO (Panic p)
        | _ \<Rightarrow> retM ())
    | Panic p \<Rightarrow> liftO (Panic p)
    | _ \<Rightarrow> retM ())"

definition paidblock_round :: "node_lib \<Rightarrow> nat \<Rightarrow> web3 \<Rightarrow> (db, ContractError, unit) act" where
  "paidblock_round N now w = bindM (getM (query_all_validator_address N)) (\<lambda>r. case r of
      Ok owners \<Rightarrow> forM owners (paidblock_owner N now w)
    | Panic p \<Rightarrow> liftO (Panic p)
    | _ \<Rightarrow> retM ())"

end
