(* ===== verification/Doppelganger.thy ===== *)
theory Doppelganger
  imports Prelude
begin

text \<open>
  Doppelganger protection (\<open>src/validation/doppelganger_service.rs\<close>).  A validator that is registered
  must be seen to be silent for an epoch before it may sign; the service asks a beacon node every slot
  which validators were live in the current and in the previous epoch.

  The arithmetic of slots and epochs belongs to the specification type of the consensus library and is
  a parameter, with its laws in \<open>slots_ok\<close>; both are wrapped \<open>u64\<close> values.  The table of states is shared
  with the tasks that register validators, so the service is a sequence of events: a tick, which
  computes whom to ask for, and the answer, which is processed against the table as it is by then.  The
  code locks the table for each entry of the answer; here the entries are processed in one step.
\<close>

section \<open>Slots and epochs\<close>

type_synonym Epoch = u64
type_synonym Slot = u64
type_synonym PublicKeyBytes = bytes

record slot_lib =
  slot_epoch :: "Slot \<Rightarrow> Epoch"
  end_slot :: "Epoch \<Rightarrow> Slot"

definition slots_ok :: "slot_lib \<Rightarrow> bool" where
  "slots_ok S \<longleftrightarrow> (\<forall>s t. s \<le> t \<longrightarrow> slot_epoch S s \<le> slot_epoch S t) \<and> (\<forall>s. s \<le> end_slot S (slot_epoch S s)) \<and>
    (\<forall>s. slot_epoch S (end_slot S (slot_epoch S s)) = slot_epoch S s)"

definition saturating_add :: "u64 \<Rightarrow> u64 \<Rightarrow> u64" where
  "saturating_add a b = (if a + b < a then - 1 else a + b)"

definition saturating_sub :: "u64 \<Rightarrow> u64 \<Rightarrow> u64" where
  "saturating_sub a b = (if a < b then 0 else a - b)"

section \<open>The status of a validator\<close>

datatype DoppelgangerStatus =
    SigningEnabled PublicKeyBytes
  | SigningDisabled PublicKeyBytes
  | UnknownToDoppelganger PublicKeyBytes

fun only_safe :: "DoppelgangerStatus \<Rightarrow> PublicKeyBytes option" where
  "only_safe (SigningEnabled pubkey) = Some pubkey"
| "only_safe (SigningDisabled _) = None"
| "only_safe (UnknownToDoppelganger _) = None"

fun ignored :: "DoppelgangerStatus \<Rightarrow> PublicKeyBytes option" where
  "ignored (SigningEnabled pubkey) = Some pubkey"
| "ignored (SigningDisabled pubkey) = Some pubkey"
| "ignored (UnknownToDoppelganger _) = None"

fun only_unsafe :: "DoppelgangerStatus \<Rightarrow> PublicKeyBytes option" where
  "only_unsafe (SigningEnabled _) = None"
| "only_unsafe (SigningDisabled pubkey) = Some pubkey"
| "only_unsafe (UnknownToDoppelganger pubkey) = Some pubkey"

record LivenessResponseData =
  lr_index :: u64
  lr_epoch :: Epoch
  lr_is_live :: bool

record LivenessResponses =
  current_epoch_responses :: "LivenessResponseData list"
  previous_epoch_responses :: "LivenessResponseData list"

definition DEFAULT_REMAINING_DETECTION_EPOCHS :: u64 where
  "DEFAULT_REMAINING_DETECTION_EPOCHS = 1"

record DoppelgangerState =
  next_check_epoch :: Epoch
  remaining_epochs :: u64

definition requires_further_checks :: "DoppelgangerState \<Rightarrow> bool" where
  "requires_further_checks s \<longleftrightarrow> 0 < remaining_epochs s"

definition complete_detection_in_epoch :: "Epoch \<Rightarrow> DoppelgangerState \<Rightarrow> DoppelgangerState" where
  "complete_detection_in_epoch e s =
    s\<lparr>remaining_epochs := saturating_sub (remaining_epochs s) 1, next_check_epoch := saturating_add e 1\<rparr>"

text \<open>
  The two requests to the beacon nodes: \<open>query\<close> gives what \<open>first_success\<close> returns.  A failed request
  counts as an empty answer.
\<close>

definition beacon_node_liveness ::
  "(Epoch \<Rightarrow> u64 list \<Rightarrow> string + LivenessResponseData list) \<Rightarrow> Epoch \<Rightarrow> u64 list \<Rightarrow> LivenessResponses" where
  "beacon_node_liveness query current_epoch indices =
    (let previous_epoch = saturating_sub current_epoch 1;
         previous = (if previous_epoch = current_epoch then []
           else case query previous_epoch indices of Inr data \<Rightarrow> data | Inl _ \<Rightarrow> []);
         current = (case query current_epoch indices of Inr data \<Rightarrow> data | Inl _ \<Rightarrow> []) in
     \<lparr>current_epoch_responses = current, previous_epoch_responses = previous\<rparr>)"

section \<open>The service\<close>

type_synonym dg_states = "(PublicKeyBytes \<times> DoppelgangerState) list"

datatype dg_error =
    ClockError
  | WrongEpoch Epoch Epoch
  | InconsistentIndices u64
  | InconsistentStates PublicKeyBytes

definition validator_status :: "dg_states \<Rightarrow> PublicKeyBytes \<Rightarrow> DoppelgangerStatus" where
  "validator_status states validator = (case map_of states validator of
      Some v \<Rightarrow> if requires_further_checks v then SigningDisabled validator else SigningEnabled validator
    | None \<Rightarrow> UnknownToDoppelganger validator)"

definition register_new_validator ::
  "slot_lib \<Rightarrow> Slot option \<Rightarrow> Slot \<Rightarrow> PublicKeyBytes \<Rightarrow> dg_states \<Rightarrow> dg_error + dg_states" where
  "register_new_validator S now_or_genesis genesis_slot validator states = (case now_or_genesis of
      None \<Rightarrow> Inl ClockError
    | Some now \<Rightarrow>
        let current_epoch = slot_epoch S now; genesis_epoch = slot_epoch S genesis_slot;
            remaining = (if current_epoch \<le> genesis_epoch then 0 else DEFAULT_REMAINING_DETECTION_EPOCHS) in
        Inr (AList.update validator \<lparr>next_check_epoch = saturating_add current_epoch 1,
          remaining_epochs = remaining\<rparr> states))"

definition compute_detection_indices_map ::
  "(PublicKeyBytes \<Rightarrow> u64 option) \<Rightarrow> dg_states \<Rightarrow> (u64 \<times> PublicKeyBytes) list" where
  "compute_detection_indices_map get_index states =
    fold (\<lambda>pubkey m. case get_index pubkey of Some index \<Rightarrow> AList.update index pubkey m | None \<Rightarrow> m)
      (map fst (filter (\<lambda>(_, s). requires_further_checks s) states)) []"

definition is_violator ::
  "(u64 \<times> PublicKeyBytes) list \<Rightarrow> dg_states \<Rightarrow> LivenessResponseData \<Rightarrow> bool" where
  "is_violator indices states r =
    (lr_is_live r \<and> (case map_of indices (lr_index r) of
        None \<Rightarrow> False
      | Some pubkey \<Rightarrow> (case map_of states pubkey of
          None \<Rightarrow> False
        | Some s \<Rightarrow> next_check_epoch s \<le> lr_epoch r)))"

definition violators ::
  "(u64 \<times> PublicKeyBytes) list \<Rightarrow> dg_states \<Rightarrow> LivenessResponses \<Rightarrow> u64 set" where
  "violators indices states rs = set (map lr_index
    (filter (is_violator indices states) (previous_epoch_responses rs @ current_epoch_responses rs)))"

fun update_states ::
  "Epoch \<Rightarrow> bool \<Rightarrow> bool \<Rightarrow> (u64 \<times> PublicKeyBytes) list \<Rightarrow> LivenessResponseData list \<Rightarrow> dg_states \<Rightarrow>
    (dg_error + unit) \<times> dg_states" where
  "update_states previous satisfied violated indices [] states = (Inr (), states)"
| "update_states previous satisfied violated indices (r # rs) states =
    (if lr_epoch r \<noteq> previous then (Inl (WrongEpoch (lr_epoch r) previous), states)
     else case map_of indices (lr_index r) of
       None \<Rightarrow> (Inl (InconsistentIndices (lr_index r)), states)
     | Some pubkey \<Rightarrow> (case map_of states pubkey of
         None \<Rightarrow> (Inl (InconsistentStates pubkey), states)
       | Some s \<Rightarrow>
           let s' = (if violated then s\<lparr>remaining_epochs := - 1\<rparr>
             else if \<not> lr_is_live r \<and> satisfied \<and> next_check_epoch s \<le> previous
               then complete_detection_in_epoch previous s
             else s) in
           update_states previous satisfied violated indices rs (AList.update pubkey s' states)))"

text \<open>The result, the new states and whether the shutdown was requested.\<close>

definition process_liveness_responses ::
  "slot_lib \<Rightarrow> Slot \<Rightarrow> LivenessResponses \<Rightarrow> (u64 \<times> PublicKeyBytes) list \<Rightarrow> dg_states \<Rightarrow>
    (dg_error + unit) \<times> dg_states \<times> bool" where
  "process_liveness_responses S request_slot rs indices states =
    (let request_epoch = slot_epoch S request_slot;
         previous_epoch = saturating_sub request_epoch 1;
         violators_exist = (violators indices states rs \<noteq> {});
         satisfied = (end_slot S (saturating_add previous_epoch 1) \<le> request_slot);
         (r, states') = update_states previous_epoch satisfied violators_exist indices
           (previous_epoch_responses rs) states in
     case r of
       Inl e \<Rightarrow> (Inl e, states', False)
     | Inr _ \<Rightarrow> (Inr (), states', violators_exist))"

section \<open>Events\<close>

record dg_service =
  doppelganger_states :: dg_states
  asked :: "(Slot \<times> (u64 \<times> PublicKeyBytes) list) option"
  shutdowns :: nat

definition DoppelgangerService_new :: dg_service where
  "DoppelgangerService_new = \<lparr>doppelganger_states = [], asked = None, shutdowns = 0\<rparr>"

datatype dg_event =
    DgRegister PublicKeyBytes "Slot option" Slot
  | DgTick Slot "PublicKeyBytes \<Rightarrow> u64 option"
  | DgAnswer "Epoch \<Rightarrow> u64 list \<Rightarrow> string + LivenessResponseData list"

text \<open>\<open>detect_doppelgangers\<close> up to the request, and from the answer on.\<close>

definition detect_ask :: "Slot \<Rightarrow> (PublicKeyBytes \<Rightarrow> u64 option) \<Rightarrow> dg_service \<Rightarrow> dg_service" where
  "detect_ask slot get_index s =
    (let indices = compute_detection_indices_map get_index (doppelganger_states s) in
     if indices = [] then s else s\<lparr>asked := Some (slot, indices)\<rparr>)"

definition detect_answer ::
  "slot_lib \<Rightarrow> (Epoch \<Rightarrow> u64 list \<Rightarrow> string + LivenessResponseData list) \<Rightarrow> dg_service \<Rightarrow> dg_service" where
  "detect_answer S query s = (case asked s of
      None \<Rightarrow> s
    | Some (slot, indices) \<Rightarrow>
        let rs = beacon_node_liveness query (slot_epoch S slot) (map fst indices);
            (_, states, down) = process_liveness_responses S slot rs indices (doppelganger_states s) in
        s\<lparr>doppelganger_states := states, asked := None,
          shutdowns := (if down then Suc (shutdowns s) else shutdowns s)\<rparr>)"

fun dg_step :: "slot_lib \<Rightarrow> dg_event \<Rightarrow> dg_service \<Rightarrow> dg_service" where
  "dg_step S (DgRegister validator now genesis_slot) s =
    (case register_new_validator S now genesis_slot validator (doppelganger_states s) of
       Inl _ \<Rightarrow> s | Inr states \<Rightarrow> s\<lparr>doppelganger_states := states\<rparr>)"
| "dg_step S (DgTick slot get_index) s = (if asked s = None then detect_ask slot get_index s else s)"
| "dg_step S (DgAnswer query) s = detect_answer S query s"

definition dg_run :: "slot_lib \<Rightarrow> dg_event list \<Rightarrow> dg_service \<Rightarrow> dg_service" where
  "dg_run S es s = fold (dg_step S) es s"

section \<open>Waiting\<close>

text \<open>A validator that must still be checked, from epoch \<open>n\<close> on.\<close>

definition awaits_checks :: "PublicKeyBytes \<Rightarrow> Epoch \<Rightarrow> dg_states \<Rightarrow> bool" where
  "awaits_checks v n states \<longleftrightarrow> (case map_of states v of
    None \<Rightarrow> False | Some s \<Rightarrow> 0 < remaining_epochs s \<and> n \<le> next_check_epoch s)"

text \<open>An answer of the beacon nodes that clears it: silent in an epoch that is over.\<close>

definition quiet_epoch ::
  "slot_lib \<Rightarrow> PublicKeyBytes \<Rightarrow> Epoch \<Rightarrow> (Epoch \<Rightarrow> u64 list \<Rightarrow> string + LivenessResponseData list) \<Rightarrow> dg_service \<Rightarrow> bool" where
  "quiet_epoch S v n query s \<longleftrightarrow> (\<exists>slot indices e rs. asked s = Some (slot, indices) \<and>
    e = saturating_sub (slot_epoch S slot) 1 \<and> n \<le> e \<and> end_slot S (saturating_add e 1) \<le> slot \<and>
    query e (map fst indices) = Inr rs \<and>
    (\<exists>r \<in> set rs. map_of indices (lr_index r) = Some v \<and> lr_epoch r = e \<and> \<not> lr_is_live r) \<and>
    violators indices (doppelganger_states s) (beacon_node_liveness query (slot_epoch S slot) (map fst indices)) = {})"

lemma max_pos: "(0 :: u64) < - 1"
  by (simp add: word_gt_0)

lemma saturating_succ:
  assumes "a < - 1"
  shows "saturating_add a 1 = a + 1"
proof -
  have "unat a < 2 ^ 64 - 1" using assms by (simp add: word_less_nat_alt unsigned_minus_1_eq_mask mask_eq_exp_minus_1)
  then have "unat (a + 1) = Suc (unat a)" by (simp add: unat_word_ariths)
  then show ?thesis by (simp add: saturating_add_def word_less_nat_alt)
qed

lemma update_states_awaits:
  assumes "update_states e sat viol indices rs states = (res, states')" "awaits_checks v n states"
  shows "awaits_checks v n states' \<or> (\<not> viol \<and> sat \<and> n \<le> e \<and>
    (\<exists>r \<in> set rs. map_of indices (lr_index r) = Some v \<and> lr_epoch r = e \<and> \<not> lr_is_live r))"
  using assms
proof (induction e sat viol indices rs states arbitrary: res states' rule: update_states.induct)
  case (2 e sat viol indices r rs states)
  show ?case
  proof (cases "lr_epoch r = e")
    case True
    show ?thesis
    proof (cases "map_of indices (lr_index r)")
      case (Some pubkey)
      note i = this
      show ?thesis
      proof (cases "map_of states pubkey")
        case (Some s)
        let ?s' = "if viol then s\<lparr>remaining_epochs := - 1\<rparr>
          else if \<not> lr_is_live r \<and> sat \<and> next_check_epoch s \<le> e then complete_detection_in_epoch e s else s"
        have u: "update_states e sat viol indices rs (AList.update pubkey ?s' states) = (res, states')"
          using "2.prems"(1) True i Some by (simp add: Let_def)
        show ?thesis
        proof (cases "awaits_checks v n (AList.update pubkey ?s' states)")
          case aw: True
          show ?thesis using "2.IH" [OF _ i Some refl u aw] True by auto
        next
          case False
          then have "pubkey = v" "\<not> viol" "\<not> lr_is_live r" "sat" "next_check_epoch s \<le> e"
            using "2.prems"(2) Some by (auto simp: awaits_checks_def update_conv' max_pos split: if_splits)
          moreover have "n \<le> next_check_epoch s"
            using "2.prems"(2) Some calculation(1) by (simp add: awaits_checks_def)
          ultimately show ?thesis using True i by auto
        qed
      qed (use "2.prems" True i in simp)
    qed (use "2.prems" True in simp)
  qed (use "2.prems" in simp)
qed simp

lemma process_awaits:
  assumes "process_liveness_responses S slot rs indices states = (res, states', down)" "awaits_checks v n states"
  defines "e \<equiv> saturating_sub (slot_epoch S slot) 1"
  shows "awaits_checks v n states' \<or> (violators indices states rs = {} \<and> end_slot S (saturating_add e 1) \<le> slot \<and> n \<le> e \<and>
    (\<exists>r \<in> set (previous_epoch_responses rs). map_of indices (lr_index r) = Some v \<and> lr_epoch r = e \<and> \<not> lr_is_live r))"
proof -
  let ?sat = "end_slot S (saturating_add e 1) \<le> slot" and ?viol = "violators indices states rs \<noteq> {}"
  obtain r where "update_states e ?sat ?viol indices (previous_epoch_responses rs) states = (r, states')"
    using assms(1) by (auto simp: process_liveness_responses_def e_def Let_def split: prod.splits sum.splits)
  from update_states_awaits [OF this assms(2)] show ?thesis by auto
qed

lemma step_awaits:
  assumes "awaits_checks v n (doppelganger_states s)" "\<forall>c g. e \<noteq> DgRegister v c g"
  shows "awaits_checks v n (doppelganger_states (dg_step S e s)) \<or> (\<exists>query. e = DgAnswer query \<and> quiet_epoch S v n query s)"
proof (cases e)
  case (DgRegister w c g)
  with assms show ?thesis
    by (auto simp: register_new_validator_def awaits_checks_def update_conv' Let_def split: option.splits)
next
  case (DgTick slot get_index)
  with assms(1) show ?thesis by (simp add: detect_ask_def Let_def)
next
  case (DgAnswer query)
  show ?thesis
  proof (cases "asked s")
    case None
    with assms(1) DgAnswer show ?thesis by (simp add: detect_answer_def)
  next
    case (Some a)
    obtain slot indices where a: "a = (slot, indices)" by fastforce
    let ?rs = "beacon_node_liveness query (slot_epoch S slot) (map fst indices)"
    obtain res states' down where p: "process_liveness_responses S slot ?rs indices (doppelganger_states s) =
      (res, states', down)" by (cases "process_liveness_responses S slot ?rs indices (doppelganger_states s)")
    have "doppelganger_states (dg_step S e s) = states'" using DgAnswer Some a p by (simp add: detect_answer_def)
    moreover have "query (saturating_sub (slot_epoch S slot) 1) (map fst indices) = Inr (previous_epoch_responses ?rs)"
      if "r \<in> set (previous_epoch_responses ?rs)" for r
      using that by (auto simp: beacon_node_liveness_def Let_def split: if_splits sum.splits)
    ultimately show ?thesis using process_awaits [OF p assms(1)] DgAnswer Some a
      by (auto simp: quiet_epoch_def)
  qed
qed

lemma run_awaits:
  assumes "awaits_checks v n (doppelganger_states s)" "\<forall>e \<in> set es. \<forall>c g. e \<noteq> DgRegister v c g"
  shows "awaits_checks v n (doppelganger_states (dg_run S es s)) \<or>
    (\<exists>es1 query es2. es = es1 @ DgAnswer query # es2 \<and> quiet_epoch S v n query (dg_run S es1 s))"
  using assms
proof (induction es arbitrary: s)
  case (Cons e es)
  show ?case
  proof (cases "awaits_checks v n (doppelganger_states (dg_step S e s))")
    case True
    have "\<forall>e \<in> set es. \<forall>c g. e \<noteq> DgRegister v c g" using Cons.prems(2) by simp
    from Cons.IH [OF True this] show ?thesis
    proof
      assume "\<exists>es1 query es2. es = es1 @ DgAnswer query # es2 \<and> quiet_epoch S v n query (dg_run S es1 (dg_step S e s))"
      then obtain es1 query es2 where "e # es = (e # es1) @ DgAnswer query # es2"
        "quiet_epoch S v n query (dg_run S (e # es1) s)" by (auto simp: dg_run_def)
      then show ?thesis by blast
    qed (simp_all add: dg_run_def)
  next
    case False
    with step_awaits [OF Cons.prems(1), of e S] Cons.prems(2) obtain query
      where "e # es = [] @ DgAnswer query # es" "quiet_epoch S v n query (dg_run S [] s)"
      by (auto simp: dg_run_def)
    then show ?thesis by blast
  qed
qed (simp add: dg_run_def)

text \<open>C35: a validator that was registered after the genesis epoch may sign only after a quiet epoch: if it
  is enabled at the end of a run, whatever ticks, answers and registrations of other validators came in
  between, then at some point the beacon nodes had reported it silent for an epoch after the one of its
  registration, asked in the last slot of the following epoch or later, and no doppelganger of any
  checked validator was reported at that point.\<close>

theorem signing_needs_quiet_epoch:
  assumes "slot_epoch S genesis < slot_epoch S now" "slot_epoch S now < - 1"
    and "\<forall>e \<in> set es. \<forall>c g. e \<noteq> DgRegister v c g"
    and "validator_status (doppelganger_states (dg_run S (DgRegister v (Some now) genesis # es) s)) v = SigningEnabled v"
  shows "\<exists>es1 query es2. es = es1 @ DgAnswer query # es2 \<and>
    quiet_epoch S v (slot_epoch S now + 1) query (dg_run S (DgRegister v (Some now) genesis # es1) s)"
proof -
  let ?s = "dg_step S (DgRegister v (Some now) genesis) s"
  have "awaits_checks v (slot_epoch S now + 1) (doppelganger_states ?s)"
    using assms(1) by (simp add: register_new_validator_def awaits_checks_def update_conv' Let_def
        saturating_succ [OF assms(2)] DEFAULT_REMAINING_DETECTION_EPOCHS_def not_le)
  from run_awaits [OF this assms(3), of S] assms(4) show ?thesis
    by (auto simp: dg_run_def awaits_checks_def validator_status_def requires_further_checks_def
        split: option.splits)
qed

text \<open>Epochs of 32 slots; a validator registered in epoch 2 that is silent in epoch 3.\<close>

definition slots32 :: slot_lib where
  "slots32 = \<lparr>slot_epoch = (\<lambda>s. s div 32), end_slot = (\<lambda>e. e * 32 + 31)\<rparr>"

definition silent_node :: "Epoch \<Rightarrow> u64 list \<Rightarrow> string + LivenessResponseData list" where
  "silent_node e is = Inr (map (\<lambda>i. \<lparr>lr_index = i, lr_epoch = e, lr_is_live = False\<rparr>) is)"

theorem signing_needs_quiet_epoch_witness:
  "\<exists>es1 query es2. [DgTick 100 (\<lambda>_. Some 5), DgAnswer silent_node, DgTick 159 (\<lambda>_. Some 5), DgAnswer silent_node] =
      es1 @ DgAnswer query # es2 \<and>
    quiet_epoch slots32 [1] 3 query (dg_run slots32 (DgRegister [1] (Some 70) 0 # es1) DoppelgangerService_new)"
proof -
  let ?es = "[DgTick 100 (\<lambda>_. Some 5), DgAnswer silent_node, DgTick 159 (\<lambda>_. Some 5), DgAnswer silent_node]"
  have "validator_status (doppelganger_states (dg_run slots32 (DgRegister [1] (Some 70) 0 # ?es)
    DoppelgangerService_new)) [1] = SigningEnabled [1]" by code_simp
  moreover have "slot_epoch slots32 0 = 0" "slot_epoch slots32 70 = 2" by code_simp+
  ultimately show ?thesis
    using signing_needs_quiet_epoch [of slots32 0 70 ?es "[1]" DoppelgangerService_new] by (simp add: max_pos)
qed

section \<open>Shutting down\<close>

definition well_formed_answer ::
  "Epoch \<Rightarrow> (u64 \<times> PublicKeyBytes) list \<Rightarrow> dg_states \<Rightarrow> LivenessResponseData \<Rightarrow> bool" where
  "well_formed_answer e indices states r \<longleftrightarrow> lr_epoch r = e \<and>
    (case map_of indices (lr_index r) of None \<Rightarrow> False | Some v \<Rightarrow> v \<in> dom (map_of states))"

lemma update_states_ok_iff:
  "fst (update_states e sat viol indices rs states) = Inr () \<longleftrightarrow> list_all (well_formed_answer e indices states) rs"
proof (induction e sat viol indices rs states rule: update_states.induct)
  case (2 e sat viol indices r rs states)
  have wf: "well_formed_answer e indices (AList.update k x states) = well_formed_answer e indices states"
    if "map_of states k = Some y" for k x y
    using that by (auto simp: fun_eq_iff well_formed_answer_def update_conv' split: option.splits)
  show ?case
  proof (cases "map_of indices (lr_index r)")
    case (Some v)
    then show ?thesis
      using "2.IH" [OF _ Some] by (cases "map_of states v") (auto simp: well_formed_answer_def Let_def wf)
  qed (simp add: well_formed_answer_def)
qed simp

text \<open>The error for a malformed entry; the first one ends the loop.\<close>

definition answer_error :: "Epoch \<Rightarrow> (u64 \<times> PublicKeyBytes) list \<Rightarrow> LivenessResponseData \<Rightarrow> dg_error" where
  "answer_error e indices r = (if lr_epoch r \<noteq> e then WrongEpoch (lr_epoch r) e
    else case map_of indices (lr_index r) of None \<Rightarrow> InconsistentIndices (lr_index r) | Some v \<Rightarrow> InconsistentStates v)"

lemma update_states_result:
  "fst (update_states e sat viol indices rs states) = (case find (\<lambda>r. \<not> well_formed_answer e indices states r) rs of
      None \<Rightarrow> Inr () | Some r \<Rightarrow> Inl (answer_error e indices r))"
proof (induction e sat viol indices rs states rule: update_states.induct)
  case (2 e sat viol indices r rs states)
  have wf: "well_formed_answer e indices (AList.update k x states) = well_formed_answer e indices states"
    if "map_of states k = Some y" for k x y
    using that by (auto simp: fun_eq_iff well_formed_answer_def update_conv' split: option.splits)
  show ?case
  proof (cases "lr_epoch r = e \<and> map_of indices (lr_index r) \<noteq> None")
    case True
    then obtain v where v: "lr_epoch r = e" "map_of indices (lr_index r) = Some v" by auto
    show ?thesis
      using "2.IH" [OF _ v(2)] v by (cases "map_of states v") (auto simp: well_formed_answer_def answer_error_def Let_def wf)
  qed (auto simp: well_formed_answer_def answer_error_def)
qed simp

lemma update_states_violated:
  assumes "list_all (well_formed_answer e indices states) rs" "r \<in> set rs" "map_of indices (lr_index r) = Some v"
  shows "validator_status (snd (update_states e sat True indices rs states)) v = SigningDisabled v"
proof -
  have keep: "map_option remaining_epochs (map_of (snd (update_states e sat True indices rs states)) v) = Some (- 1)"
    if "map_option remaining_epochs (map_of states v) = Some (- 1)" for rs states
    using that
  proof (induction e sat True indices rs states rule: update_states.induct)
    case (2 e sat indices r rs states)
    then show ?case by (auto simp: Let_def update_conv' split: option.split)
  qed simp
  have "map_option remaining_epochs (map_of (snd (update_states e sat True indices rs states)) v) = Some (- 1)"
    using assms
  proof (induction rs arbitrary: states)
    case (Cons r' rs)
    from Cons.prems(1) obtain w s where w: "lr_epoch r' = e" "map_of indices (lr_index r') = Some w" "map_of states w = Some s"
      by (auto simp: well_formed_answer_def split: option.splits)
    let ?st = "AList.update w (s\<lparr>remaining_epochs := - 1\<rparr>) states"
    have wf: "list_all (well_formed_answer e indices ?st) rs"
      using Cons.prems(1) w(3) by (auto simp: list_all_iff well_formed_answer_def update_conv' split: option.splits)
    have u: "update_states e sat True indices (r' # rs) states = update_states e sat True indices rs ?st"
      using w by (simp add: Let_def)
    show ?case
    proof (cases "w = v")
      case True
      then show ?thesis unfolding u by (intro keep) (simp add: update_conv')
    next
      case False
      with Cons.prems w have "r \<in> set rs" by auto
      then show ?thesis unfolding u using Cons.IH [OF wf] Cons.prems(3) by simp
    qed
  qed simp
  then show ?thesis by (auto simp: validator_status_def requires_further_checks_def max_pos split: option.splits)
qed

text \<open>C36: what the service does with a pair of answers.  It requests the shutdown exactly when some checked
  validator was live in an epoch that counts and every entry of the answer for the previous epoch is
  well formed, and then every validator in that answer is disabled.  The result is \<open>Ok\<close> exactly when
  all these entries are well formed; otherwise it is the error of the first entry that is not: a wrong
  epoch, an unknown index, or a validator without a state.  A doppelganger is thus passed over, with
  an error and without a shutdown, when the answer for the previous epoch has a single such entry.\<close>

theorem shutdown_exact:
  "let (res, states', down) = process_liveness_responses S slot rs indices states;
       e = saturating_sub (slot_epoch S slot) 1 in
   (down \<longleftrightarrow> violators indices states rs \<noteq> {} \<and>
     list_all (well_formed_answer e indices states) (previous_epoch_responses rs)) \<and>
   (down \<longrightarrow> (\<forall>r \<in> set (previous_epoch_responses rs). \<forall>v. map_of indices (lr_index r) = Some v \<longrightarrow>
     validator_status states' v = SigningDisabled v)) \<and>
   res = (case find (\<lambda>r. \<not> well_formed_answer e indices states r) (previous_epoch_responses rs) of
     None \<Rightarrow> Inr () | Some r \<Rightarrow> Inl (answer_error e indices r))"
proof -
  let ?e = "saturating_sub (slot_epoch S slot) 1" and ?viol = "violators indices states rs \<noteq> {}"
  let ?sat = "end_slot S (saturating_add ?e 1) \<le> slot"
  let ?u = "update_states ?e ?sat ?viol indices (previous_epoch_responses rs) states"
  obtain res states' where u: "?u = (res, states')" by fastforce
  have p: "process_liveness_responses S slot rs indices states =
      (case res of Inl e \<Rightarrow> (Inl e, states', False) | Inr _ \<Rightarrow> (Inr (), states', ?viol))"
    using u by (simp add: process_liveness_responses_def Let_def)
  have ok: "(\<exists>x. res = Inr x) \<longleftrightarrow> list_all (well_formed_answer ?e indices states) (previous_epoch_responses rs)"
    using update_states_ok_iff [of ?e ?sat ?viol indices "previous_epoch_responses rs" states] u by auto
  have res: "res = (case find (\<lambda>r. \<not> well_formed_answer ?e indices states r) (previous_epoch_responses rs) of
      None \<Rightarrow> Inr () | Some r \<Rightarrow> Inl (answer_error ?e indices r))"
    using update_states_result [of ?e ?sat ?viol indices "previous_epoch_responses rs" states] u by simp
  have dis: "validator_status states' v = SigningDisabled v"
    if "?viol" "list_all (well_formed_answer ?e indices states) (previous_epoch_responses rs)"
      "r \<in> set (previous_epoch_responses rs)" "map_of indices (lr_index r) = Some v" for r v
    using update_states_violated [OF that(2-4), of ?sat] u that(1) by simp
  have "(case res of Inl e \<Rightarrow> (Inl e, states', False) | Inr _ \<Rightarrow> (Inr (), states', ?viol)) =
      (res, states', ?viol \<and> (\<exists>x. res = Inr x))" by (cases res) auto
  then show ?thesis unfolding p using ok dis res by (simp add: Let_def)
qed

definition live_twin :: LivenessResponses where
  "live_twin = \<lparr>current_epoch_responses = [\<lparr>lr_index = 5, lr_epoch = 4, lr_is_live = True\<rparr>],
    previous_epoch_responses = [\<lparr>lr_index = 5, lr_epoch = 3, lr_is_live = False\<rparr>]\<rparr>"

theorem shutdown_exact_witness:
  "snd (snd (process_liveness_responses slots32 130 live_twin [(5, [1])] [([1], \<lparr>next_check_epoch = 3, remaining_epochs = 1\<rparr>)])) \<and>
   (let (res, _, down) = process_liveness_responses slots32 130
        (live_twin\<lparr>previous_epoch_responses := [\<lparr>lr_index = 6, lr_epoch = 3, lr_is_live = False\<rparr>]\<rparr>)
        [(5, [1])] [([1], \<lparr>next_check_epoch = 3, remaining_epochs = 1\<rparr>)] in
    \<not> down \<and> res = Inl (InconsistentIndices 6))"
proof -
  let ?st = "[([1], \<lparr>next_check_epoch = 3, remaining_epochs = 1\<rparr>)]" and ?ix = "[(5, [1])]"
  let ?rs = "live_twin\<lparr>previous_epoch_responses := [\<lparr>lr_index = 6, lr_epoch = 3, lr_is_live = False\<rparr>]\<rparr>"
  have "violators ?ix ?st live_twin \<noteq> {}" "list_all (well_formed_answer 3 ?ix ?st) (previous_epoch_responses live_twin)"
    "saturating_sub (slot_epoch slots32 130) 1 = 3" "\<not> list_all (well_formed_answer 3 ?ix ?st) (previous_epoch_responses ?rs)"
    "find (\<lambda>r. \<not> well_formed_answer 3 ?ix ?st r) (previous_epoch_responses ?rs) = Some \<lparr>lr_index = 6, lr_epoch = 3, lr_is_live = False\<rparr>"
    "answer_error 3 ?ix \<lparr>lr_index = 6, lr_epoch = 3, lr_is_live = False\<rparr> = InconsistentIndices 6"
    by (simp_all add: violators_def live_twin_def is_violator_def well_formed_answer_def slots32_def saturating_sub_def answer_error_def)
  then show ?thesis
    using shutdown_exact [of slots32 130 live_twin ?ix ?st] shutdown_exact [of slots32 130 ?rs ?ix ?st]
    by (auto simp: Let_def split: prod.splits)
qed

end
