(* ===== verification/Validators.thy ===== *)
theory Validators
  imports DvfCore Doppelganger
begin

text \<open>
  The validators that the client holds: their definitions (\<open>account_utils/validator_definitions.rs\<close>), the
  cache of decrypted keys (\<open>key_cache.rs\<close>) and the set of initialized validators
  (\<open>initialized_validators.rs\<close>), all under \<open>src/src/validation\<close>.

  Files, keystores and the terminal are a parameter, the record \<open>key_env\<close>: what opening, decrypting,
  locking, saving and deleting return.  Each operation has its own such value, since the disk changes.
  Public keys are their compressed bytes.
\<close>

section \<open>Definitions\<close>

type_synonym path = string
type_synonym Uuid = string

datatype SigningDefinition =
    LocalKeystoreDef path "path option" "bytes option"
  | Web3SignerDef string
  | DistributedKeystoreDef path "path option" "bytes option" "path option" u64 u64

record ValidatorDefinition =
  vd_enabled :: bool
  vd_voting_public_key :: PublicKeyBytes
  vd_graffiti :: "bytes option"
  vd_suggested_fee_recipient :: "bytes option"
  vd_gas_limit :: "u64 option"
  vd_builder_proposals :: "bool option"
  vd_signing_definition :: SigningDefinition

fun has_keystore :: "SigningDefinition \<Rightarrow> bool" where
  "has_keystore (LocalKeystoreDef _ _ _) = True"
| "has_keystore (DistributedKeystoreDef _ _ _ _ _ _) = True"
| "has_keystore (Web3SignerDef _) = False"

datatype iv_error =
    UnableToInitializeDisabledValidator
  | UnableToOpenVotingKeystore
  | UnableToOpenKeyCache
  | BadVotingKeystorePath path
  | BadKeyCachePath
  | UnableToDecryptKeystore
  | UnableToReadVotingKeystorePassword
  | UnableToReadPasswordFromUser
  | UnableToSaveDefinitions
  | UnableToDeleteKeystore path
  | UnableToDeleteValidatorDir path
  | LockfileError
  | VotingPublicKeyMismatch PublicKeyBytes PublicKeyBytes
  | DuplicatePublicKey
  | InvalidActionOnRemoteValidator
  | NoCommitteeDefinition
  | UnableToParseCommitteeDefinition
  | IvDvfError DvfError

section \<open>The key cache\<close>

datatype kc_state = NotDecrypted | DecryptedAndSaved | DecryptedWithUnsavedUpdates

datatype kc_error = UnableToDecrypt | UnableToParseKeyMap | UnableToParseKeyPair | PublicKeyMismatch | MissingUuidKey | AlreadyDecrypted

record KeyCache =
  kc_message :: bytes
  kc_uuids :: "Uuid list"
  kc_pairs :: "(Uuid \<times> WrapKeypair) list"
  kc_passwords :: "bytes list"
  kc_state :: kc_state

definition KeyCache_new :: KeyCache where
  "KeyCache_new = \<lparr>kc_message = [], kc_uuids = [], kc_pairs = [], kc_passwords = [],
    kc_state = DecryptedWithUnsavedUpdates\<rparr>"

definition kc_add :: "WrapKeypair \<Rightarrow> Uuid \<Rightarrow> bytes \<Rightarrow> KeyCache \<Rightarrow> KeyCache" where
  "kc_add kp u pw c = (if kc_state c = NotDecrypted then c
    else c\<lparr>kc_pairs := AList.update u kp (kc_pairs c), kc_uuids := kc_uuids c @ [u],
      kc_passwords := kc_passwords c @ [pw], kc_state := DecryptedWithUnsavedUpdates\<rparr>)"

text \<open>In a decrypted cache there is one password for each identifier, at the same position.\<close>

fun remove_first :: "Uuid \<Rightarrow> Uuid list \<Rightarrow> bytes list \<Rightarrow> Uuid list \<times> bytes list" where
  "remove_first u (x # xs) (p # ps) = (if x = u then (xs, ps)
    else let (xs', ps') = remove_first u xs ps in (x # xs', p # ps'))"
| "remove_first u xs ps = (xs, ps)"

definition kc_remove :: "Uuid \<Rightarrow> KeyCache \<Rightarrow> KeyCache" where
  "kc_remove u c = (if kc_state c = NotDecrypted then c
    else let (us, pws) = remove_first u (kc_uuids c) (kc_passwords c) in
      c\<lparr>kc_pairs := AList.delete u (kc_pairs c), kc_uuids := us, kc_passwords := pws,
        kc_state := DecryptedWithUnsavedUpdates\<rparr>)"

text \<open>
  The cipher of the cache: \<open>open_map\<close> decrypts and parses the map of secret keys, \<open>pair_of\<close> rebuilds a key
  pair.
\<close>

record kc_lib =
  kc_open_map :: "bytes \<Rightarrow> bytes \<Rightarrow> kc_error + (Uuid \<times> bytes) list"
  kc_seal_map :: "bytes \<Rightarrow> (Uuid \<times> bytes) list \<Rightarrow> bytes"
  kc_pair_of :: "bytes \<Rightarrow> kc_error + WrapKeypair"

fun kc_read_pairs :: "kc_lib \<Rightarrow> (Uuid \<times> bytes) list \<Rightarrow> (Uuid \<times> PublicKeyBytes) list \<Rightarrow>
    (Uuid \<times> WrapKeypair) list \<Rightarrow> kc_error + (Uuid \<times> WrapKeypair) list" where
  "kc_read_pairs Q m [] ps = Inr ps"
| "kc_read_pairs Q m ((u, pk) # us) ps = (case map_of m u of
      None \<Rightarrow> Inl MissingUuidKey
    | Some sk \<Rightarrow> (case kc_pair_of Q sk of
        Inl e \<Rightarrow> Inl e
      | Inr kp \<Rightarrow> if kp_pk kp \<noteq> pk then Inl PublicKeyMismatch
          else kc_read_pairs Q m us (AList.update u kp ps)))"

definition kc_decrypt :: "kc_lib \<Rightarrow> bytes list \<Rightarrow> PublicKeyBytes list \<Rightarrow> KeyCache \<Rightarrow> kc_error + KeyCache" where
  "kc_decrypt Q passwords public_keys c = (if kc_state c \<noteq> NotDecrypted then Inl AlreadyDecrypted
    else case kc_open_map Q (concat passwords) (kc_message c) of
      Inl e \<Rightarrow> Inl e
    | Inr m \<Rightarrow> if length public_keys \<noteq> length (kc_uuids c) then Inl PublicKeyMismatch
        else (case kc_read_pairs Q m (zip (kc_uuids c) public_keys) [] of
          Inl e \<Rightarrow> Inl e
        | Inr ps \<Rightarrow> Inr (c\<lparr>kc_passwords := passwords, kc_pairs := ps, kc_state := DecryptedAndSaved\<rparr>)))"

text \<open>What a later \<open>open\<close> reads from the file that \<open>save\<close> writes: the pairs and passwords are not stored.\<close>

definition kc_save :: "kc_lib \<Rightarrow> KeyCache \<Rightarrow> KeyCache" where
  "kc_save Q c = \<lparr>kc_message = kc_seal_map Q (concat (kc_passwords c)) (map (\<lambda>(u, kp). (u, kp_sk kp)) (kc_pairs c)),
    kc_uuids = kc_uuids c, kc_pairs = [], kc_passwords = [], kc_state = NotDecrypted\<rparr>"

section \<open>Initializing a validator\<close>

record 'ks key_env =
  ke_open_keystore :: "path \<Rightarrow> iv_error + 'ks"
  ke_open_keystore_share :: "path \<Rightarrow> iv_error + 'ks"
  ke_uuid :: "'ks \<Rightarrow> Uuid"
  ke_decrypt_keypair :: "'ks \<Rightarrow> bytes \<Rightarrow> bool + WrapKeypair"
  ke_read_password :: "path \<Rightarrow> iv_error + bytes"
  ke_typed :: "path \<Rightarrow> (unit + bytes) list"
  ke_file_name :: "path \<Rightarrow> path option"
  ke_lock :: "path \<Rightarrow> iv_error + unit"
  ke_committee :: "path \<Rightarrow> iv_error + OperatorCommitteeDefinition"
  ke_store :: "string + unit"
  ke_cache :: "iv_error + KeyCache"
  ke_cipher :: kc_lib
  ke_parent_is_dir :: "path \<Rightarrow> 'ks \<Rightarrow> bool"
  ke_remove_dir :: "path \<Rightarrow> iv_error + unit"
  ke_remove_file :: "path \<Rightarrow> iv_error + unit"
  ke_save :: "ValidatorDefinition list \<Rightarrow> iv_error + unit"

text \<open>The node that a distributed validator signs with: its name and base address.\<close>

type_synonym iv_node = "(PublicKey \<times> SocketAddr) option"

datatype 'ks SigningMethod =
    LocalKeystore path 'ks WrapKeypair
  | Web3Signer PublicKeyBytes
  | DistributedKeystore path 'ks PublicKeyBytes DvfSigner

record 'ks InitializedValidator =
  iv_signing_method :: "'ks SigningMethod"
  iv_graffiti :: "bytes option"
  iv_suggested_fee_recipient :: "bytes option"
  iv_gas_limit :: "u64 option"
  iv_builder_proposals :: "bool option"
  iv_index :: "u64 option"

fun iv_voting_public_key :: "'ks SigningMethod \<Rightarrow> PublicKeyBytes" where
  "iv_voting_public_key (LocalKeystore _ _ kp) = kp_pk kp"
| "iv_voting_public_key (Web3Signer pk) = pk"
| "iv_voting_public_key (DistributedKeystore _ _ pk _) = pk"

text \<open>
  Decrypting fails with \<open>Inl True\<close> for a wrong password and \<open>Inl False\<close> otherwise.  The prompt repeats until
  a password fits; when the user types nothing more it never returns.
\<close>

fun unlock_keystore_via_stdin_password ::
  "'ks key_env \<Rightarrow> 'ks \<Rightarrow> (unit + bytes) list \<Rightarrow> (iv_error, bytes \<times> WrapKeypair) outcome" where
  "unlock_keystore_via_stdin_password K ks [] = Diverge"
| "unlock_keystore_via_stdin_password K ks (Inl _ # ts) = Err UnableToReadPasswordFromUser"
| "unlock_keystore_via_stdin_password K ks (Inr pw # ts) = (case ke_decrypt_keypair K ks pw of
      Inr kp \<Rightarrow> Ok (pw, kp)
    | Inl True \<Rightarrow> unlock_keystore_via_stdin_password K ks ts
    | Inl False \<Rightarrow> Err UnableToDecryptKeystore)"

definition decrypt_with :: "'ks key_env \<Rightarrow> 'ks \<Rightarrow> bytes \<Rightarrow> (iv_error, bytes \<times> WrapKeypair) outcome" where
  "decrypt_with K ks pw = (case ke_decrypt_keypair K ks pw of Inr kp \<Rightarrow> Ok (pw, kp) | Inl _ \<Rightarrow> Err UnableToDecryptKeystore)"

type_synonym 'ks key_stores = "(path \<times> 'ks) list"

text \<open>The key pair of a keystore: from the cache, or else decrypted and then added to it.\<close>

definition load_keypair ::
  "'ks key_env \<Rightarrow> path \<Rightarrow> path option \<Rightarrow> bytes option \<Rightarrow> 'ks \<Rightarrow>
    (KeyCache \<times> 'ks key_stores, iv_error, WrapKeypair) act" where
  "load_keypair K p pw_path pw ks = bindM (getM (\<lambda>(c, _). map_of (kc_pairs c) (ke_uuid K ks))) (\<lambda>cached.
    case cached of
      Some kp \<Rightarrow> retM kp
    | None \<Rightarrow>
        bindM (liftO (case (pw_path, pw) of
            (_, Some w) \<Rightarrow> decrypt_with K ks w
          | (Some q, None) \<Rightarrow> bindO (of_sum (ke_read_password K q)) (decrypt_with K ks)
          | (None, None) \<Rightarrow> unlock_keystore_via_stdin_password K ks (ke_typed K p))) (\<lambda>(w, kp).
        thenM (modM (\<lambda>(c, st). (kc_add kp (ke_uuid K ks) w c, st))) (retM kp)))"

definition lock_file :: "'ks key_env \<Rightarrow> iv_error \<Rightarrow> path \<Rightarrow> (iv_error, unit) outcome" where
  "lock_file K bad p = (case ke_file_name K p of
      None \<Rightarrow> Err bad
    | Some q \<Rightarrow> of_sum (ke_lock K q))"

definition store_entry ::
  "path \<Rightarrow> (iv_error, 'ks) outcome \<Rightarrow> (KeyCache \<times> 'ks key_stores, iv_error, 'ks) act" where
  "store_entry p new = bindM (getM (\<lambda>(_, st). map_of st p)) (\<lambda>known. case known of
      Some ks \<Rightarrow> retM ks
    | None \<Rightarrow> bindM (liftO new) (\<lambda>ks. thenM (modM (\<lambda>(c, st). (c, AList.update p ks st))) (retM ks)))"

definition signing_method_of ::
  "'ks key_env \<Rightarrow> iv_node \<Rightarrow> ValidatorDefinition \<Rightarrow> (KeyCache \<times> 'ks key_stores, iv_error, 'ks SigningMethod) act" where
  "signing_method_of K nd def = (case vd_signing_definition def of
      LocalKeystoreDef p pw_path pw \<Rightarrow>
        bindM (store_entry p (of_sum (ke_open_keystore K p))) (\<lambda>ks.
        bindM (load_keypair K p pw_path pw ks) (\<lambda>kp.
        if kp_pk kp \<noteq> vd_voting_public_key def
        then liftO (Err (VotingPublicKeyMismatch (vd_voting_public_key def) (kp_pk kp)))
        else thenM (liftO (lock_file K (BadVotingKeystorePath p) p)) (retM (LocalKeystore p ks kp))))
    | Web3SignerDef _ \<Rightarrow> liftO (Err InvalidActionOnRemoteValidator)
    | DistributedKeystoreDef p pw_path pw committee_path _ _ \<Rightarrow>
        bindM (liftO (of_sum (ke_open_keystore_share K p))) (\<lambda>share.
        bindM (store_entry p (Ok share)) (\<lambda>ks.
        bindM (load_keypair K p pw_path pw ks) (\<lambda>kp.
        thenM (liftO (lock_file K (BadVotingKeystorePath p) p))
       (bindM (liftO (case committee_path of None \<Rightarrow> Err NoCommitteeDefinition | Some q \<Rightarrow> Ok q)) (\<lambda>q.
        bindM (liftO (of_sum (ke_committee K q))) (\<lambda>committee_def.
        case nd of
          None \<Rightarrow> liftO (Panic ''called `Option::unwrap()` on a `None` value'')
        | Some (name, base) \<Rightarrow>
            bindM (liftO (map_err IvDvfError (DvfSigner_spawn name base kp committee_def (ke_store K)))) (\<lambda>(signer, _, _).
            retM (DistributedKeystore p share (ocd_validator_public_key committee_def) signer)))))))))"

definition iv_from_definition ::
  "'ks key_env \<Rightarrow> iv_node \<Rightarrow> ValidatorDefinition \<Rightarrow>
    (KeyCache \<times> 'ks key_stores, iv_error, 'ks InitializedValidator) act" where
  "iv_from_definition K nd def =
    (if \<not> vd_enabled def then liftO (Err UnableToInitializeDisabledValidator)
     else bindM (signing_method_of K nd def) (\<lambda>m.
       retM \<lparr>iv_signing_method = m, iv_graffiti = vd_graffiti def,
         iv_suggested_fee_recipient = vd_suggested_fee_recipient def, iv_gas_limit = vd_gas_limit def,
         iv_builder_proposals = vd_builder_proposals def, iv_index = None\<rparr>))"

section \<open>The set of validators\<close>

record 'ks InitializedValidators =
  iv_definitions :: "ValidatorDefinition list"
  iv_validators :: "(PublicKeyBytes \<times> 'ks InitializedValidator) list"
  iv_node_of :: iv_node
  iv_saved :: "ValidatorDefinition list"
  iv_cache_file :: "KeyCache option"

definition iv_signing_method_for :: "'ks InitializedValidators \<Rightarrow> PublicKeyBytes \<Rightarrow> 'ks SigningMethod option" where
  "iv_signing_method_for s pk = map_option iv_signing_method (map_of (iv_validators s) pk)"

definition save_definitions :: "'ks key_env \<Rightarrow> ('ks InitializedValidators, iv_error, unit) act" where
  "save_definitions K = bindM (getM iv_definitions) (\<lambda>ds.
    thenM (liftO (map_err (\<lambda>_. UnableToSaveDefinitions) (of_sum (ke_save K ds)))) (modM (\<lambda>s. s\<lparr>iv_saved := ds\<rparr>)))"

text \<open>The state of \<open>update_validators\<close>: the set itself, the cache with the open keystores, and the disabled ones.\<close>

record 'ks iv_update =
  u_set :: "'ks InitializedValidators"
  u_keys :: "KeyCache \<times> 'ks key_stores"
  u_disabled :: "Uuid list"

definition on_keys :: "(KeyCache \<times> 'ks key_stores, 'e, 'a) act \<Rightarrow> ('ks iv_update, 'e, 'a) act" where
  "on_keys m u = (let (r, k) = m (u_keys u) in (r, u\<lparr>u_keys := k\<rparr>))"

text \<open>The keystores of the enabled local definitions, by their identifier.\<close>

fun cache_definitions ::
  "'ks key_env \<Rightarrow> ValidatorDefinition list \<Rightarrow> (Uuid \<times> ValidatorDefinition) list \<Rightarrow>
    (KeyCache \<times> 'ks key_stores, iv_error, (Uuid \<times> ValidatorDefinition) list) act" where
  "cache_definitions K [] m = retM m"
| "cache_definitions K (def # ds) m = (case vd_signing_definition def of
      LocalKeystoreDef p _ _ \<Rightarrow>
        bindM (store_entry p (of_sum (ke_open_keystore K p))) (\<lambda>ks.
        cache_definitions K ds (AList.update (ke_uuid K ks) def m))
    | _ \<Rightarrow> cache_definitions K ds m)"

fun cache_passwords ::
  "'ks key_env \<Rightarrow> (Uuid \<times> ValidatorDefinition) list \<Rightarrow> Uuid list \<Rightarrow>
    (iv_error, bytes list \<times> PublicKeyBytes list) outcome" where
  "cache_passwords K m [] = Ok ([], [])"
| "cache_passwords K m (u # us) = (case map_of m u of
      None \<Rightarrow> Panic ''Existence checked before''
    | Some def \<Rightarrow> (case vd_signing_definition def of
        LocalKeystoreDef p pw_path pw \<Rightarrow>
          bindO (case pw of Some w \<Rightarrow> Ok w
            | None \<Rightarrow> (case pw_path of Some q \<Rightarrow> of_sum (ke_read_password K q)
              | None \<Rightarrow> bindO (of_sum (ke_open_keystore K p)) (\<lambda>ks.
                  bindO (unlock_keystore_via_stdin_password K ks (ke_typed K p)) (\<lambda>(w, _). Ok w)))) (\<lambda>w.
          bindO (cache_passwords K m us) (\<lambda>(ws, pks). Ok (w # ws, vd_voting_public_key def # pks)))
      | _ \<Rightarrow> cache_passwords K m us))"

definition decrypt_key_cache ::
  "'ks key_env \<Rightarrow> ValidatorDefinition list \<Rightarrow> KeyCache \<Rightarrow> (KeyCache \<times> 'ks key_stores, iv_error, KeyCache) act" where
  "decrypt_key_cache K ds cache =
    bindM (cache_definitions K (filter vd_enabled ds) []) (\<lambda>m.
    if \<exists>u \<in> set (kc_uuids cache). map_of m u = None then retM KeyCache_new
    else bindM (liftO (cache_passwords K m (kc_uuids cache))) (\<lambda>(passwords, public_keys).
      retM (case kc_decrypt (ke_cipher K) passwords public_keys cache of
          Inr c \<Rightarrow> c
        | Inl AlreadyDecrypted \<Rightarrow> cache
        | Inl _ \<Rightarrow> KeyCache_new)))"

definition known_uuid :: "'ks key_env \<Rightarrow> SigningDefinition \<Rightarrow> 'ks key_stores \<Rightarrow> Uuid list" where
  "known_uuid K sd st = (case sd of
      LocalKeystoreDef p _ _ \<Rightarrow> (case map_of st p of Some ks \<Rightarrow> [ke_uuid K ks] | None \<Rightarrow> [])
    | DistributedKeystoreDef p _ _ _ _ _ \<Rightarrow> (case map_of st p of Some ks \<Rightarrow> [ke_uuid K ks] | None \<Rightarrow> [])
    | Web3SignerDef _ \<Rightarrow> [])"

definition insert_validator_of :: "'ks InitializedValidator \<Rightarrow> 'ks iv_update \<Rightarrow> 'ks iv_update" where
  "insert_validator_of v u = u\<lparr>u_set := (u_set u)\<lparr>iv_validators :=
    AList.update (iv_voting_public_key (iv_signing_method v)) v (iv_validators (u_set u))\<rparr>\<rparr>"

text \<open>
  One definition in the loop of \<open>update_validators\<close>.  A distributed validator that cannot be initialized is
  only logged; the others end the loop with their error.
\<close>

definition update_validator :: "'ks key_env \<Rightarrow> ValidatorDefinition \<Rightarrow> ('ks iv_update, iv_error, unit) act" where
  "update_validator K def =
    (if vd_enabled def then
       (case vd_signing_definition def of
          Web3SignerDef _ \<Rightarrow> bindM (on_keys (iv_from_definition K None def)) (\<lambda>v. modM (insert_validator_of v))
        | LocalKeystoreDef _ _ _ \<Rightarrow>
            bindM (getM (\<lambda>u. map_of (iv_validators (u_set u)) (vd_voting_public_key def))) (\<lambda>present.
            if present \<noteq> None then retM ()
            else thenM (modM (\<lambda>u. u\<lparr>u_disabled := filter (\<lambda>x. x \<notin> set (known_uuid K (vd_signing_definition def) (snd (u_keys u)))) (u_disabled u)\<rparr>))
              (bindM (on_keys (iv_from_definition K None def)) (\<lambda>v. modM (insert_validator_of v))))
        | DistributedKeystoreDef _ _ _ _ _ _ \<Rightarrow>
            bindM (getM (\<lambda>u. (map_of (iv_validators (u_set u)) (vd_voting_public_key def), iv_node_of (u_set u)))) (\<lambda>(present, nd).
            if present \<noteq> None then retM ()
            else thenM (modM (\<lambda>u. u\<lparr>u_disabled := filter (\<lambda>x. x \<notin> set (known_uuid K (vd_signing_definition def) (snd (u_keys u)))) (u_disabled u)\<rparr>))
              (\<lambda>u. case on_keys (iv_from_definition K nd def) u of
                (Ok v, u') \<Rightarrow> (Ok (), insert_validator_of v u')
              | (Err _, u') \<Rightarrow> (Ok (), u')
              | (Panic p, u') \<Rightarrow> (Panic p, u')
              | (Diverge, u') \<Rightarrow> (Diverge, u'))))
     else modM (\<lambda>u. u\<lparr>u_set := (u_set u)\<lparr>iv_validators := AList.delete (vd_voting_public_key def) (iv_validators (u_set u))\<rparr>,
       u_disabled := fold List.insert (known_uuid K (vd_signing_definition def) (snd (u_keys u))) (u_disabled u)\<rparr>))"

text \<open>
  Both the lock of the cache and the cache itself are opened first.  At the end the disabled keys leave
  the cache and a changed cache is written; a failure to write it is only logged.
\<close>

definition write_cache :: "'ks key_env \<Rightarrow> 'ks iv_update \<Rightarrow> 'ks iv_update" where
  "write_cache K u = (let c = fold kc_remove (u_disabled u) (fst (u_keys u)) in
    if kc_state c = DecryptedWithUnsavedUpdates
    then u\<lparr>u_set := (u_set u)\<lparr>iv_cache_file := Some (kc_save (ke_cipher K) c)\<rparr>\<rparr> else u)"

definition update_all :: "'ks key_env \<Rightarrow> ValidatorDefinition list \<Rightarrow> ('ks iv_update, iv_error, unit) act" where
  "update_all K ds = thenM (liftO (lock_file K BadKeyCachePath ''validator_key_cache.json''))
    (bindM (liftO (map_err (\<lambda>_. UnableToOpenKeyCache) (of_sum (ke_cache K)))) (\<lambda>cache.
     bindM (on_keys (decrypt_key_cache K ds cache)) (\<lambda>key_cache.
     thenM (modM (\<lambda>u. u\<lparr>u_keys := (key_cache, snd (u_keys u))\<rparr>))
    (thenM (forM ds (update_validator K))
     (modM (write_cache K))))))"

definition update_validators :: "'ks key_env \<Rightarrow> ('ks InitializedValidators, iv_error, unit) act" where
  "update_validators K s =
    (let (r, u) = update_all K (iv_definitions s) \<lparr>u_set = s, u_keys = (KeyCache_new, []), u_disabled = []\<rparr> in
     (r, u_set u))"

definition from_definitions ::
  "'ks key_env \<Rightarrow> ValidatorDefinition list \<Rightarrow> iv_node \<Rightarrow> (iv_error, 'ks InitializedValidators) outcome" where
  "from_definitions K ds nd = (case update_validators K \<lparr>iv_definitions = ds, iv_validators = [], iv_node_of = nd,
      iv_saved = ds, iv_cache_file = None\<rparr> of
      (r, s) \<Rightarrow> bindO r (\<lambda>_. Ok s))"

definition add_definition :: "'ks key_env \<Rightarrow> ValidatorDefinition \<Rightarrow> ('ks InitializedValidators, iv_error, unit) act" where
  "add_definition K def = bindM (getM iv_definitions) (\<lambda>ds.
    if vd_voting_public_key def \<in> set (map vd_voting_public_key ds) then liftO (Err DuplicatePublicKey)
    else thenM (modM (\<lambda>s. s\<lparr>iv_definitions := iv_definitions s @ [def]\<rparr>))
      (thenM (update_validators K) (save_definitions K)))"

definition add_definition_replace_disabled ::
  "'ks key_env \<Rightarrow> ValidatorDefinition \<Rightarrow> ('ks InitializedValidators, iv_error, unit) act" where
  "add_definition_replace_disabled K def =
    thenM (modM (\<lambda>s. s\<lparr>iv_definitions := filter (\<lambda>d. \<not> (\<not> vd_enabled d \<and> vd_voting_public_key d = vd_voting_public_key def))
      (iv_definitions s)\<rparr>)) (add_definition K def)"

fun modify_first :: "PublicKeyBytes \<Rightarrow> (ValidatorDefinition \<Rightarrow> ValidatorDefinition) \<Rightarrow> ValidatorDefinition list \<Rightarrow> ValidatorDefinition list" where
  "modify_first pk f [] = []"
| "modify_first pk f (d # ds) = (if vd_voting_public_key d = pk then f d # ds else d # modify_first pk f ds)"

datatype DeleteKeystoreStatus = Deleted | NotActive | NotFound | DeleteError

text \<open>The common first two steps of deleting and of disabling; \<open>files\<close> is what is done with the keystore.\<close>

definition disable_definition ::
  "'ks key_env \<Rightarrow> ('ks SigningMethod \<Rightarrow> (iv_error, unit) outcome) \<Rightarrow> PublicKeyBytes \<Rightarrow>
    ('ks InitializedValidators, iv_error, DeleteKeystoreStatus) act \<Rightarrow>
    ('ks InitializedValidators, iv_error, DeleteKeystoreStatus) act" where
  "disable_definition K files pk rest = bindM (getM iv_definitions) (\<lambda>ds.
    case find (\<lambda>d. vd_voting_public_key d = pk) ds of
      None \<Rightarrow> retM NotFound
    | Some def \<Rightarrow>
        if \<not> has_keystore (vd_signing_definition def) then liftO (Err InvalidActionOnRemoteValidator)
        else thenM (modM (\<lambda>s. s\<lparr>iv_definitions := modify_first pk (\<lambda>d. d\<lparr>vd_enabled := False\<rparr>) (iv_definitions s)\<rparr>))
         (thenM (save_definitions K)
         (bindM (getM (\<lambda>s. map_of (iv_validators s) pk)) (\<lambda>v.
          thenM (modM (\<lambda>s. s\<lparr>iv_validators := AList.delete pk (iv_validators s)\<rparr>))
         (thenM (liftO (case v of None \<Rightarrow> Ok () | Some v \<Rightarrow> files (iv_signing_method v)))
          rest)))))"

fun delete_keystore_files :: "'ks key_env \<Rightarrow> 'ks SigningMethod \<Rightarrow> (iv_error, unit) outcome" where
  "delete_keystore_files K (Web3Signer _) = Ok ()"
| "delete_keystore_files K (LocalKeystore p ks _) =
    (if ke_parent_is_dir K p ks then map_err (\<lambda>_. UnableToDeleteValidatorDir p) (of_sum (ke_remove_dir K p))
     else map_err (\<lambda>_. UnableToDeleteKeystore p) (of_sum (ke_remove_file K p)))"
| "delete_keystore_files K (DistributedKeystore p ks _ _) =
    (if ke_parent_is_dir K p ks then map_err (\<lambda>_. UnableToDeleteValidatorDir p) (of_sum (ke_remove_dir K p))
     else map_err (\<lambda>_. UnableToDeleteKeystore p) (of_sum (ke_remove_file K p)))"

definition delete_definition_and_keystore ::
  "'ks key_env \<Rightarrow> PublicKeyBytes \<Rightarrow> ('ks InitializedValidators, iv_error, DeleteKeystoreStatus) act" where
  "delete_definition_and_keystore K pk = disable_definition K (delete_keystore_files K) pk
    (thenM (modM (\<lambda>s. s\<lparr>iv_definitions := filter (\<lambda>d. vd_voting_public_key d \<noteq> pk) (iv_definitions s)\<rparr>))
    (thenM (save_definitions K) (retM Deleted)))"

definition disable_keystore ::
  "'ks key_env \<Rightarrow> PublicKeyBytes \<Rightarrow> ('ks InitializedValidators, iv_error, DeleteKeystoreStatus) act" where
  "disable_keystore K pk = disable_definition K (\<lambda>_. Ok ()) pk (retM Deleted)"

definition modify_validator ::
  "PublicKeyBytes \<Rightarrow> ('ks InitializedValidator \<Rightarrow> 'ks InitializedValidator) \<Rightarrow> 'ks InitializedValidators \<Rightarrow> 'ks InitializedValidators" where
  "modify_validator pk f s = s\<lparr>iv_validators := map (\<lambda>(k, v). (k, if k = pk then f v else v)) (iv_validators s)\<rparr>"

definition set_validator_definition_fields ::
  "'ks key_env \<Rightarrow> PublicKeyBytes \<Rightarrow> bool option \<Rightarrow> u64 option \<Rightarrow> bool option \<Rightarrow>
    ('ks InitializedValidators, iv_error, unit) act" where
  "set_validator_definition_fields K pk enabled gas_limit builder_proposals =
    thenM (modM (\<lambda>s. s\<lparr>iv_definitions := modify_first pk (\<lambda>d. d\<lparr>
      vd_enabled := (case enabled of Some b \<Rightarrow> b | None \<Rightarrow> vd_enabled d),
      vd_gas_limit := (if gas_limit = None then vd_gas_limit d else gas_limit),
      vd_builder_proposals := (if builder_proposals = None then vd_builder_proposals d else builder_proposals)\<rparr>)
      (iv_definitions s)\<rparr>))
   (thenM (update_validators K)
   (thenM (modM (modify_validator pk (\<lambda>v. v\<lparr>
      iv_gas_limit := (if gas_limit = None then iv_gas_limit v else gas_limit),
      iv_builder_proposals := (if builder_proposals = None then iv_builder_proposals v else builder_proposals)\<rparr>)))
    (save_definitions K)))"

definition enable_keystore :: "'ks key_env \<Rightarrow> PublicKeyBytes \<Rightarrow> ('ks InitializedValidators, iv_error, unit) act" where
  "enable_keystore K pk = set_validator_definition_fields K pk (Some True) None None"

definition set_fee_recipient ::
  "'ks key_env \<Rightarrow> PublicKeyBytes \<Rightarrow> bytes option \<Rightarrow> ('ks InitializedValidators, iv_error, unit) act" where
  "set_fee_recipient K pk a =
    thenM (modM (\<lambda>s. s\<lparr>iv_definitions := modify_first pk (\<lambda>d. d\<lparr>vd_suggested_fee_recipient := a\<rparr>) (iv_definitions s)\<rparr>))
   (thenM (modM (modify_validator pk (\<lambda>v. v\<lparr>iv_suggested_fee_recipient := a\<rparr>))) (save_definitions K))"

definition set_gas_limit ::
  "'ks key_env \<Rightarrow> PublicKeyBytes \<Rightarrow> u64 option \<Rightarrow> ('ks InitializedValidators, iv_error, unit) act" where
  "set_gas_limit K pk g =
    thenM (modM (\<lambda>s. s\<lparr>iv_definitions := modify_first pk (\<lambda>d. d\<lparr>vd_gas_limit := g\<rparr>) (iv_definitions s)\<rparr>))
   (thenM (modM (modify_validator pk (\<lambda>v. v\<lparr>iv_gas_limit := g\<rparr>))) (save_definitions K))"

definition iv_set_index :: "PublicKeyBytes \<Rightarrow> u64 \<Rightarrow> 'ks InitializedValidators \<Rightarrow> 'ks InitializedValidators" where
  "iv_set_index pk i = modify_validator pk (\<lambda>v. v\<lparr>iv_index := Some i\<rparr>)"

end
