(* ===== verification/ValidatorStore.thy ===== *)
theory ValidatorStore
  imports Validators
begin

text \<open>
  Signing (\<open>signing_method.rs\<close>) and the validator store (\<open>validator_store.rs\<close>), under
  \<open>src/src/validation\<close>: the checks that stand before every signature, and the operations that add,
  start and stop validators.

  Parameters: the chain specification with its domains and signing roots (\<open>spec_lib\<close>), the slashing
  protection database (\<open>slash_lib\<close>), and, for each request, what the outside answers while the signature
  is made (\<open>sign_env\<close>): the result of \<open>threshold_sign\<close>, or nothing when the timeout comes first, the
  answer of a remote signer, and whether tasks can still be spawned.

  A request is one step: the check, the lookup of the signing method and the signature are not interleaved
  with other operations, while in the code a request that has its signing method may still sign after a
  stop.
\<close>

section \<open>Messages and signatures\<close>

record BeaconBlock =
  bb_slot :: Slot
  bb_root :: Hash256

record AttestationData =
  ad_slot :: Slot
  ad_source_epoch :: Epoch
  ad_target_epoch :: Epoch
  ad_root :: Hash256

record Attestation =
  at_bits :: nat
  at_data :: AttestationData
  at_signatures :: "(nat \<times> WrapSignature) list"

text \<open>
  An attestation has a bit for each member of its committee; adding a signature fails for a position
  outside of the committee or one that has signed already.
\<close>

datatype SignableMessage =
    RandaoReveal Epoch
  | BeaconBlock BeaconBlock
  | AttestationData AttestationData
  | SignedAggregateAndProof u64 Attestation WrapSignature
  | SelectionProof Slot
  | SyncSelectionProof Slot u64
  | SyncCommitteeSignature Hash256 Slot
  | SignedContributionAndProof u64 Slot Hash256 WrapSignature
  | ValidatorRegistration PublicKeyBytes bytes

datatype Domain = BeaconProposer | BeaconAttester | Randao | AggregateAndProof | SelectionProofDomain
  | SyncCommittee | ContributionAndProof | SyncCommitteeSelectionProof

record spec_lib =
  sp_domain :: "Epoch \<Rightarrow> Domain \<Rightarrow> Hash256"
  sp_builder_domain :: Hash256
  sp_signing_root :: "SignableMessage \<Rightarrow> Hash256 \<Rightarrow> Hash256"

datatype SigningError =
    Web3SignerRequestFailed
  | ShuttingDown
  | GenesisForkVersionRequired
  | CommitteeSignFailed "DvfError option"
  | SignDigestFailed
  | NotLeader

record sign_env =
  se_executor :: bool
  se_web3signer :: "SigningError + WrapSignature"
  se_threshold_sign :: "(DvfError + (WrapSignature \<times> u64 list)) option"
  se_digest_ok :: bool

text \<open>The slot that is reported, the name of the duty, and whether only aggregators collect signatures.\<close>

fun duty_of :: "SignableMessage \<Rightarrow> Slot \<times> string \<times> bool" where
  "duty_of (RandaoReveal _) = (0, ''RANDAO'', False)"
| "duty_of (AttestationData a) = (ad_slot a, ''ATTESTER'', True)"
| "duty_of (BeaconBlock b) = (bb_slot b, ''PROPOSER'', True)"
| "duty_of (SignedAggregateAndProof _ a _) = (ad_slot (at_data a), ''AGGREGATE'', True)"
| "duty_of (SelectionProof s) = (s, ''SELECT'', False)"
| "duty_of (SyncSelectionProof _ _) = (0, ''SYNC_SELECT'', False)"
| "duty_of (SyncCommitteeSignature _ _) = (0, ''SYNC_COMMITTEE'', True)"
| "duty_of (SignedContributionAndProof _ _ _ _) = (0, ''CONTRIB'', True)"
| "duty_of (ValidatorRegistration _ _) = (0, ''VA_REG'', True)"

definition dvf_report :: "sign_env \<Rightarrow> string \<Rightarrow> (SigningError, unit) outcome" where
  "dvf_report V duty = (if (duty = ''ATTESTER'' \<or> duty = ''PROPOSER'') \<and> \<not> se_digest_ok V then Err SignDigestFailed else Ok ())"

text \<open>
  The result, and whether the key of this client has signed the root.  An operator signs and stores its
  share before it is known whether it is a leader.
\<close>

definition get_signature_from_root ::
  "('p1, 'p2) blst_lib \<Rightarrow> sign_env \<Rightarrow> 'ks SigningMethod \<Rightarrow> SignableMessage \<Rightarrow> Hash256 \<Rightarrow> bool \<Rightarrow> Epoch \<Rightarrow>
    (SigningError, WrapSignature) outcome \<times> bool" where
  "get_signature_from_root L V m msg root has_fork_info signing_epoch = (case m of
      LocalKeystore _ _ kp \<Rightarrow>
        if se_executor V then (Ok (sk_sign L (kp_sk kp) root), True) else (Err ShuttingDown, False)
    | Web3Signer _ \<Rightarrow>
        if (case msg of ValidatorRegistration _ _ \<Rightarrow> True | _ \<Rightarrow> False) \<and> has_fork_info
        then (Err GenesisForkVersionRequired, False) else (of_sum (se_web3signer V), True)
    | DistributedKeystore _ _ _ signer \<Rightarrow>
        let (slot, duty, only_aggregator) = duty_of msg in
        (bindO (if only_aggregator then is_aggregator signer signing_epoch else Ok True) (\<lambda>collect.
         if \<not> collect then Err NotLeader
         else case se_threshold_sign V of
             None \<Rightarrow> Err (CommitteeSignFailed None)
           | Some (Inl e) \<Rightarrow> Err (CommitteeSignFailed (Some e))
           | Some (Inr (signature, ids)) \<Rightarrow> bindO (dvf_report V duty) (\<lambda>_. Ok signature)), True))"

section \<open>The store\<close>

datatype Safe = Valid | SameDataSafe

datatype NotSafe = UnregisteredValidator PublicKeyBytes | NotSafe lib_error

record 'sd slash_lib =
  sl_block :: "PublicKeyBytes \<Rightarrow> Slot \<Rightarrow> Hash256 \<Rightarrow> 'sd \<Rightarrow> (NotSafe + Safe) \<times> 'sd"
  sl_attestation :: "PublicKeyBytes \<Rightarrow> Epoch \<Rightarrow> Epoch \<Rightarrow> Hash256 \<Rightarrow> 'sd \<Rightarrow> (NotSafe + Safe) \<times> 'sd"
  sl_register :: "PublicKeyBytes \<Rightarrow> 'sd \<Rightarrow> (NotSafe + unit) \<times> 'sd"
  sl_prune_attestations :: "PublicKeyBytes list \<Rightarrow> Epoch \<Rightarrow> 'sd \<Rightarrow> (NotSafe + unit) \<times> 'sd"
  sl_prune_blocks :: "PublicKeyBytes list \<Rightarrow> Slot \<Rightarrow> 'sd \<Rightarrow> (NotSafe + unit) \<times> 'sd"

datatype VsError =
    DoppelgangerProtected PublicKeyBytes
  | UnknownPubkey PublicKeyBytes
  | Slashable NotSafe
  | SameData
  | GreaterThanCurrentSlot Slot Slot
  | GreaterThanCurrentEpoch Epoch Epoch
  | UnableToSignAttestation
  | UnableToSign SigningError

text \<open>\<open>vs_signed\<close> lists the messages that keys of this client have signed; it models nothing of the code.\<close>

record ('ks, 'sd) ValidatorStore =
  vs_validators :: "'ks InitializedValidators"
  vs_slashing :: 'sd
  vs_last_prune :: Epoch
  vs_doppelganger :: "dg_states option"
  vs_fee_recipient_process :: "bytes option"
  vs_gas_limit :: "u64 option"
  vs_builder_proposals :: bool
  vs_signed :: "(PublicKeyBytes \<times> SignableMessage) list"

definition doppelganger_protection_allows_signing :: "PublicKeyBytes \<Rightarrow> ('ks, 'sd) ValidatorStore \<Rightarrow> bool" where
  "doppelganger_protection_allows_signing pk s = (case vs_doppelganger s of
      None \<Rightarrow> True
    | Some states \<Rightarrow> only_safe (validator_status states pk) \<noteq> None)"

definition doppelganger_bypassed_signing_method ::
  "PublicKeyBytes \<Rightarrow> (('ks, 'sd) ValidatorStore, VsError, 'ks SigningMethod) act" where
  "doppelganger_bypassed_signing_method pk s = ((case iv_signing_method_for (vs_validators s) pk of
      Some m \<Rightarrow> Ok m | None \<Rightarrow> Err (UnknownPubkey pk)), s)"

definition doppelganger_checked_signing_method ::
  "PublicKeyBytes \<Rightarrow> (('ks, 'sd) ValidatorStore, VsError, 'ks SigningMethod) act" where
  "doppelganger_checked_signing_method pk s =
    (if doppelganger_protection_allows_signing pk s then doppelganger_bypassed_signing_method pk s
     else (Err (DoppelgangerProtected pk), s))"

definition sign_root ::
  "('p1, 'p2) blst_lib \<Rightarrow> sign_env \<Rightarrow> PublicKeyBytes \<Rightarrow> 'ks SigningMethod \<Rightarrow> SignableMessage \<Rightarrow> Hash256 \<Rightarrow> bool \<Rightarrow> Epoch \<Rightarrow>
    (('ks, 'sd) ValidatorStore, VsError, WrapSignature) act" where
  "sign_root L V pk m msg root fork_info e s = (let (r, signed) = get_signature_from_root L V m msg root fork_info e in
    (map_err UnableToSign r, if signed then s\<lparr>vs_signed := vs_signed s @ [(pk, msg)]\<rparr> else s))"

definition get_signature ::
  "('p1, 'p2) blst_lib \<Rightarrow> spec_lib \<Rightarrow> sign_env \<Rightarrow> PublicKeyBytes \<Rightarrow> 'ks SigningMethod \<Rightarrow> SignableMessage \<Rightarrow> Domain \<Rightarrow> Epoch \<Rightarrow>
    (('ks, 'sd) ValidatorStore, VsError, WrapSignature) act" where
  "get_signature L P V pk m msg domain e = sign_root L V pk m msg (sp_signing_root P msg (sp_domain P e domain)) True e"

text \<open>What stands between the slashing protection and the signature, for blocks and for attestations.\<close>

definition sign_when_safe ::
  "('p1, 'p2) blst_lib \<Rightarrow> spec_lib \<Rightarrow> sign_env \<Rightarrow> PublicKeyBytes \<Rightarrow> SignableMessage \<Rightarrow> Domain \<Rightarrow> Epoch \<Rightarrow>
    (PublicKeyBytes \<Rightarrow> Hash256 \<Rightarrow> 'sd \<Rightarrow> (NotSafe + Safe) \<times> 'sd) \<Rightarrow>
    (('ks, 'sd) ValidatorStore, VsError, WrapSignature) act" where
  "sign_when_safe L P V pk msg domain e check =
    bindM (\<lambda>s. let (r, sd) = check pk (sp_signing_root P msg (sp_domain P e domain)) (vs_slashing s) in
      (Ok r, s\<lparr>vs_slashing := sd\<rparr>)) (\<lambda>status.
    case status of
      Inr Valid \<Rightarrow> bindM (doppelganger_checked_signing_method pk) (\<lambda>m. get_signature L P V pk m msg domain e)
    | Inr SameDataSafe \<Rightarrow> liftO (Err SameData)
    | Inl reason \<Rightarrow> liftO (Err (Slashable reason)))"

definition sign_block ::
  "('p1, 'p2) blst_lib \<Rightarrow> slot_lib \<Rightarrow> spec_lib \<Rightarrow> 'sd slash_lib \<Rightarrow> sign_env \<Rightarrow> PublicKeyBytes \<Rightarrow> BeaconBlock \<Rightarrow> Slot \<Rightarrow>
    (('ks, 'sd) ValidatorStore, VsError, BeaconBlock \<times> WrapSignature) act" where
  "sign_block L S P D V pk block current_slot =
    (if current_slot < bb_slot block then liftO (Err (GreaterThanCurrentSlot (bb_slot block) current_slot))
     else bindM (sign_when_safe L P V pk (BeaconBlock block) BeaconProposer (slot_epoch S (bb_slot block))
         (\<lambda>pk root. sl_block D pk (bb_slot block) root)) (\<lambda>signature.
       retM (block, signature)))"

definition sign_attestation ::
  "('p1, 'p2) blst_lib \<Rightarrow> spec_lib \<Rightarrow> 'sd slash_lib \<Rightarrow> sign_env \<Rightarrow> PublicKeyBytes \<Rightarrow> nat \<Rightarrow> Attestation \<Rightarrow> Epoch \<Rightarrow>
    (('ks, 'sd) ValidatorStore, VsError, Attestation) act" where
  "sign_attestation L P D V pk position attestation current_epoch =
    (let data = at_data attestation in
     if current_epoch < ad_target_epoch data then liftO (Err (GreaterThanCurrentEpoch (ad_target_epoch data) current_epoch))
     else bindM (sign_when_safe L P V pk (AttestationData data) BeaconAttester (ad_target_epoch data)
         (\<lambda>pk root. sl_attestation D pk (ad_source_epoch data) (ad_target_epoch data) root)) (\<lambda>signature.
       if at_bits attestation \<le> position \<or> position \<in> fst ` set (at_signatures attestation)
       then liftO (Err UnableToSignAttestation)
       else retM (attestation\<lparr>at_signatures := at_signatures attestation @ [(position, signature)]\<rparr>)))"

text \<open>Messages that are not slashable.  The first two are held back by doppelganger protection, the others are not.\<close>

definition randao_reveal ::
  "('p1, 'p2) blst_lib \<Rightarrow> spec_lib \<Rightarrow> sign_env \<Rightarrow> PublicKeyBytes \<Rightarrow> Epoch \<Rightarrow>
    (('ks, 'sd) ValidatorStore, VsError, WrapSignature) act" where
  "randao_reveal L P V pk e = bindM (doppelganger_checked_signing_method pk) (\<lambda>m. get_signature L P V pk m (RandaoReveal e) Randao e)"

definition produce_signed_aggregate_and_proof ::
  "('p1, 'p2) blst_lib \<Rightarrow> spec_lib \<Rightarrow> sign_env \<Rightarrow> PublicKeyBytes \<Rightarrow> u64 \<Rightarrow> Attestation \<Rightarrow> WrapSignature \<Rightarrow>
    (('ks, 'sd) ValidatorStore, VsError, WrapSignature) act" where
  "produce_signed_aggregate_and_proof L P V pk aggregator_index aggregate proof =
    bindM (doppelganger_checked_signing_method pk) (\<lambda>m.
      get_signature L P V pk m (SignedAggregateAndProof aggregator_index aggregate proof) AggregateAndProof
        (ad_target_epoch (at_data aggregate)))"

definition sign_validator_registration_data ::
  "('p1, 'p2) blst_lib \<Rightarrow> spec_lib \<Rightarrow> sign_env \<Rightarrow> PublicKeyBytes \<Rightarrow> bytes \<Rightarrow>
    (('ks, 'sd) ValidatorStore, VsError, WrapSignature) act" where
  "sign_validator_registration_data L P V pk rest = bindM (doppelganger_bypassed_signing_method pk) (\<lambda>m.
    let msg = ValidatorRegistration pk rest in sign_root L V pk m msg (sp_signing_root P msg (sp_builder_domain P)) False 0)"

definition produce_selection_proof ::
  "('p1, 'p2) blst_lib \<Rightarrow> slot_lib \<Rightarrow> spec_lib \<Rightarrow> sign_env \<Rightarrow> PublicKeyBytes \<Rightarrow> Slot \<Rightarrow>
    (('ks, 'sd) ValidatorStore, VsError, WrapSignature) act" where
  "produce_selection_proof L S P V pk slot = bindM (doppelganger_bypassed_signing_method pk) (\<lambda>m.
    get_signature L P V pk m (SelectionProof slot) SelectionProofDomain (slot_epoch S slot))"

definition produce_sync_selection_proof ::
  "('p1, 'p2) blst_lib \<Rightarrow> slot_lib \<Rightarrow> spec_lib \<Rightarrow> sign_env \<Rightarrow> PublicKeyBytes \<Rightarrow> Slot \<Rightarrow> u64 \<Rightarrow>
    (('ks, 'sd) ValidatorStore, VsError, WrapSignature) act" where
  "produce_sync_selection_proof L S P V pk slot subnet_id = bindM (doppelganger_bypassed_signing_method pk) (\<lambda>m.
    get_signature L P V pk m (SyncSelectionProof slot subnet_id) SyncCommitteeSelectionProof (slot_epoch S slot))"

definition produce_sync_committee_signature ::
  "('p1, 'p2) blst_lib \<Rightarrow> slot_lib \<Rightarrow> spec_lib \<Rightarrow> sign_env \<Rightarrow> PublicKeyBytes \<Rightarrow> Slot \<Rightarrow> Hash256 \<Rightarrow>
    (('ks, 'sd) ValidatorStore, VsError, WrapSignature) act" where
  "produce_sync_committee_signature L S P V pk slot block_root = bindM (doppelganger_bypassed_signing_method pk) (\<lambda>m.
    get_signature L P V pk m (SyncCommitteeSignature block_root slot) SyncCommittee (slot_epoch S slot))"

definition produce_signed_contribution_and_proof ::
  "('p1, 'p2) blst_lib \<Rightarrow> slot_lib \<Rightarrow> spec_lib \<Rightarrow> sign_env \<Rightarrow> PublicKeyBytes \<Rightarrow> u64 \<Rightarrow> Slot \<Rightarrow> Hash256 \<Rightarrow> WrapSignature \<Rightarrow>
    (('ks, 'sd) ValidatorStore, VsError, WrapSignature) act" where
  "produce_signed_contribution_and_proof L S P V pk aggregator_index slot contribution proof =
    bindM (doppelganger_bypassed_signing_method pk) (\<lambda>m.
      get_signature L P V pk m (SignedContributionAndProof aggregator_index slot contribution proof) ContributionAndProof
        (slot_epoch S slot))"

section \<open>Adding, starting and stopping validators\<close>

definition register_all_in_doppelganger_protection_if_enabled ::
  "slot_lib \<Rightarrow> Slot option \<Rightarrow> Slot \<Rightarrow> (('ks, 'sd) ValidatorStore, dg_error, unit) act" where
  "register_all_in_doppelganger_protection_if_enabled S now genesis = bindM (getM vs_doppelganger) (\<lambda>dg.
    case dg of
      None \<Rightarrow> retM ()
    | Some _ \<Rightarrow> bindM (getM (\<lambda>s. map fst (iv_validators (vs_validators s)))) (\<lambda>pks.
        forM pks (\<lambda>pk. bindM (getM (\<lambda>s. case vs_doppelganger s of Some st \<Rightarrow> st | None \<Rightarrow> [])) (\<lambda>st.
          bindM (liftO (of_sum (register_new_validator S now genesis pk st))) (\<lambda>st'.
          modM (\<lambda>s. s\<lparr>vs_doppelganger := Some st'\<rparr>))))))"

datatype add_error = RegisterFailed NotSafe | DoppelgangerFailed dg_error | DefinitionFailed iv_error

definition add_validator ::
  "'ks key_env \<Rightarrow> slot_lib \<Rightarrow> 'sd slash_lib \<Rightarrow> Slot option \<Rightarrow> Slot \<Rightarrow> ValidatorDefinition \<Rightarrow>
    (('ks, 'sd) ValidatorStore, add_error, ValidatorDefinition) act" where
  "add_validator K S D now genesis def =
    (let pk = vd_voting_public_key def in
     thenM (\<lambda>s. let (r, sd) = sl_register D pk (vs_slashing s) in
       (map_err RegisterFailed (of_sum r), s\<lparr>vs_slashing := sd\<rparr>))
    (thenM (bindM (getM vs_doppelganger) (\<lambda>dg. case dg of
         None \<Rightarrow> retM ()
       | Some st \<Rightarrow> bindM (liftO (map_err DoppelgangerFailed (of_sum (register_new_validator S now genesis pk st)))) (\<lambda>st'.
           modM (\<lambda>s. s\<lparr>vs_doppelganger := Some st'\<rparr>))))
    (thenM (\<lambda>s. let (r, v) = add_definition_replace_disabled K def (vs_validators s) in
       (map_err DefinitionFailed r, s\<lparr>vs_validators := v\<rparr>))
     (retM def))))"

text \<open>Errors of these operations are only logged; a panic ends the calling task.\<close>

definition on_validators ::
  "('ks InitializedValidators, iv_error, 'a) act \<Rightarrow> (('ks, 'sd) ValidatorStore, unit, unit) act" where
  "on_validators m s = (case m (vs_validators s) of
      (Panic p, v) \<Rightarrow> (Panic p, s\<lparr>vs_validators := v\<rparr>)
    | (Diverge, v) \<Rightarrow> (Diverge, s\<lparr>vs_validators := v\<rparr>)
    | (_, v) \<Rightarrow> (Ok (), s\<lparr>vs_validators := v\<rparr>))"

definition remove_validator_keystore :: "'ks key_env \<Rightarrow> PublicKeyBytes \<Rightarrow> (('ks, 'sd) ValidatorStore, unit, unit) act" where
  "remove_validator_keystore K pk = on_validators (delete_definition_and_keystore K pk)"

definition stop_validator_keystore :: "'ks key_env \<Rightarrow> PublicKeyBytes \<Rightarrow> (('ks, 'sd) ValidatorStore, unit, unit) act" where
  "stop_validator_keystore K pk = on_validators (disable_keystore K pk)"

definition start_validator_keystore :: "'ks key_env \<Rightarrow> PublicKeyBytes \<Rightarrow> (('ks, 'sd) ValidatorStore, unit, unit) act" where
  "start_validator_keystore K pk = on_validators (enable_keystore K pk)"

text \<open>The files may change during the minute between stopping and starting.\<close>

definition restart_validator_keystore ::
  "'ks key_env \<Rightarrow> 'ks key_env \<Rightarrow> PublicKeyBytes \<Rightarrow> (('ks, 'sd) ValidatorStore, unit, unit) act" where
  "restart_validator_keystore K K' pk = thenM (stop_validator_keystore K pk) (start_validator_keystore K' pk)"

section \<open>Queries and maintenance\<close>

definition voting_pubkeys ::
  "(DoppelgangerStatus \<Rightarrow> PublicKeyBytes option) \<Rightarrow> ('ks, 'sd) ValidatorStore \<Rightarrow> PublicKeyBytes list" where
  "voting_pubkeys filter_func s = List.map_filter (\<lambda>pk. filter_func (case vs_doppelganger s of
      Some states \<Rightarrow> validator_status states pk | None \<Rightarrow> SigningEnabled pk)) (map fst (iv_validators (vs_validators s)))"

definition DEFAULT_GAS_LIMIT :: u64 where
  "DEFAULT_GAS_LIMIT = 30000000"

definition proposal_data ::
  "PublicKeyBytes \<Rightarrow> ('ks, 'sd) ValidatorStore \<Rightarrow> (u64 option \<times> bytes option \<times> u64 \<times> bool) option" where
  "proposal_data pk s = map_option (\<lambda>v. (iv_index v,
      (case iv_suggested_fee_recipient v of Some a \<Rightarrow> Some a | None \<Rightarrow> vs_fee_recipient_process s),
      (case iv_gas_limit v of Some g \<Rightarrow> g | None \<Rightarrow> (case vs_gas_limit s of Some g \<Rightarrow> g | None \<Rightarrow> DEFAULT_GAS_LIMIT)),
      (case iv_builder_proposals v of Some b \<Rightarrow> b | None \<Rightarrow> vs_builder_proposals s)))
    (map_of (iv_validators (vs_validators s)) pk)"

definition SLASHING_PROTECTION_HISTORY_EPOCHS :: u64 where
  "SLASHING_PROTECTION_HISTORY_EPOCHS = 512"

definition prune_slashing_protection_db ::
  "(Epoch \<Rightarrow> Slot) \<Rightarrow> 'sd slash_lib \<Rightarrow> Epoch \<Rightarrow> ('ks, 'sd) ValidatorStore \<Rightarrow> ('ks, 'sd) ValidatorStore" where
  "prune_slashing_protection_db start_slot D current_epoch s =
    (if current_epoch div SLASHING_PROTECTION_HISTORY_EPOCHS \<le> vs_last_prune s div SLASHING_PROTECTION_HISTORY_EPOCHS then s
     else
       let new_min_target_epoch = saturating_sub current_epoch SLASHING_PROTECTION_HISTORY_EPOCHS;
           all_pubkeys = voting_pubkeys ignored s;
           (r, sd) = sl_prune_attestations D all_pubkeys new_min_target_epoch (vs_slashing s);
           s1 = s\<lparr>vs_slashing := sd\<rparr> in
       case r of
         Inl _ \<Rightarrow> s1
       | Inr _ \<Rightarrow>
           let (r2, sd2) = sl_prune_blocks D all_pubkeys (start_slot new_min_target_epoch) sd; s2 = s\<lparr>vs_slashing := sd2\<rparr> in
           (case r2 of Inl _ \<Rightarrow> s2 | Inr _ \<Rightarrow> s2\<lparr>vs_last_prune := current_epoch\<rparr>))"

end
