(* ===== verification/NodeMain.thy ===== *)
theory NodeMain
  imports Contract ValidatorStore Elgamal
begin

text \<open>
  The node (\<open>src/src/node/node.rs\<close>): the task that takes contract commands from the database and carries
  them out, the handlers of the eight commands, the cleanup of a validator, and the monitor that follows
  the addresses of the operators.

  The network, the files and the other operators answer through a \<open>node_env\<close>, a new one for each
  command: addresses from discovery, results of file operations, the outcome of a run of the key
  generation and of the distributed signing of deposits and exits, and the answers of the web server.
  An error in building the keystore is one of building its directory (\<open>ne_build_dir\<close>).
\<close>

section \<open>State and surroundings\<close>

record keystore_share =
  ksh_sk :: WrapSecretKey
  ksh_master_id :: u64
  ksh_share_id :: u64

record va_dir =
  vdir_share :: keystore_share
  vdir_committee :: "OperatorCommitteeDefinition option"

text \<open>The handler maps are given by their keys.\<close>

record ('ks, 'sd) node_state =
  nd_db :: db
  nd_secret :: bytes
  nd_name :: PublicKey
  nd_base_port :: u16
  nd_store :: "('ks, 'sd) ValidatorStore option"
  nd_tx_handlers :: "u64 list"
  nd_mempool_handlers :: "u64 list"
  nd_consensus_handlers :: "u64 list"
  nd_signature_handlers :: "u64 list"
  nd_va_dirs :: "(WrapPublicKey \<times> va_dir) list"
  nd_password_files :: "WrapPublicKey list"
  nd_dvf_dbs :: "u64 list"

record 'ks node_env =
  ne_query_ip :: "bytes \<Rightarrow> IpAddr option"
  ne_build_dir :: "lib_error + unit"
  ne_save_committee :: "lib_error + unit"
  ne_keys :: "'ks key_env"
  ne_keys_later :: "'ks key_env"
  ne_now :: "Slot option"
  ne_genesis :: Slot
  ne_remove_db :: "lib_error + unit"
  ne_remove_dir :: "lib_error + unit"
  ne_remove_password :: "lib_error + unit"
  ne_self_id :: "u32 option"
  ne_dkg :: "(DvfError, WrapKeypair \<times> WrapPublicKey \<times> (u64 \<times> WrapPublicKey) list) outcome"
  ne_ephemeral :: "bytes \<times> bytes"
  ne_nonce :: bytes
  ne_sign_digest :: "lib_error + string"
  ne_url_ok :: bool
  ne_responses :: "(lib_error + nat) list"
  ne_deposit :: "(DvfError, bytes) outcome"
  ne_exit :: "(DvfError, unit) outcome"

type_synonym ('ks, 'sd) node_act = "(('ks, 'sd) node_state, string, unit) act"

definition THRESHOLD :: u64 where
  "THRESHOLD = 3"

definition DKG_PORT_OFFSET :: u16 where
  "DKG_PORT_OFFSET = 5"

text \<open>
  The request is posted up to three times, until the server answers with code 200.  The result is \<open>Ok\<close>
  in every case in which the URL can be parsed.
\<close>

fun posts :: "(lib_error + nat) list \<Rightarrow> nat" where
  "posts [] = 0"
| "posts (r # rs) = (if r = Inr 200 then 1 else Suc (posts rs))"

definition request_to_web_server :: "'ks node_env \<Rightarrow> (string, nat) outcome" where
  "request_to_web_server W = (if ne_url_ok W then Ok (posts (take 3 (ne_responses W))) else Err ''Can't parse url'')"

section \<open>Cleanup\<close>

definition cleanup_handler :: "u64 \<Rightarrow> ('ks, 'sd) node_state \<Rightarrow> ('ks, 'sd) node_state" where
  "cleanup_handler i s = s\<lparr>nd_tx_handlers := filter (\<lambda>x. x \<noteq> i) (nd_tx_handlers s),
    nd_mempool_handlers := filter (\<lambda>x. x \<noteq> i) (nd_mempool_handlers s),
    nd_consensus_handlers := filter (\<lambda>x. x \<noteq> i) (nd_consensus_handlers s),
    nd_signature_handlers := filter (\<lambda>x. x \<noteq> i) (nd_signature_handlers s)\<rparr>"

definition on_store :: "(('ks, 'sd) ValidatorStore, unit, unit) act \<Rightarrow> ('ks, 'sd) node_act" where
  "on_store m s = (case nd_store s of
      None \<Rightarrow> (Ok (), s)
    | Some st \<Rightarrow> (case m st of
        (Panic p, st') \<Rightarrow> (Panic p, s\<lparr>nd_store := Some st'\<rparr>)
      | (Diverge, st') \<Rightarrow> (Diverge, s\<lparr>nd_store := Some st'\<rparr>)
      | (_, st') \<Rightarrow> (Ok (), s\<lparr>nd_store := Some st'\<rparr>)))"

definition cleanup_keystore :: "'ks key_env \<Rightarrow> WrapPublicKey \<Rightarrow> ('ks, 'sd) node_act" where
  "cleanup_keystore K pk = on_store (remove_validator_keystore K pk)"

definition cleanup_db :: "'ks node_env \<Rightarrow> u64 \<Rightarrow> ('ks, 'sd) node_act" where
  "cleanup_db W i = bindM (getM (\<lambda>s. i \<in> set (nd_dvf_dbs s))) (\<lambda>there. whenM there
    (thenM (liftO (map_err (\<lambda>_. ''Failed to remove DB file'') (of_sum (ne_remove_db W))))
      (modM (\<lambda>s. s\<lparr>nd_dvf_dbs := filter (\<lambda>x. x \<noteq> i) (nd_dvf_dbs s)\<rparr>))))"

definition cleanup_validator_dir :: "'ks node_env \<Rightarrow> WrapPublicKey \<Rightarrow> ('ks, 'sd) node_act" where
  "cleanup_validator_dir W pk = bindM (getM (\<lambda>s. map_of (nd_va_dirs s) pk \<noteq> None)) (\<lambda>there. whenM there
    (thenM (liftO (map_err (\<lambda>_. ''Failed to delete validator dir'') (of_sum (ne_remove_dir W))))
      (modM (\<lambda>s. s\<lparr>nd_va_dirs := AList.delete pk (nd_va_dirs s)\<rparr>))))"

text \<open>Only the first password file of the validator is removed.\<close>

definition cleanup_password_dir :: "'ks node_env \<Rightarrow> WrapPublicKey \<Rightarrow> ('ks, 'sd) node_act" where
  "cleanup_password_dir W pk = bindM (getM (\<lambda>s. pk \<in> set (nd_password_files s))) (\<lambda>there. whenM there
    (thenM (liftO (map_err (\<lambda>_. ''Failed to delete password file'') (of_sum (ne_remove_password W))))
      (modM (\<lambda>s. s\<lparr>nd_password_files := remove1 pk (nd_password_files s)\<rparr>))))"

section \<open>Validators\<close>

definition pk_of :: "('p1, 'p2) blst_lib \<Rightarrow> bytes \<Rightarrow> (string, WrapPublicKey) outcome" where
  "pk_of L b = map_err (\<lambda>_. ''Unable to deserialize validator public key'') (of_sum (pk_deserialize L b))"

definition self_index :: "PublicKey \<Rightarrow> bytes list \<Rightarrow> nat list" where
  "self_index name pks = map fst (filter (\<lambda>(_, x). x = name) (enumerate 0 pks))"

text \<open>This operator's share: the ciphertext at its position, decrypted with the key of the node.\<close>

definition own_share ::
  "('p1, 'p2) blst_lib \<Rightarrow> secp_lib \<Rightarrow> 'p1 chan_lib \<Rightarrow> bytes \<Rightarrow> bytes list \<Rightarrow> nat \<Rightarrow> (string, WrapSecretKey) outcome" where
  "own_share L E A secret encrypted i =
    (if length encrypted \<le> i then Panic ''index out of bounds''
     else bindO (map_err (\<lambda>_. []) (Ciphertext_from_bytes E (encrypted ! i))) (\<lambda>ct.
       bindO (map_err (\<lambda>_. ''Unable to decrypt'') (elgamal_decrypt E A ct secret)) (\<lambda>plain.
       map_err (\<lambda>_. ''Unable to deserialize secret key'') (of_sum (sk_deserialize L plain)))))"

definition share_definition :: "WrapPublicKey \<Rightarrow> u64 \<Rightarrow> u64 \<Rightarrow> ValidatorDefinition" where
  "share_definition pk master_id share_id = \<lparr>vd_enabled = True, vd_voting_public_key = pk, vd_graffiti = None,
    vd_suggested_fee_recipient = None, vd_gas_limit = None, vd_builder_proposals = None,
    vd_signing_definition = DistributedKeystoreDef ''voting-keystore-share.json'' (Some ''password'') None
      (Some ''operator_committee_definition.yml'') master_id share_id\<rparr>"

text \<open>Whether the validator store accepts the new validator is not looked at.\<close>

definition add_to_store ::
  "slot_lib \<Rightarrow> 'sd slash_lib \<Rightarrow> 'ks node_env \<Rightarrow> ValidatorDefinition \<Rightarrow> ('ks, 'sd) node_act" where
  "add_to_store S D W def = on_store (\<lambda>st. case add_validator (ne_keys W) S D (ne_now W) (ne_genesis W) def st of
      (Panic p, st') \<Rightarrow> (Panic p, st')
    | (Diverge, st') \<Rightarrow> (Diverge, st')
    | (_, st') \<Rightarrow> (Ok (), st'))"

definition add_validator_command ::
  "('p1, 'p2) blst_lib \<Rightarrow> secp_lib \<Rightarrow> 'p1 chan_lib \<Rightarrow> slot_lib \<Rightarrow> 'sd slash_lib \<Rightarrow> 'ks node_env \<Rightarrow>
    Validator \<Rightarrow> bytes list \<Rightarrow> bytes list \<Rightarrow> bytes list \<Rightarrow> ('ks, 'sd) node_act" where
  "add_validator_command L E A S D W validator op_pks shared_pks encrypted_sks =
    bindM (liftO (pk_of L (va_public_key validator))) (\<lambda>validator_pk.
    bindM (getM (\<lambda>s. map_of (nd_va_dirs s) validator_pk \<noteq> None)) (\<lambda>exists.
    if exists then liftO (Err ''Validator exists'')
    else bindM (getM (\<lambda>s. (nd_base_port s, nd_secret s, nd_name s))) (\<lambda>(base_port, secret, name).
      let operator_base_address = map (\<lambda>k. map_option (\<lambda>a. SocketAddr a base_port) (ne_query_ip W k)) op_pks;
          operator_ids = map (ucast :: u32 \<Rightarrow> u64) (va_releated_operators validator) in
      if \<exists>k \<in> set shared_pks. isl (pk_deserialize L k) then liftO (Err ''Some operators pk can't be deserialized!'')
      else if \<exists>k \<in> set op_pks. length k \<noteq> 33 then liftO (Panic unwrap_panic)
      else if length (self_index name op_pks) \<noteq> 1 then liftO (Err ''Can't find self public key'')
      else let i = hd (self_index name op_pks) in
        bindM (liftO (own_share L E A secret encrypted_sks i)) (\<lambda>sk.
        if length operator_ids \<le> i then liftO (Panic ''index out of bounds'')
        else
          let share = \<lparr>ksh_sk = sk, ksh_master_id = va_id validator, ksh_share_id = operator_ids ! i\<rparr>;
              def = \<lparr>ocd_total = of_nat (length op_pks), ocd_threshold = THRESHOLD, ocd_validator_id = va_id validator,
                ocd_validator_public_key = validator_pk, ocd_operator_ids = operator_ids,
                ocd_operator_public_keys = map (\<lambda>k. projr (pk_deserialize L k)) shared_pks,
                ocd_node_public_keys = op_pks, ocd_base_socket_addresses = operator_base_address\<rparr> in
          thenM (liftO (map_err (\<lambda>_. ''keystore share build failed'') (of_sum (ne_build_dir W))))
         (thenM (modM (\<lambda>s. s\<lparr>nd_va_dirs := (validator_pk, \<lparr>vdir_share = share, vdir_committee = None\<rparr>) # nd_va_dirs s,
            nd_password_files := validator_pk # nd_password_files s\<rparr>))
         (thenM (liftO (map_err (\<lambda>_. ''Unable to save committee definition'') (of_sum (ne_save_committee W))))
         (thenM (modM (\<lambda>s. s\<lparr>nd_va_dirs := AList.update validator_pk \<lparr>vdir_share = share, vdir_committee = Some def\<rparr> (nd_va_dirs s)\<rparr>))
          (add_to_store S D W (share_definition validator_pk (va_id validator) (operator_ids ! i))))))))))"

definition activate_validator ::
  "('p1, 'p2) blst_lib \<Rightarrow> 'ks node_env \<Rightarrow> Validator \<Rightarrow> ('ks, 'sd) node_act" where
  "activate_validator L W validator = bindM (liftO (pk_of L (va_public_key validator))) (\<lambda>pk.
    on_store (start_validator_keystore (ne_keys W) pk))"

definition stop_validator ::
  "('p1, 'p2) blst_lib \<Rightarrow> 'ks node_env \<Rightarrow> Validator \<Rightarrow> ('ks, 'sd) node_act" where
  "stop_validator L W validator = bindM (liftO (pk_of L (va_public_key validator))) (\<lambda>pk.
    thenM (modM (cleanup_handler (va_id validator))) (on_store (stop_validator_keystore (ne_keys W) pk)))"

definition remove_validator ::
  "('p1, 'p2) blst_lib \<Rightarrow> 'ks node_env \<Rightarrow> Validator \<Rightarrow> ('ks, 'sd) node_act" where
  "remove_validator L W validator = bindM (liftO (pk_of L (va_public_key validator))) (\<lambda>pk.
    thenM (modM (cleanup_handler (va_id validator)))
   (thenM (cleanup_keystore (ne_keys W) pk)
   (thenM (cleanup_db W (va_id validator))
   (thenM (cleanup_validator_dir W pk)
    (cleanup_password_dir W pk)))))"

definition restart_validator :: "'ks node_env \<Rightarrow> u64 \<Rightarrow> WrapPublicKey \<Rightarrow> (('ks, 'sd) node_state, DvfError, unit) act" where
  "restart_validator W i pk = thenM (modM (cleanup_handler i)) (\<lambda>s. case nd_store s of
      None \<Rightarrow> (Err ValidatorStoreNotReady, s)
    | Some _ \<Rightarrow> (case on_store (restart_validator_keystore (ne_keys W) (ne_keys_later W) pk) s of
        (Panic p, s') \<Rightarrow> (Panic p, s')
      | (Diverge, s') \<Rightarrow> (Diverge, s')
      | (_, s') \<Rightarrow> (Ok (), s')))"

section \<open>The monitor of addresses\<close>

text \<open>
  One round of \<open>spawn_committee_ip_monitor\<close>.  The result says whether an address has changed.  An address
  that is not there takes the base port of this node.
\<close>

fun refresh_addresses ::
  "(bytes \<Rightarrow> IpAddr option) \<Rightarrow> u16 \<Rightarrow> PublicKey list \<Rightarrow> SocketAddr option list \<Rightarrow>
    (DvfError, SocketAddr option list \<times> bool) outcome" where
  "refresh_addresses q base_port [] as = Ok (as, False)"
| "refresh_addresses q base_port (k # ks) [] =
    (if q k = None then refresh_addresses q base_port ks [] else Panic ''index out of bounds'')"
| "refresh_addresses q base_port (k # ks) (a # as) =
    bindO (refresh_addresses q base_port ks as) (\<lambda>(as', restart).
    case q k of
      None \<Rightarrow> Ok (a # as', restart)
    | Some i \<Rightarrow> (case a of
        Some socket \<Rightarrow> if ip socket \<noteq> i then Ok (Some (SocketAddr i (port socket)) # as', True) else Ok (a # as', restart)
      | None \<Rightarrow> Ok (Some (SocketAddr i base_port) # as', True)))"

text \<open>
  The restart is tried again every minute while there is no validator store; \<open>others\<close> gives what the other
  tasks do in each of these minutes.  If there never is a store, the loop does not end.
\<close>

fun restart_until_ready ::
  "'ks node_env \<Rightarrow> u64 \<Rightarrow> WrapPublicKey \<Rightarrow> (('ks, 'sd) node_state \<Rightarrow> ('ks, 'sd) node_state) list \<Rightarrow>
    (('ks, 'sd) node_state, DvfError, unit) act" where
  "restart_until_ready W i pk others s = (case restart_validator W i pk s of
      (Err ValidatorStoreNotReady, s') \<Rightarrow> (case others of
          [] \<Rightarrow> (Diverge, s')
        | f # fs \<Rightarrow> restart_until_ready W i pk fs (f s'))
    | (Err _, s') \<Rightarrow> (Ok (), s')
    | (r, s') \<Rightarrow> (r, s'))"

definition save_committee :: "OperatorCommitteeDefinition \<Rightarrow> ('ks, 'sd) node_state \<Rightarrow> ('ks, 'sd) node_state" where
  "save_committee d s = s\<lparr>nd_va_dirs := map (\<lambda>(k, v). (k, if k = ocd_validator_public_key d
    then v\<lparr>vdir_committee := Some d\<rparr> else v)) (nd_va_dirs s)\<rparr>"

definition committee_ip_round ::
  "'ks node_env \<Rightarrow> (('ks, 'sd) node_state \<Rightarrow> ('ks, 'sd) node_state) list \<Rightarrow>
    (OperatorCommitteeDefinition \<times> ('ks, 'sd) node_state, DvfError, unit) act" where
  "committee_ip_round W others =
    bindM (getM (\<lambda>(d, s). refresh_addresses (ne_query_ip W) (nd_base_port s) (ocd_node_public_keys d)
      (ocd_base_socket_addresses d))) (\<lambda>r. bindM (liftO r) (\<lambda>(as, restart).
    thenM (modM (\<lambda>(d, s). (d\<lparr>ocd_base_socket_addresses := as\<rparr>, s)))
   (whenM (restart \<and> \<not> isl (ne_save_committee W))
     (\<lambda>(d, s). let (r, s') = restart_until_ready W (ocd_validator_id d) (ocd_validator_public_key d) others
       (save_committee d s) in (r, (d, s'))))))"

section \<open>Initiators\<close>

definition on_db :: "(db \<Rightarrow> (DbError, 'a) outcome) \<Rightarrow> (('ks, 'sd) node_state, string, 'a) act" where
  "on_db q = bindM (getM (\<lambda>s. q (nd_db s))) (\<lambda>r. liftO (map_err (\<lambda>_. ''Can't find initiator store'') r))"

definition stored_share ::
  "node_lib \<Rightarrow> ('p1, 'p2) blst_lib \<Rightarrow> u32 \<Rightarrow> (('ks, 'sd) node_state, string, InitiatorStoreRecord) act" where
  "stored_share N L i = bindM (on_db (query_initiator_store N L i)) (\<lambda>r.
    liftO (ok_or r ''Can't find initiator store''))"

definition self_operator_id :: "'ks node_env \<Rightarrow> (string, u32) outcome" where
  "self_operator_id W = ok_or (ne_self_id W) ''Self operator has not been set''"

definition start_initiator ::
  "node_lib \<Rightarrow> ('p1, 'p2) blst_lib \<Rightarrow> secp_lib \<Rightarrow> 'p1 chan_lib \<Rightarrow> 'ks node_env \<Rightarrow> Initiator \<Rightarrow> bytes list \<Rightarrow> ('ks, 'sd) node_act" where
  "start_initiator N L E A W initiator op_pks =
    (if \<exists>k \<in> set op_pks. ne_query_ip W k = None
     then liftO (Err ''StartInitializer: Insufficient operators discovered for DKG'')
     else bindM (liftO (self_operator_id W)) (\<lambda>self_id.
       bindM (liftO (map_err (\<lambda>_. ''run dkg failed'') (ne_dkg W))) (\<lambda>(keypair, va_pk, shared_pks).
       bindM (getM nd_secret) (\<lambda>secret.
       thenM (liftO (map_err (\<lambda>_. ''elgamal encrypt shared secret failed '')
         (elgamal_encrypt E A (ne_ephemeral W) (ne_nonce W) (kp_sk keypair) (secp_public_key E secret))))
      (bindM (liftO (unwrap_option (map_of shared_pks (ucast self_id)))) (\<lambda>_.
       thenM (liftO (map_err (\<lambda>_. ''error serialize'') (of_sum (ne_sign_digest W))))
      (thenM (liftO (request_to_web_server W))
       (modM (\<lambda>s. s\<lparr>nd_db := insert_initiator_store N \<lparr>isr_id = ini_id initiator, isr_share_bls_sk = kp_sk keypair,
         isr_validator_pk = va_pk, isr_share_bls_pks = shared_pks\<rparr> (nd_db s)\<rparr>)))))))))"

definition stored_key_matches ::
  "node_lib \<Rightarrow> ('p1, 'p2) blst_lib \<Rightarrow> u32 \<Rightarrow> bytes \<Rightarrow> (('ks, 'sd) node_state, string, InitiatorStoreRecord) act" where
  "stored_key_matches N L i validator_pk = bindM (stored_share N L i) (\<lambda>r.
    bindM (liftO (map_err (\<lambda>_. ''Can't deserilize bls pk'') (of_sum (pk_deserialize L validator_pk)))) (\<lambda>mpk.
    if mpk \<noteq> isr_validator_pk r then liftO (Err ''validator pks don't match'') else retM r))"

definition remove_initiator ::
  "node_lib \<Rightarrow> ('p1, 'p2) blst_lib \<Rightarrow> 'ks node_env \<Rightarrow> Initiator \<Rightarrow> bytes list \<Rightarrow> ('ks, 'sd) node_act" where
  "remove_initiator N L W initiator op_pks =
    (if \<exists>k \<in> set op_pks. ne_query_ip W k = None then liftO (Panic ''called `Option::unwrap()` on a `None` value'')
     else bindM (liftO (self_operator_id W)) (\<lambda>_.
       case ini_validator_pk initiator of
         None \<Rightarrow> thenM (stored_share N L (ini_id initiator)) (liftO (Panic ''called `Option::unwrap()` on a `None` value''))
       | Some pk \<Rightarrow> thenM (stored_key_matches N L (ini_id initiator) pk)
           (liftO (map_err (\<lambda>_. ''Can't get distributed voluntary exit'') (ne_exit W)))))"

definition minipool_deposit ::
  "node_lib \<Rightarrow> ('p1, 'p2) blst_lib \<Rightarrow> 'ks node_env \<Rightarrow> u32 \<Rightarrow> bytes \<Rightarrow> bytes list \<Rightarrow> ('ks, 'sd) node_act" where
  "minipool_deposit N L W i validator_pk op_pks =
    (if \<exists>k \<in> set op_pks. ne_query_ip W k = None
     then liftO (Err ''MinipoolDeposit: Insufficient operators discovered for distributed signing'')
     else bindM (liftO (self_operator_id W)) (\<lambda>_.
       thenM (stored_key_matches N L i validator_pk)
      (thenM (liftO (map_err (\<lambda>_. ''Can't get distributed deposit data'') (ne_deposit W)))
      (thenM (liftO (map_err (\<lambda>_. ''error serialize'') (of_sum (ne_sign_digest W))))
      (thenM (liftO (request_to_web_server W)) (retM ()))))))"

section \<open>The task\<close>

fun carry_out ::
  "node_lib \<Rightarrow> ('p1, 'p2) blst_lib \<Rightarrow> secp_lib \<Rightarrow> 'p1 chan_lib \<Rightarrow> slot_lib \<Rightarrow> 'sd slash_lib \<Rightarrow> 'ks node_env \<Rightarrow>
    ContractCommand \<Rightarrow> ('ks, 'sd) node_act" where
  "carry_out N L E A S D W (StartValidator v op_pks shared_pks encrypted_sks) =
    add_validator_command L E A S D W v op_pks shared_pks encrypted_sks"
| "carry_out N L E A S D W (RemoveValidator v) = remove_validator L W v"
| "carry_out N L E A S D W (ActivateValidator v) = activate_validator L W v"
| "carry_out N L E A S D W (StopValidator v) = stop_validator L W v"
| "carry_out N L E A S D W (StartInitiator i op_pks) = start_initiator N L E A W i op_pks"
| "carry_out N L E A S D W (MiniPoolCreated i pk op_pks op_ids a) = minipool_deposit N L W i pk op_pks"
| "carry_out N L E A S D W (MiniPoolReady i pk op_pks op_ids a) = minipool_deposit N L W i pk op_pks"
| "carry_out N L E A S D W (RemoveInitiator i op_pks) = remove_initiator N L W i op_pks"

text \<open>A command of the database's client, served by its task; \<open>now\<close> is the time.\<close>

definition send_db :: "node_lib \<Rightarrow> ('p1, 'p2) blst_lib \<Rightarrow> nat \<Rightarrow> DbCommand \<Rightarrow> ('ks, 'sd) node_act" where
  "send_db N L now c = modM (\<lambda>s. s\<lparr>nd_db := snd (db_step N L now 0 c (nd_db s))\<rparr>)"

text \<open>
  One round of \<open>process_contract_command\<close>.  A command that was carried out is deleted; after an error the
  task calls \<open>updatetime_contract_command\<close>.
\<close>

definition process_contract_command ::
  "node_lib \<Rightarrow> ('p1, 'p2) blst_lib \<Rightarrow> secp_lib \<Rightarrow> 'p1 chan_lib \<Rightarrow> slot_lib \<Rightarrow> 'sd slash_lib \<Rightarrow> nat \<Rightarrow> nat \<Rightarrow> 'ks node_env \<Rightarrow>
    ('ks, 'sd) node_act" where
  "process_contract_command N L E A S D tie now W =
    bindM (\<lambda>s. let (r, d) = get_contract_command tie now (nd_db s) in
      (case r of Ok ci \<Rightarrow> Ok ci | Err _ \<Rightarrow> Ok ([], 0) | Panic p \<Rightarrow> Panic p | Diverge \<Rightarrow> Diverge, s\<lparr>nd_db := d\<rparr>)) (\<lambda>(command, i).
    if i = 0 then retM ()
    else bindM (liftO (unwrap_sum (de_cmd N command) unwrap_panic)) (\<lambda>cmd s.
      case carry_out N L E A S D W cmd s of
        (Ok _, s') \<Rightarrow> send_db N L now (Database_delete_contract_command i) s'
      | (Err _, s') \<Rightarrow> send_db N L now (Database_updatetime_contract_command i) s'
      | (Panic p, s') \<Rightarrow> (Panic p, s')
      | (Diverge, s') \<Rightarrow> (Diverge, s')))"

end
