(* ===== verification/NodeDbProps.thy ===== *)
theory NodeDbProps
  imports NodeDb ThresholdProps
begin

text \<open>
  Properties of the node's database: the commands of one validator or initiator are taken in the order
  in which they were entered, after any history of the task.
\<close>

section \<open>The order of commands\<close>

definition rank :: "db \<Rightarrow> u64 \<Rightarrow> nat" where
  "rank d vid = (case map_of (contract_cmd_sequence d) vid of None \<Rightarrow> 0 | Some n \<Rightarrow> unat n)"

text \<open>
  Identifiers grow along the table and are bounded by the counter; among the commands of one owner the
  sequence numbers grow with the identifiers and are bounded by the owner's entry, which in turn has
  not passed the counter.
\<close>

definition command_inv :: "db \<Rightarrow> bool" where
  "command_inv d \<longleftrightarrow> sorted_wrt (<) (map cc_id (contract_commands d)) \<and>
    distinct (map fst (contract_cmd_sequence d)) \<and>
    (\<forall>(v, n) \<in> set (contract_cmd_sequence d). n \<noteq> 0) \<and>
    (\<forall>r \<in> set (contract_commands d). 0 < cc_id r \<and> cc_id r \<le> command_counter d \<and>
      unat (cc_sequence_num r) \<le> rank d (cc_owner r)) \<and>
    (\<forall>r \<in> set (contract_commands d). \<forall>r' \<in> set (contract_commands d). cc_owner r = cc_owner r' \<longrightarrow>
      cc_id r < cc_id r' \<longrightarrow> cc_sequence_num r < cc_sequence_num r') \<and>
    (\<forall>v. rank d v \<le> command_counter d)"

lemma command_inv_new: "command_inv (Database_new fk)"
  by (simp add: command_inv_def Database_new_def rank_def)

lemma increase_rank:
  assumes "command_inv d" "command_counter d < 2 ^ 32 - 1"
  shows "fst (increase_va_sequence v d) = of_nat (Suc (rank d v))" "unat (fst (increase_va_sequence v d)) = Suc (rank d v)"
    "rank (snd (increase_va_sequence v d)) w = (if w = v then Suc (rank d v) else rank d w)"
    "distinct (map fst (contract_cmd_sequence (snd (increase_va_sequence v d))))"
    "\<forall>(v, n) \<in> set (contract_cmd_sequence (snd (increase_va_sequence v d))). n \<noteq> 0"
    "contract_commands (snd (increase_va_sequence v d)) = contract_commands d"
    "command_counter (snd (increase_va_sequence v d)) = command_counter d"
proof -
  have i: "distinct (map fst (contract_cmd_sequence d))" "\<forall>(v, n) \<in> set (contract_cmd_sequence d). n \<noteq> 0"
    "rank d v < 2 ^ 32 - 1" using assms by (auto simp: command_inv_def intro: le_less_trans)
  have s: "unat (n + 1) = Suc (unat n)" if "unat n < 2 ^ 32 - 1" for n :: u32
    using that by (simp add: unat_word_ariths)
  have m: "map_of (map (\<lambda>(x, n). if x = v then (x, k) else (x, n)) xs) w =
      (if w = v \<and> v \<in> fst ` set xs then Some k else map_of xs w)" for k :: u32 and xs :: "(u64 \<times> u32) list"
  proof (induction xs)
    case (Cons x xs)
    then show ?case by (cases x; cases "fst x = v"; cases "w = v") simp_all
  qed simp
  have f: "map (fst \<circ> (\<lambda>(x, n). if x = v then (x, k) else (x, n))) xs = map fst xs"
    for k :: u32 and xs :: "(u64 \<times> u32) list" by (induction xs) auto
  consider "map_of (contract_cmd_sequence d) v = None" "v \<notin> fst ` set (contract_cmd_sequence d)"
    | n where "map_of (contract_cmd_sequence d) v = Some n" "n \<noteq> 0" "v \<in> fst ` set (contract_cmd_sequence d)"
  proof (cases "map_of (contract_cmd_sequence d) v")
    case None
    with that(1) show ?thesis by (simp add: map_of_eq_None_iff)
  next
    case (Some n)
    with that(2) [OF this] i(2) show ?thesis using map_of_SomeD [OF Some] by force
  qed
  note cs = this
  show "fst (increase_va_sequence v d) = of_nat (Suc (rank d v))"
    by (cases rule: cs) (simp_all add: increase_va_sequence_def rank_def)
  then show "unat (fst (increase_va_sequence v d)) = Suc (rank d v)"
    using i(3) by (simp add: unat_word_ariths unsigned_of_nat take_bit_nat_eq_self del: of_nat_Suc)
  show "rank (snd (increase_va_sequence v d)) w = (if w = v then Suc (rank d v) else rank d w)"
  proof (cases rule: cs)
    case 1
    then show ?thesis by (auto simp: increase_va_sequence_def rank_def map_add_def split: option.splits)
  next
    case (2 n)
    then show ?thesis using i(3) by (auto simp: increase_va_sequence_def rank_def m s)
  qed
  show "distinct (map fst (contract_cmd_sequence (snd (increase_va_sequence v d))))"
    using i(1) by (cases rule: cs) (simp_all add: increase_va_sequence_def f)
  show "\<forall>(v, n) \<in> set (contract_cmd_sequence (snd (increase_va_sequence v d))). n \<noteq> 0"
  proof (cases rule: cs)
    case (2 n)
    have "n + 1 \<noteq> 0" using s [of n] i(3) 2 by (auto simp: rank_def)
    then show ?thesis using i(2) 2 by (auto simp: increase_va_sequence_def split: if_splits)
  qed (use i(2) in \<open>auto simp: increase_va_sequence_def\<close>)
  show "contract_commands (snd (increase_va_sequence v d)) = contract_commands d"
    "command_counter (snd (increase_va_sequence v d)) = command_counter d"
    by (auto simp: increase_va_sequence_def Let_def)
qed

lemma insert_command_inv:
  assumes I: "command_inv d" and c: "command_counter d < 2 ^ 32 - 1"
  shows "command_inv (insert_contract_command now v cmd d)"
proof -
  note r = increase_rank [OF I c]
  obtain n d1 where n: "increase_va_sequence v d = (n, d1)" by fastforce
  have r': "distinct (map fst (contract_cmd_sequence d1))" "\<forall>(v, n) \<in> set (contract_cmd_sequence d1). n \<noteq> 0"
    "contract_commands d1 = contract_commands d" "command_counter d1 = command_counter d"
    using r(4-7) [of v] n by simp_all
  have rk: "rank d1 w = (if w = v then Suc (rank d v) else rank d w)" for w using r(3) [of v w] n by simp
  have un: "unat n = Suc (rank d v)" using r(2) [of v] n by simp
  have lt: "cc_sequence_num x < n" if "x \<in> set (contract_commands d)" "cc_owner x = v" for x
  proof -
    have "unat (cc_sequence_num x) \<le> rank d v" using I that by (auto simp: command_inv_def)
    then show ?thesis using un by (simp add: word_less_nat_alt)
  qed
  let ?row = "\<lparr>cc_id = Suc (command_counter d), cc_owner = v, cc_sequence_num = n, cc_command = cmd, cc_update_time = now\<rparr>"
  let ?d = "insert_contract_command now v cmd d"
  have d: "contract_commands ?d = contract_commands d @ [?row]" "command_counter ?d = Suc (command_counter d)"
    "contract_cmd_sequence ?d = contract_cmd_sequence d1" "rank ?d = rank d1"
    using r'(3,4) by (simp_all add: insert_contract_command_def n Let_def rank_def fun_eq_iff)
  have old: "cc_id x \<le> command_counter d" "0 < cc_id x" "unat (cc_sequence_num x) \<le> rank d (cc_owner x)"
    if "x \<in> set (contract_commands d)" for x using I that by (auto simp: command_inv_def)
  have "sorted_wrt (<) (map cc_id (contract_commands ?d))"
    using I old(1) unfolding command_inv_def d(1) by (auto simp: sorted_wrt_append le_imp_less_Suc)
  moreover have "\<forall>r \<in> set (contract_commands ?d). 0 < cc_id r \<and> cc_id r \<le> command_counter ?d \<and>
      unat (cc_sequence_num r) \<le> rank ?d (cc_owner r)"
    using old un unfolding d by (auto simp: rk intro: le_SucI)
  moreover have "\<forall>r \<in> set (contract_commands ?d). \<forall>r' \<in> set (contract_commands ?d). cc_owner r = cc_owner r' \<longrightarrow>
      cc_id r < cc_id r' \<longrightarrow> cc_sequence_num r < cc_sequence_num r'"
  proof -
    have "\<not> Suc (command_counter d) < cc_id x" if "x \<in> set (contract_commands d)" for x
      using old(1) [OF that] by simp
    then show ?thesis using I lt unfolding command_inv_def d(1) by auto
  qed
  moreover have "\<forall>w. rank ?d w \<le> command_counter ?d"
    using I unfolding command_inv_def d by (auto simp: rk intro: le_SucI)
  ultimately show ?thesis unfolding command_inv_def d(3) by (intro conjI r')
qed

lemma command_inv_frame:
  assumes "command_inv d" "contract_cmd_sequence d' = contract_cmd_sequence d" "command_counter d' = command_counter d"
    and "contract_commands d' = map g (filter P (contract_commands d))"
    and "\<And>r. cc_id (g r) = cc_id r \<and> cc_owner (g r) = cc_owner r \<and> cc_sequence_num (g r) = cc_sequence_num r"
  shows "command_inv d'"
proof -
  have "rank d' = rank d" using assms(2) by (simp add: rank_def fun_eq_iff)
  moreover have "sorted_wrt (<) (map cc_id (contract_commands d'))"
    using assms(1,4,5) by (auto simp: command_inv_def comp_def sorted_wrt_map intro: sorted_wrt_filter)
  ultimately show ?thesis using assms unfolding command_inv_def by auto
qed

lemma command_inv_same:
  assumes "command_inv d" "contract_cmd_sequence d' = contract_cmd_sequence d" "command_counter d' = command_counter d"
    and "contract_commands d' = contract_commands d"
  shows "command_inv d'"
  using command_inv_frame [OF assms(1-3), of id "\<lambda>_. True"] assms(4) by simp

lemma mapping_frame:
  "map_validator_operators k is d = Some d' \<Longrightarrow> contract_cmd_sequence d' = contract_cmd_sequence d \<and>
    command_counter d' = command_counter d \<and> contract_commands d' = contract_commands d"
  "contract_cmd_sequence (map_initiator_operators i is d) = contract_cmd_sequence d \<and>
    command_counter (map_initiator_operators i is d) = command_counter d \<and>
    contract_commands (map_initiator_operators i is d) = contract_commands d"
  by (induction "is" arbitrary: d) (auto simp: map_validator_operator_def split: option.splits if_splits)

lemma db_step_inv:
  assumes I: "command_inv d" and c: "command_counter d < 2 ^ 32 - 1"
  shows "command_inv (snd (db_step N L now tie c' d))" "command_counter (snd (db_step N L now tie c' d)) \<le> Suc (command_counter d)"
proof -
  have u: "command_inv (updatetime_contract_command t i d)" for t i
    by (rule command_inv_frame [OF I, of _ "\<lambda>r. if cc_id r = unat i then r\<lparr>cc_update_time := t\<rparr> else r" "\<lambda>_. True"])
      (simp_all add: updatetime_contract_command_def)
  have "command_inv (delete_contract_command i d)" for i
    by (rule command_inv_frame [OF I, of _ id "\<lambda>r. cc_id r \<noteq> unat i"]) (simp_all add: delete_contract_command_def)
  moreover have "command_inv (insert_validator N v d)" for v
    by (rule command_inv_same [OF I])
      (auto simp: insert_validator_def Let_def split: option.split dest: mapping_frame(1))
  moreover have "command_inv (insert_initiator N i d)" for i
    by (rule command_inv_same [OF I]) (auto simp: insert_initiator_def Let_def mapping_frame(2))
  moreover have "command_inv (snd (delete_initiator N i d))" for i
    by (rule command_inv_same [OF I]) (auto simp: delete_initiator_def Let_def split: outcome.split option.split)
  moreover have "command_inv (insert_operator N x d)" "command_inv (delete_validator k d)" "command_inv (set_active b k d)"
    "command_inv (snd (update_initiator i k k' d))" "command_inv (insert_initiator_store N r d)" for x k b i k' r
    by (rule command_inv_same [OF I]; simp add: insert_operator_def delete_validator_def set_active_def
        update_initiator_def insert_initiator_store_def Let_def)+
  ultimately show "command_inv (snd (db_step N L now tie c' d))"
    using I u insert_command_inv [OF I c]
    by (cases c') (auto simp: reply_of_def delete_operator_def get_contract_command_def enable_validator_def
        disable_validator_def split_def Let_def split: option.split)
  show "command_counter (snd (db_step N L now tie c' d)) \<le> Suc (command_counter d)"
    using increase_rank(7) [OF I c]
    by (cases c') (auto simp: reply_of_def delete_operator_def get_contract_command_def enable_validator_def
        disable_validator_def split_def insert_contract_command_def updatetime_contract_command_def
        delete_contract_command_def insert_validator_def insert_initiator_def mapping_frame(2) delete_initiator_def
        insert_operator_def delete_validator_def set_active_def update_initiator_def insert_initiator_store_def Let_def
        split: option.split outcome.split dest: mapping_frame(1))
qed

lemma db_run_inv:
  assumes "command_inv d" "command_counter d + length cs < 2 ^ 32"
  shows "command_inv (db_run N L cs d) \<and> command_counter (db_run N L cs d) \<le> command_counter d + length cs"
  using assms
proof (induction cs arbitrary: d)
  case (Cons x cs)
  obtain now tie c where x: "x = (now, tie, c)" by (cases x)
  obtain r d' where s: "db_step N L now tie c d = (r, d')" by fastforce
  have c: "command_counter d < 2 ^ 32 - 1" using Cons.prems(2) by simp
  have I: "command_inv d'" "command_counter d' \<le> Suc (command_counter d)"
    using db_step_inv [OF Cons.prems(1) c, of N L now tie c] s by simp_all
  with Cons.IH [OF I(1)] Cons.prems(2) show ?case by (cases r) (auto simp: x s)
qed simp

lemma first_by_None [simp]: "first_by tie f rows = None \<longleftrightarrow> rows = []"
  by (simp add: first_by_def Let_def)

lemma first_by_Some:
  assumes "first_by tie f rows = Some r"
  shows "r \<in> set rows" "r' \<in> set rows \<Longrightarrow> f r \<le> f r'"
proof -
  let ?m = "Min (set (map f rows))" and ?ms = "filter (\<lambda>r. f r = Min (set (map f rows))) rows"
  have ne: "rows \<noteq> []" and r: "r = ?ms ! (tie mod length ?ms)"
    using assms by (auto simp: first_by_def Let_def split: if_splits)
  have "?m \<in> set (map f rows)" using ne by (intro Min_in) auto
  then have "?ms \<noteq> []" by (auto simp: filter_empty_conv)
  then have "r \<in> set ?ms" unfolding r by (intro nth_mem) (simp add: mod_less_divisor)
  then show "r \<in> set rows" "r' \<in> set rows \<Longrightarrow> f r \<le> f r'" by auto
qed

lemma select_command_oldest:
  assumes I: "command_inv d" and s: "select_command tie d = Some r"
  shows "r \<in> set (contract_commands d)"
    and "r' \<in> set (contract_commands d) \<Longrightarrow> cc_owner r' = cc_owner r \<Longrightarrow> cc_id r \<le> cc_id r'"
proof -
  obtain q :: command_row where f: "first_by tie (\<lambda>r. unat (cc_sequence_num r))
      (filter (\<lambda>r'. cc_owner r' = cc_owner q) (contract_commands d)) = Some r"
    using s by (auto simp: select_command_def split: option.splits intro: that)
  note m = first_by_Some(1) [OF f] first_by_Some(2) [OF f]
  show r: "r \<in> set (contract_commands d)" using m(1) by simp
  assume r': "r' \<in> set (contract_commands d)" "cc_owner r' = cc_owner r"
  then have "cc_sequence_num r \<le> cc_sequence_num r'" using m by (simp add: word_le_nat_alt)
  moreover have "cc_id r' < cc_id r \<Longrightarrow> cc_sequence_num r' < cc_sequence_num r"
    using I r r' by (simp add: command_inv_def)
  ultimately show "cc_id r \<le> cc_id r'" by (meson leD leI)
qed

text \<open>C37: Commands of one owner are handed out in the order in which they were recorded.  After any
  history of database commands (fewer than 2^32 of them, so that no identifier overflows), asking for a
  contract command returns a real one exactly when the table holds one, never panics, and what it
  returns is the stored command with the smallest identifier among all stored commands of its owner,
  whatever order SQLite uses for rows with equal times.\<close>

theorem commands_in_order:
  assumes "length cs < 2 ^ 32 - 1" and d_def: "d = db_run N L cs (Database_new fk)"
  shows "\<exists>c i d'. get_contract_command tie now d = (Ok (c, i), d') \<and> (i = 0 \<longleftrightarrow> contract_commands d = []) \<and>
    (i \<noteq> 0 \<longrightarrow> (\<exists>r \<in> set (contract_commands d). cc_id r = unat i \<and> cc_command r = c \<and>
      (\<forall>r' \<in> set (contract_commands d). cc_owner r' = cc_owner r \<longrightarrow> cc_id r \<le> cc_id r')))"
proof (cases "select_command tie d")
  case None
  then have "contract_commands d = []"
    by (auto simp: select_command_def filter_empty_conv split: option.splits dest: first_by_Some(1))
  then show ?thesis using None by (simp add: get_contract_command_def)
next
  case (Some r)
  have I: "command_inv d" and c: "command_counter d < 2 ^ 32 - 1"
    using db_run_inv [OF command_inv_new, of fk cs N L] assms(1) by (simp_all add: d_def Database_new_def)
  note r = select_command_oldest(1) [OF I Some] select_command_oldest(2) [OF I Some]
  have "0 < cc_id r" "cc_id r \<le> command_counter d" using I r(1) by (auto simp: command_inv_def)
  then have b: "cc_id r < 2 ^ 32" "0 < cc_id r" using c by auto
  then have u: "unat (of_nat (cc_id r) :: u32) = cc_id r" by (simp add: unsigned_of_nat take_bit_nat_eq_self)
  then have nz: "(of_nat (cc_id r) :: u32) \<noteq> 0" using b(2) by (metis less_irrefl unat_0)
  have "get_contract_command tie now d =
      (Ok (cc_command r, of_nat (cc_id r)), updatetime_contract_command now (of_nat (cc_id r)) d)"
    using b(1) Some by (simp add: get_contract_command_def)
  then show ?thesis using r u nz by (auto intro!: bexI [of _ r])
qed

definition toy_node :: node_lib where
  "toy_node = \<lparr>hex_encode = map (\<lambda>b. char_of (unat b)), hex_decode = (\<lambda>s. Inr (map (\<lambda>c. of_nat (of_char c)) s)),
    hex_address = map (\<lambda>b. char_of (unat b)), b64_encode = map (\<lambda>b. char_of (unat b)),
    b64_decode = (\<lambda>s. Inr (map (\<lambda>c. of_nat (of_char c)) s)), ser_cmd = (\<lambda>_. []), de_cmd = (\<lambda>_. Inl 0)\<rparr>"

theorem commands_in_order_witness:
  "\<exists>c i d'. get_contract_command 1 9 (db_run toy_node toy_blst
        [(5, 0, InsertContractCommand 7 ''start''), (5, 0, InsertContractCommand 7 ''stop'')] (Database_new True)) =
      (Ok (c, i), d') \<and> i \<noteq> 0 \<and> c = ''start''"
proof -
  let ?d = "db_run toy_node toy_blst
    [(5, 0, InsertContractCommand 7 ''start''), (5, 0, InsertContractCommand 7 ''stop'')] (Database_new True)"
  have d: "contract_commands ?d = [\<lparr>cc_id = 1, cc_owner = 7, cc_sequence_num = 1, cc_command = ''start'', cc_update_time = 5\<rparr>,
      \<lparr>cc_id = 2, cc_owner = 7, cc_sequence_num = 2, cc_command = ''stop'', cc_update_time = 5\<rparr>]"
    by (simp add: insert_contract_command_def increase_va_sequence_def Database_new_def Let_def)
  show ?thesis
    using commands_in_order [of "[(5, 0, InsertContractCommand 7 ''start''), (5, 0, InsertContractCommand 7 ''stop'')]"
        ?d toy_node toy_blst True 1 9] unfolding d by auto
qed

end
