(* ===== verification/ContractProps.thy ===== *)
theory ContractProps
  imports Contract NodeDbProps
begin

text \<open>
  Properties of the watcher of the contracts: with complete answers every event is handled once and in
  order; and which events an outage or the limit of a query makes the task lose.
\<close>

section \<open>Handling logs\<close>

definition safe_log :: "(bytes \<times> TopicHandler) list \<Rightarrow> node_lib \<Rightarrow> eth_lib \<Rightarrow> Log \<Rightarrow> bool" where
  "safe_log hs N E l \<longleftrightarrow> log_block_number l \<noteq> None \<and> (\<exists>t ts h. log_topics l = t # ts \<and> map_of hs t = Some h \<and>
    (\<forall>now pk w d p. fst (process h N E now pk w l d) \<noteq> Panic p \<and> fst (process h N E now pk w l d) \<noteq> Diverge))"

text \<open>
  What a query answers that asks for at most \<open>n\<close> logs, when \<open>ls\<close> are the logs that match: only logs that
  match, and all of them if they are at most \<open>n\<close>.  Of more logs it may leave out any.
\<close>

definition limited :: "nat \<Rightarrow> Log list \<Rightarrow> lib_error + Log list \<Rightarrow> bool" where
  "limited n ls r \<longleftrightarrow> (\<exists>as. r = Inr as \<and> mset as \<subseteq># mset ls \<and> (length ls \<le> n \<longrightarrow> mset as = mset ls))"

definition kind_between :: "Log list \<Rightarrow> (Log \<Rightarrow> bool) \<Rightarrow> u64 \<Rightarrow> u64 \<Rightarrow> Log list" where
  "kind_between chain k b h = filter (\<lambda>l. k l \<and> b \<le> block_of l \<and> block_of l \<le> h) chain"

text \<open>
  A round whose queries are both answered, at the head \<open>h\<close>.  The block number read afterwards is \<open>h\<close> or the
  next one.
\<close>

definition answers :: "Log list \<Rightarrow> (Log \<Rightarrow> bool) \<Rightarrow> u64 \<Rightarrow> log_tick \<Rightarrow> bool" where
  "answers chain va h t \<longleftrightarrow>
    (\<forall>b n. limited n (kind_between chain va b h) (lt_va t b n)) \<and>
    (\<forall>b n. limited n (kind_between chain (\<lambda>l. \<not> va l) b h) (lt_initiator t b n)) \<and>
    lt_file_ok t \<and> (\<exists>c. w_block_number (lt_web3 t) = Inr c \<and> h \<le> c \<and> c \<le> h + 1)"

text \<open>From block \<open>b\<close> on, at most 20 logs of each kind come up between two of the heads \<open>hs\<close>.\<close>

fun few :: "Log list \<Rightarrow> (Log \<Rightarrow> bool) \<Rightarrow> u64 \<Rightarrow> u64 list \<Rightarrow> bool" where
  "few chain va b [] \<longleftrightarrow> True"
| "few chain va b (h # hs) \<longleftrightarrow> length (kind_between chain va b h) \<le> 20 \<and>
    length (kind_between chain (\<lambda>l. \<not> va l) b h) \<le> 20 \<and> few chain va (h + 1) hs"

lemma word_succ_le: "h < (x :: u64) \<Longrightarrow> h + 1 \<le> x"
proof -
  assume a: "h < x"
  then have "unat h < unat x" by (simp add: word_less_nat_alt)
  moreover have "unat x < 2 ^ 64" using unsigned_less [of x] by simp
  ultimately have "unat (h + 1) = Suc (unat h)" by (simp add: unat_word_ariths)
  then show ?thesis using a by (simp add: word_le_nat_alt word_less_nat_alt)
qed

lemma word_succ_less: "x \<le> h \<Longrightarrow> h < - 1 \<Longrightarrow> x < x + (1 :: u64)"
  and word_succ_mono: "x \<le> h \<Longrightarrow> h < - 1 \<Longrightarrow> x + 1 \<le> h + (1 :: u64)"
proof -
  have u: "unat (y + 1) = Suc (unat y)" if "y < - 1" for y :: u64
  proof -
    have "unat y < 2 ^ 64 - 1" using that by (simp add: word_less_nat_alt unsigned_minus_1_eq_mask mask_eq_exp_minus_1)
    then show ?thesis by (simp add: unat_word_ariths)
  qed
  assume "x \<le> h" "h < - 1"
  then show "x < x + 1" "x + 1 \<le> h + 1"
    using u [of x] u [of h] by (simp_all add: word_less_nat_alt word_le_nat_alt)
qed

lemma handle_log_safe:
  assumes "safe_log (handlers s) N E l"
  shows "\<exists>d. handle_log N E now w l s =
    (Ok (), s\<lparr>block_num := block_of l + 1, handled := handled s @ [l], contract_db := d\<rparr>)"
proof -
  obtain b t ts h where l: "log_block_number l = Some b" "log_topics l = t # ts" "map_of (handlers s) t = Some h"
    and p: "\<And>pk d p. fst (process h N E now pk w l d) \<noteq> Panic p" "\<And>pk d. fst (process h N E now pk w l d) \<noteq> Diverge"
    using assms by (auto simp: safe_log_def)
  obtain r d where r: "process h N E now (b64_encode N (operator_pk s)) w l (contract_db s) = (r, d)" by fastforce
  then have "(\<exists>e. r = Err e) \<or> r = Ok ()" using p [of "b64_encode N (operator_pk s)" "contract_db s"] by (cases r) auto
  then show ?thesis using l r
    by (auto simp: handle_log_def act_simps unwrap_option_def logged_def block_of_def)
qed

lemma handle_logs_safe:
  assumes "\<forall>l \<in> set ls. safe_log (handlers s) N E l"
  shows "\<exists>d. forM ls (handle_log N E now w) s =
    (Ok (), s\<lparr>block_num := (if ls = [] then block_num s else block_of (last ls) + 1), handled := handled s @ ls, contract_db := d\<rparr>)"
  using assms
proof (induction ls arbitrary: s)
  case Nil
  then show ?case by (auto simp: act_simps intro: exI [of _ "contract_db s"])
next
  case (Cons l ls)
  obtain d where d: "handle_log N E now w l s =
      (Ok (), s\<lparr>block_num := block_of l + 1, handled := handled s @ [l], contract_db := d\<rparr>)"
    using handle_log_safe Cons.prems by fastforce
  with Cons.IH [of "s\<lparr>block_num := block_of l + 1, handled := handled s @ [l], contract_db := d\<rparr>"] Cons.prems
  show ?case by (auto simp: act_simps)
qed

lemma mset_partition: "mset (filter P xs) + mset (filter (\<lambda>x. \<not> P x) xs) = mset xs"
  by (induction xs) auto

lemma mset_take: "mset (take n xs) \<subseteq># mset xs"
  by (metis append_take_drop_id mset_append mset_subset_eq_add_left)

lemma round_complete:
  assumes safe: "\<forall>l \<in> set chain. safe_log (handlers s) N E l" and a: "answers chain va h t"
    and b: "block_num s \<le> h" "h < - 1"
    and f: "length (kind_between chain va (block_num s) h) \<le> 20" "length (kind_between chain (\<lambda>l. \<not> va l) (block_num s) h) \<le> 20"
  shows "\<exists>s' ls. logs_round N E t s = (Ok (), s') \<and> handlers s' = handlers s \<and> handled s' = handled s @ ls \<and>
    mset ls = mset (filter (\<lambda>l. block_num s \<le> block_of l \<and> block_of l \<le> h) chain) \<and> sorted (map block_of ls) \<and>
    block_num s' \<le> h + 1 \<and> block_num s \<le> block_num s' \<and> record_file s' = Some (block_num s') \<and>
    (\<forall>l \<in> set chain. block_of l \<le> h \<and> block_num s' \<le> block_of l \<longrightarrow> False)"
proof -
  let ?new = "\<lambda>l. block_num s \<le> block_of l \<and> block_of l \<le> h"
  obtain as1 as2 where q: "lt_va t (block_num s) 20 = Inr as1" "lt_initiator t (block_num s) 20 = Inr as2"
    "mset as1 = mset (kind_between chain va (block_num s) h)" "mset as2 = mset (kind_between chain (\<lambda>l. \<not> va l) (block_num s) h)"
    using a f unfolding answers_def limited_def by metis
  define all_logs where "all_logs = as1 @ as2"
  define ls where "ls = sort_key block_of all_logs"
  have m: "mset ls = mset (filter ?new chain)"
    using mset_partition [of va "filter ?new chain"] q(3,4) by (simp add: ls_def all_logs_def kind_between_def conj_commute)
  have st: "l \<in> set ls \<longleftrightarrow> l \<in> set chain \<and> ?new l" for l
    using arg_cong [OF m, of set_mset] by auto
  have so: "sorted (map block_of ls)" by (simp add: ls_def)
  have e: "all_logs = [] \<longleftrightarrow> ls = []" by (metis ls_def length_sort length_0_conv)
  obtain c where c: "w_block_number (lt_web3 t) = Inr c" "h \<le> c" "c \<le> h + 1" using a by (auto simp: answers_def)
  have "\<not> (\<exists>l \<in> set all_logs. log_block_number l = None)" using safe st by (auto simp: ls_def safe_log_def)
  then have r: "logs_round N E t s = thenM (if ls = [] then modM (\<lambda>s. s\<lparr>block_num := c\<rparr>)
      else forM ls (handle_log N E (lt_now t) (lt_web3 t))) (update_record_file True) s"
    using a c(1) q(1,2) unfolding logs_round_def bindM_getM Let_def
    by (auto simp: answers_def logs_or_none_def get_current_block_def of_sum_def simp flip: all_logs_def ls_def e)
  show ?thesis
  proof (cases "ls = []")
    case True
    then have no: "\<forall>l \<in> set chain. \<not> ?new l" using st by auto
    have "block_num s \<le> c" using b(1) c(2) by (rule order_trans)
    moreover have "logs_round N E t s = (Ok (), s\<lparr>block_num := c, record_file := Some c\<rparr>)"
      using r True by (simp add: act_simps update_record_file_def)
    moreover have "mset [] = mset (filter ?new chain)" using m True by simp
    ultimately show ?thesis using c no by (intro exI [of _ "s\<lparr>block_num := c, record_file := Some c\<rparr>"] exI [of _ "[]"]) auto
  next
    case False
    have "\<forall>l \<in> set ls. safe_log (handlers s) N E l" using safe st by blast
    from handle_logs_safe [OF this, of "lt_now t" "lt_web3 t"] obtain d where d: "forM ls (handle_log N E (lt_now t) (lt_web3 t)) s =
        (Ok (), s\<lparr>block_num := block_of (last ls) + 1, handled := handled s @ ls, contract_db := d\<rparr>)"
      using False by auto
    have l: "block_num s \<le> block_of (last ls)" "block_of (last ls) \<le> h" using st [of "last ls"] False by auto
    have max: "block_of l \<le> block_of (last ls)" if "l \<in> set ls" for l
    proof -
      obtain i where "i < length ls" "l = ls ! i" using \<open>l \<in> set ls\<close> by (metis in_set_conv_nth)
      then show ?thesis using sorted_nth_mono [OF so, of i "length ls - 1"] False by (simp add: last_conv_nth)
    qed
    have lt: "block_of (last ls) < block_of (last ls) + 1" "block_of (last ls) + 1 \<le> h + 1"
      using l(2) b(2) by (simp_all add: word_succ_less word_succ_mono)
    let ?s = "s\<lparr>block_num := block_of (last ls) + 1, handled := handled s @ ls, contract_db := d,
      record_file := Some (block_of (last ls) + 1)\<rparr>"
    have "logs_round N E t s = (Ok (), ?s)" using r d False by (simp add: act_simps update_record_file_def)
    moreover have "\<not> (block_of l \<le> h \<and> block_of (last ls) + 1 \<le> block_of l)" if "l \<in> set chain" for l
    proof
      assume n: "block_of l \<le> h \<and> block_of (last ls) + 1 \<le> block_of l"
      then have "block_of (last ls) < block_of l" using lt(1) by (meson order.strict_trans2)
      moreover from this have "l \<in> set ls" using that n l(1) st by auto
      ultimately show False using max [of l] by simp
    qed
    ultimately show ?thesis using m so l lt by (intro exI [of _ ?s] exI [of _ ls]) auto
  qed
qed

lemma word_succ_le_iff: "h < - 1 \<Longrightarrow> h + 1 \<le> x \<longleftrightarrow> \<not> x \<le> (h :: u64)"
  using word_succ_less [of h h] word_succ_le [of h x] by (auto simp: not_le intro: order.strict_trans2)

lemma few_from:
  assumes "few chain va b hs" "\<And>l. l \<in> set chain \<Longrightarrow> b \<le> block_of l \<longleftrightarrow> b' \<le> block_of l"
  shows "few chain va b' hs"
proof -
  have "kind_between chain k b' h = kind_between chain k b h" for k h
    unfolding kind_between_def using assms(2) by (intro filter_cong) auto
  then show ?thesis using assms(1) by (cases hs) simp_all
qed

text \<open>The logs of a round up to \<open>h\<close> and those of the later rounds, from \<open>b1\<close> up to \<open>k\<close>.\<close>

lemma join_rounds:
  assumes "mset ls = mset (filter (\<lambda>l. b \<le> block_of l \<and> block_of l \<le> h) chain)" "sorted (map block_of ls)" "b \<le> b1"
    and "sorted (map block_of ls2)" "mset ls2 = mset (filter (\<lambda>l. b1 \<le> block_of l \<and> block_of l \<le> k) chain)"
    and "h < k" and d: "\<And>l. l \<in> set chain \<Longrightarrow> b1 \<le> block_of l \<longleftrightarrow> \<not> block_of l \<le> h"
  shows "mset (ls @ ls2) = mset (filter (\<lambda>l. b \<le> block_of l \<and> block_of l \<le> k) chain) \<and> sorted (map block_of (ls @ ls2))"
proof
  let ?P = "\<lambda>l. b \<le> block_of l \<and> block_of l \<le> k"
  have low: "b \<le> block_of l" if "l \<in> set chain" "\<not> block_of l \<le> h" for l
    using d [OF that(1)] that(2) assms(3) order_trans by blast
  have "mset (filter (\<lambda>l. b \<le> block_of l \<and> block_of l \<le> h) chain) = mset (filter (\<lambda>l. block_of l \<le> h) (filter ?P chain))"
    using assms(6) by (intro arg_cong [of _ _ mset]) (auto intro!: filter_cong)
  moreover have "mset (filter (\<lambda>l. b1 \<le> block_of l \<and> block_of l \<le> k) chain) =
      mset (filter (\<lambda>l. \<not> block_of l \<le> h) (filter ?P chain))"
    using d low by (intro arg_cong [of _ _ mset]) (auto intro!: filter_cong)
  ultimately show "mset (ls @ ls2) = mset (filter ?P chain)"
    using mset_partition [of "\<lambda>l. block_of l \<le> h" "filter ?P chain"] assms(1,5) by simp
  have "block_of x \<le> h" if "x \<in> set ls" for x using arg_cong [OF assms(1), of set_mset] that by auto
  moreover have "h < block_of y" if "y \<in> set ls2" for y using arg_cong [OF assms(5), of set_mset] that d by auto
  ultimately show "sorted (map block_of (ls @ ls2))" using assms(2,4) by (force simp: sorted_append)
qed

text \<open>C38: With few events between two rounds nothing is lost and nothing is repeated.  Suppose that the head
  grows from round to round, that both queries are answered, that the block number read after them is
  at most one ahead of the head, and that the logs are ones whose handlers do not panic.  Each query asks
  for at most 20 logs and is answered in full only if no more match; suppose therefore that at most 20
  logs of each kind come up between two rounds.  Then the task runs through all rounds, the logs it has
  passed to their handlers are exactly the logs from the recorded block up to the last head, each once
  and in the order of their blocks, and the record file holds the block to continue from.  With more
  than 20 logs some may be lost (\<open>limited_answer_loses_events\<close> below).\<close>

theorem events_handled_once:
  assumes "list_all2 (answers chain va) hs ts" "hs \<noteq> []" "sorted_wrt (<) hs" "\<forall>h \<in> set hs. h < - 1" "block_num s \<le> hd hs"
    and "\<forall>l \<in> set chain. safe_log (handlers s) N E l" "few chain va (block_num s) hs"
  shows "\<exists>s' ls. logs_run N E ts s = (Ok (), s') \<and> handled s' = handled s @ ls \<and>
    mset ls = mset (filter (\<lambda>l. block_num s \<le> block_of l \<and> block_of l \<le> last hs) chain) \<and>
    sorted (map block_of ls) \<and> record_file s' = Some (block_num s')"
  using assms
proof (induction hs ts arbitrary: s rule: list_all2_induct)
  case (Cons h hs t ts)
  from round_complete [OF Cons.prems(5) Cons.hyps(1)] Cons.prems(3,4,6)
  obtain s1 ls where r: "logs_round N E t s = (Ok (), s1)" "handlers s1 = handlers s" "handled s1 = handled s @ ls"
    "mset ls = mset (filter (\<lambda>l. block_num s \<le> block_of l \<and> block_of l \<le> h) chain)" "sorted (map block_of ls)"
    "block_num s1 \<le> h + 1" "block_num s \<le> block_num s1" "record_file s1 = Some (block_num s1)"
    "\<And>l. l \<in> set chain \<Longrightarrow> block_of l \<le> h \<Longrightarrow> block_num s1 \<le> block_of l \<Longrightarrow> False" by auto
  show ?case
  proof (cases "hs = []")
    case True
    then have "ts = []" using Cons.hyps(2) by simp
    then show ?thesis using r True by (auto simp: logs_run_def act_simps)
  next
    case False
    then have h: "h < hd hs" "h < last hs" using Cons.prems(2) by auto
    then have hd: "block_num s1 \<le> hd hs" using r(6) word_succ_le order_trans by blast
    have d: "block_num s1 \<le> block_of l \<longleftrightarrow> \<not> block_of l \<le> h" if "l \<in> set chain" for l
      using r(9) [OF that] r(6) word_succ_le [of h "block_of l"] by (meson not_le order_trans)
    have "few chain va (block_num s1) hs"
      using few_from [of chain va "h + 1" hs "block_num s1"] d word_succ_le_iff [of h] Cons.prems(3,6) by simp
    with hd Cons.IH [of s1] False Cons.prems r(2) obtain s2 ls2 where i: "logs_run N E ts s1 = (Ok (), s2)"
      "handled s2 = handled s1 @ ls2" "sorted (map block_of ls2)" "record_file s2 = Some (block_num s2)"
      "mset ls2 = mset (filter (\<lambda>l. block_num s1 \<le> block_of l \<and> block_of l \<le> last hs) chain)" by auto
    have "mset (ls @ ls2) = mset (filter (\<lambda>l. block_num s \<le> block_of l \<and> block_of l \<le> last hs) chain) \<and>
        sorted (map block_of (ls @ ls2))"
      using r(4,5,7) i(3,5) h(2) d by (intro join_rounds)
    moreover have "logs_run N E (t # ts) s = (Ok (), s2)" using r(1) i(1) by (simp add: logs_run_def act_simps)
    ultimately show ?thesis using i(2,4) r(3) False by (intro exI [of _ s2] exI [of _ "ls @ ls2"]) simp
  qed
qed simp

definition toy_eth :: eth_lib where
  "toy_eth = \<lparr>parse_log = (\<lambda>e topics data. Inr [TAddress [1], TBytes data])\<rparr>"

definition removal_at :: "u64 \<Rightarrow> Log" where
  "removal_at b = \<lparr>log_block_number = Some b, log_topics = [[7]], log_data = [1, 2, 3, 4, 5, 6, 7, 8]\<rparr>"

definition toy_web3 :: "lib_error + u64 \<Rightarrow> web3" where
  "toy_web3 r = \<lparr>w_block_number = r, w_operator_by_id = (\<lambda>_. Inl 0), w_paid_block = (\<lambda>_. Inr 50)\<rparr>"

definition toy_contract :: Contract where
  "toy_contract = \<lparr>block_num = 10, record_file = None, contract_db = Database_new True, operator_pk = [1],
    handlers = [([7], ValidatorRemovalHandler)], handled = []\<rparr>"

definition toy_tick :: "Log list \<Rightarrow> u64 \<Rightarrow> log_tick" where
  "toy_tick chain h = \<lparr>lt_va = (\<lambda>b n. Inr (take n (filter (\<lambda>l. b \<le> block_of l \<and> block_of l \<le> h) chain))),
    lt_initiator = (\<lambda>b n. Inr []), lt_web3 = toy_web3 (Inr h), lt_now = 0, lt_file_ok = True\<rparr>"

lemma removal_safe: "safe_log [([7], ValidatorRemovalHandler)] N toy_eth (removal_at b)"
  by (simp add: safe_log_def removal_at_def process_validator_removal_def toy_eth_def parse_def of_sum_def param_def
      ok_or_def convert_va_pk_to_u64_def send_command_def act_simps modM_def)

theorem events_handled_once_witness:
  "\<exists>s' ls. logs_run toy_node toy_eth (map (toy_tick [removal_at 9, removal_at 15, removal_at 12]) [13, 20]) toy_contract =
      (Ok (), s') \<and> handled s' = ls \<and> mset ls = {#removal_at 12, removal_at 15#} \<and> sorted (map block_of ls)"
proof -
  let ?c = "[removal_at 9, removal_at 15, removal_at 12]"
  have "answers ?c (\<lambda>_. True) h (toy_tick ?c h)" if "h < - 1" for h
    using word_succ_less [OF order_refl that]
    by (simp add: answers_def toy_tick_def toy_web3_def limited_def kind_between_def mset_take)
  then have "list_all2 (answers ?c (\<lambda>_. True)) [13, 20] (map (toy_tick ?c) [13, 20])" by simp
  moreover have "\<forall>l \<in> set ?c. safe_log (handlers toy_contract) toy_node toy_eth l"
    using removal_safe by (simp add: toy_contract_def)
  moreover have "few ?c (\<lambda>_. True) (block_num toy_contract) [13, 20]"
    by (simp add: kind_between_def)
  ultimately show ?thesis
    using events_handled_once [of ?c "\<lambda>_. True" "[13, 20]" "map (toy_tick ?c) [13, 20]" toy_contract toy_node toy_eth]
    by (auto simp: toy_contract_def block_of_def removal_at_def add_mset_commute)
qed

section \<open>Outages\<close>

text \<open>Nothing below block \<open>c\<close> will be asked for, and nothing below it was handled since \<open>old\<close>.\<close>

definition past :: "u64 \<Rightarrow> Log list \<Rightarrow> Contract \<Rightarrow> bool" where
  "past c old s \<longleftrightarrow> c \<le> block_num s \<and> (\<exists>ls. handled s = old @ ls \<and> (\<forall>l \<in> set ls. c \<le> block_of l))"

definition sane_tick :: "u64 \<Rightarrow> log_tick \<Rightarrow> bool" where
  "sane_tick c t \<longleftrightarrow> (\<forall>b. w_block_number (lt_web3 t) = Inr b \<longrightarrow> c \<le> b) \<and>
    (\<forall>b. \<forall>l \<in> set (logs_or_none (lt_va t b 20) @ logs_or_none (lt_initiator t b 20)). b \<le> block_of l \<and> block_of l < - 1)"

interpretation pw: state_invariant "past c old" for c old .

lemma handle_log_past:
  assumes "c \<le> block_of l" "block_of l < - 1"
  shows "keeps (inv_rel (past c old)) (handle_log N E now w l)"
proof -
  have b: "c \<le> b + 1" if "log_block_number l = Some b" for b
    using assms that word_succ_less [of b b] by (auto simp: block_of_def intro: order_trans)
  have "keeps (inv_rel (past c old)) (modM (\<lambda>s. s\<lparr>block_num := b + 1\<rparr>))" if "log_block_number l = Some b" for b
    using b [OF that] by (intro pw.inv_mod) (simp add: past_def)
  moreover have "keeps (inv_rel (past c old)) (modM (\<lambda>s. s\<lparr>handled := handled s @ [l]\<rparr>))"
    using assms(1) by (intro pw.inv_mod) (force simp: past_def)
  moreover have "keeps (inv_rel (past c old)) (logged m)" for m
    by (auto simp: keeps_def inv_rel_def logged_def past_def split: prod.splits outcome.splits)
  ultimately show ?thesis unfolding handle_log_def
    by (intro pw.inv_lift pw.keeps_rules) (auto simp: unwrap_option_def split: option.splits)
qed

lemma round_past:
  assumes "sane_tick c t"
  shows "keeps (inv_rel (past c old)) (logs_round N E t)"
  unfolding keeps_def inv_rel_def
proof (intro allI impI)
  fix s assume I: "past c old s"
  let ?all = "logs_or_none (lt_va t (block_num s) 20) @ logs_or_none (lt_initiator t (block_num s) 20)"
  have l: "c \<le> block_of l \<and> block_of l < - 1" if "l \<in> set ?all" for l
    using that assms I unfolding sane_tick_def past_def by (meson order_trans)
  have f: "keeps (inv_rel (past c old)) (forM ls (handle_log N E now w))" if "set ls \<subseteq> set ?all" for ls now w
    using that
  proof (induction ls)
    case (Cons a ls)
    then have "a \<in> set ?all" by auto
    then have "keeps (inv_rel (past c old)) (handle_log N E now w a)" using l by (blast intro: handle_log_past)
    then show ?case using Cons by (simp add: pw.keeps_then)
  qed (simp add: pw.keeps_ret)
  have g: "keeps (inv_rel (past c old)) (modM (\<lambda>s. s\<lparr>block_num := b\<rparr>))" if "get_current_block (lt_web3 t) = Ok b" for b
  proof -
    have "w_block_number (lt_web3 t) = Inr b" using that by (auto simp: get_current_block_def of_sum_def split: sum.splits)
    then have "c \<le> b" using assms by (simp add: sane_tick_def)
    then show ?thesis by (intro pw.inv_mod) (simp add: past_def)
  qed
  have u: "keeps (inv_rel (past c old)) (update_record_file b)" for b
    by (auto simp: update_record_file_def past_def intro!: pw.inv_mod pw.keeps_lift)
  have "keeps (inv_rel (past c old)) (thenM (if ?all = [] then (case get_current_block (lt_web3 t) of
        Ok b \<Rightarrow> modM (\<lambda>s. s\<lparr>block_num := b\<rparr>) | _ \<Rightarrow> retM ())
      else if 2 \<le> length ?all \<and> (\<exists>l \<in> set ?all. log_block_number l = None)
      then liftO (Panic ''called `Option::unwrap()` on a `None` value'')
      else forM (sort_key block_of ?all) (handle_log N E (lt_now t) (lt_web3 t))) (update_record_file (lt_file_ok t)))"
    using g by (intro pw.keeps_then u) (auto intro!: pw.keeps_ret pw.keeps_lift f split: outcome.split)
  from pw.invD [OF this I] show "past c old (snd (logs_round N E t s))"
    by (simp add: logs_round_def bindM_getM Let_def)
qed

text \<open>C39: Events during an outage are lost.  If in one round both queries for logs fail and the block
  number \<open>c\<close> can be read again afterwards, the round moves the record to \<open>c\<close> without handling
  anything.  Whatever later rounds do, they handle no log of a block before \<open>c\<close>, as long as the queries
  return logs from the asked block on and the chain does not shrink: the events since the last handled
  one are never seen.\<close>

theorem outage_skips_events:
  assumes "lt_va t (block_num s) 20 = Inl e1" "lt_initiator t (block_num s) 20 = Inl e2"
    and "w_block_number (lt_web3 t) = Inr c" "lt_file_ok t" "\<forall>t \<in> set ts. sane_tick c t"
  shows "logs_round N E t s = (Ok (), s\<lparr>block_num := c, record_file := Some c\<rparr>) \<and>
    (\<exists>ls. handled (snd (logs_run N E (t # ts) s)) = handled s @ ls \<and> (\<forall>l \<in> set ls. c \<le> block_of l))"
proof -
  have r: "logs_round N E t s = (Ok (), s\<lparr>block_num := c, record_file := Some c\<rparr>)"
    using assms(1-4) by (simp add: logs_round_def act_simps logs_or_none_def get_current_block_def of_sum_def
        update_record_file_def)
  have "keeps (inv_rel (past c (handled s))) (logs_run N E ts)"
    using assms(5) unfolding logs_run_def
    by (induction ts) (auto intro!: pw.keeps_ret pw.keeps_then round_past)
  from pw.invD [OF this, of "s\<lparr>block_num := c, record_file := Some c\<rparr>"]
  have "past c (handled s) (snd (logs_run N E ts (s\<lparr>block_num := c, record_file := Some c\<rparr>)))"
    by (simp add: past_def)
  then show ?thesis using r by (simp add: logs_run_def act_simps past_def)
qed

theorem outage_skips_events_witness:
  "\<exists>ls. handled (snd (logs_run toy_node toy_eth
      [(toy_tick [] 20)\<lparr>lt_va := \<lambda>_ _. Inl 1, lt_initiator := \<lambda>_ _. Inl 1\<rparr>,
       toy_tick [removal_at 12, removal_at 25] 30] toy_contract)) = ls \<and> (\<forall>l \<in> set ls. 20 \<le> block_of l)"
proof -
  let ?t = "(toy_tick [] 20)\<lparr>lt_va := \<lambda>_ _. Inl 1, lt_initiator := \<lambda>_ _. Inl 1\<rparr>"
  have "sane_tick 20 (toy_tick [removal_at 12, removal_at 25] 30)"
    by (auto simp: sane_tick_def toy_tick_def toy_web3_def logs_or_none_def block_of_def removal_at_def)
  then show ?thesis
    using outage_skips_events [of ?t toy_contract 1 1 20 "[toy_tick [removal_at 12, removal_at 25] 30]" toy_node toy_eth]
    by (simp add: toy_tick_def toy_web3_def toy_contract_def)
qed

section \<open>The limit of the queries\<close>

text \<open>A log that the answers of a round leave out, while they contain a log of a later block, is lost: no later
  round handles it, as long as the queries return logs from the asked block on and the chain does not
  shrink.  With more than 20 matching logs a node that keeps to the limit leaves some out.\<close>

lemma limited_answer_loses_events:
  assumes "lt_va t (block_num s) 20 = Inr as1" "lt_initiator t (block_num s) 20 = Inr as2" "lt_file_ok t"
    and safe: "\<forall>l \<in> set (as1 @ as2). safe_log (handlers s) N E l \<and> block_of l < - 1"
    and lost: "lost \<notin> set (as1 @ as2)" "l1 \<in> set (as1 @ as2)" "block_of lost < block_of l1"
    and later: "\<forall>t \<in> set ts. sane_tick (block_of l1) t"
  shows "\<exists>ls. handled (snd (logs_run N E (t # ts) s)) = handled s @ ls \<and> lost \<notin> set ls"
proof -
  let ?c = "block_of l1" and ?ls = "sort_key block_of (as1 @ as2)"
  have ne: "as1 @ as2 \<noteq> []" "?ls \<noteq> []" using lost(2) by (auto simp: set_empty [symmetric] simp del: set_empty)
  have "\<forall>l \<in> set ?ls. safe_log (handlers s) N E l" using safe by simp
  from handle_logs_safe [OF this, of "lt_now t" "lt_web3 t"] obtain d where d: "forM ?ls (handle_log N E (lt_now t) (lt_web3 t)) s =
      (Ok (), s\<lparr>block_num := block_of (last ?ls) + 1, handled := handled s @ ?ls, contract_db := d\<rparr>)"
    using ne(2) by auto
  let ?s1 = "s\<lparr>block_num := block_of (last ?ls) + 1, handled := handled s @ ?ls, contract_db := d,
    record_file := Some (block_of (last ?ls) + 1)\<rparr>"
  have "\<not> (\<exists>l \<in> set (as1 @ as2). log_block_number l = None)" using safe by (auto simp: safe_log_def)
  then have r: "logs_round N E t s = (Ok (), ?s1)"
    using assms(1-3) ne d by (auto simp: logs_round_def act_simps logs_or_none_def update_record_file_def)
  have last: "last ?ls \<in> set (as1 @ as2)" using last_in_set [OF ne(2)] by simp
  have "?c \<le> block_of (last ?ls)"
  proof -
    obtain i where "i < length ?ls" "l1 = ?ls ! i" using lost(2) by (metis in_set_conv_nth set_sort)
    moreover have "sorted (map block_of ?ls)" by simp
    ultimately show ?thesis using sorted_nth_mono [of "map block_of ?ls" i "length ?ls - 1"] ne(2) by (simp add: last_conv_nth)
  qed
  also have "\<dots> \<le> block_of (last ?ls) + 1" using safe last by (meson order.strict_implies_order order_refl word_succ_less)
  finally have "past ?c (handled s @ ?ls) ?s1" by (simp add: past_def)
  moreover have "keeps (inv_rel (past ?c (handled s @ ?ls))) (logs_run N E ts)"
    using later unfolding logs_run_def by (induction ts) (auto intro!: pw.keeps_ret pw.keeps_then round_past)
  ultimately have "past ?c (handled s @ ?ls) (snd (logs_run N E ts ?s1))" by (rule pw.invD [rotated])
  then obtain ls2 where "handled (snd (logs_run N E ts ?s1)) = handled s @ ?ls @ ls2" "\<forall>l \<in> set ls2. ?c \<le> block_of l"
    by (auto simp: past_def)
  then show ?thesis using r lost(1,3) by (intro exI [of _ "?ls @ ls2"]) (auto simp: logs_run_def act_simps)
qed

end
