(* ===== verification/ValidatorProps.thy ===== *)
theory ValidatorProps
  imports Validators
begin

text \<open>
  Properties of the set of initialized validators: a validator that was disabled or deleted does not sign
  again before it is enabled or added, whatever other operations run; and the key cache gives back the
  key pairs that were saved.
\<close>

section \<open>Stopped validators\<close>

text \<open>
  Committee files name a fixed key \<open>key_of q\<close>, and a distributed definition refers to the file of its own
  validator.
\<close>

definition env_ok :: "(path \<Rightarrow> PublicKeyBytes) \<Rightarrow> 'ks key_env \<Rightarrow> bool" where
  "env_ok key_of K \<longleftrightarrow> (\<forall>q cd. ke_committee K q = Inr cd \<longrightarrow> ocd_validator_public_key cd = key_of q)"

definition def_ok :: "(path \<Rightarrow> PublicKeyBytes) \<Rightarrow> ValidatorDefinition \<Rightarrow> bool" where
  "def_ok key_of d = (case vd_signing_definition d of
      DistributedKeystoreDef _ _ _ (Some q) _ _ \<Rightarrow> key_of q = vd_voting_public_key d
    | _ \<Rightarrow> True)"

definition stopped :: "(path \<Rightarrow> PublicKeyBytes) \<Rightarrow> PublicKeyBytes \<Rightarrow> 'ks InitializedValidators \<Rightarrow> bool" where
  "stopped key_of pk s \<longleftrightarrow> pk \<notin> fst ` set (iv_validators s) \<and>
    (\<forall>d \<in> set (iv_definitions s). def_ok key_of d \<and> (vd_voting_public_key d = pk \<longrightarrow> \<not> vd_enabled d))"

text \<open>
  Of the definitions for a key, none but the first is enabled.  Disabling changes only the first
  definition for the key.  Operations of the set keep the keys of the definitions distinct, but the file
  that they are read from at the start may repeat a key.
\<close>

definition first_only :: "PublicKeyBytes \<Rightarrow> ValidatorDefinition list \<Rightarrow> bool" where
  "first_only pk ds \<longleftrightarrow> (\<forall>d \<in> set (tl (filter (\<lambda>d. vd_voting_public_key d = pk) ds)). \<not> vd_enabled d)"

lemma first_only_distinct: "distinct (map vd_voting_public_key ds) \<Longrightarrow> first_only pk ds"
  by (induction ds) (auto simp: first_only_def filter_empty_conv image_iff)

datatype iv_op =
    OpAdd ValidatorDefinition
  | OpReplace ValidatorDefinition
  | OpDelete PublicKeyBytes
  | OpDisable PublicKeyBytes
  | OpEnable PublicKeyBytes
  | OpFields PublicKeyBytes "bool option" "u64 option" "bool option"
  | OpFee PublicKeyBytes "bytes option"
  | OpGas PublicKeyBytes "u64 option"
  | OpIndex PublicKeyBytes u64
  | OpUpdate

fun iv_apply :: "'ks key_env \<Rightarrow> iv_op \<Rightarrow> 'ks InitializedValidators \<Rightarrow> 'ks InitializedValidators" where
  "iv_apply K (OpAdd d) s = snd (add_definition K d s)"
| "iv_apply K (OpReplace d) s = snd (add_definition_replace_disabled K d s)"
| "iv_apply K (OpDelete k) s = snd (delete_definition_and_keystore K k s)"
| "iv_apply K (OpDisable k) s = snd (disable_keystore K k s)"
| "iv_apply K (OpEnable k) s = snd (enable_keystore K k s)"
| "iv_apply K (OpFields k e g b) s = snd (set_validator_definition_fields K k e g b s)"
| "iv_apply K (OpFee k a) s = snd (set_fee_recipient K k a s)"
| "iv_apply K (OpGas k g) s = snd (set_gas_limit K k g s)"
| "iv_apply K (OpIndex k i) s = iv_set_index k i s"
| "iv_apply K OpUpdate s = snd (update_validators K s)"

text \<open>The operations that may start the validator \<open>pk\<close>.\<close>

fun starts :: "PublicKeyBytes \<Rightarrow> iv_op \<Rightarrow> bool" where
  "starts pk (OpAdd d) \<longleftrightarrow> vd_voting_public_key d = pk"
| "starts pk (OpReplace d) \<longleftrightarrow> vd_voting_public_key d = pk"
| "starts pk (OpEnable k) \<longleftrightarrow> k = pk"
| "starts pk (OpFields k e _ _) \<longleftrightarrow> k = pk \<and> e = Some True"
| "starts pk _ \<longleftrightarrow> False"

fun op_def_ok :: "(path \<Rightarrow> PublicKeyBytes) \<Rightarrow> iv_op \<Rightarrow> bool" where
  "op_def_ok key_of (OpAdd d) = def_ok key_of d"
| "op_def_ok key_of (OpReplace d) = def_ok key_of d"
| "op_def_ok key_of _ = True"

interpretation st: state_invariant "stopped key_of pk" for key_of pk .

interpretation su: state_invariant "\<lambda>u. stopped key_of pk (u_set u)" for key_of pk .

lemma from_definition_key:
  assumes "env_ok key_of K" "def_ok key_of def" "iv_from_definition K nd def st = (Ok v, st')"
  shows "iv_voting_public_key (iv_signing_method v) = vd_voting_public_key def" "vd_enabled def"
proof -
  obtain m st1 where m: "vd_enabled def" "signing_method_of K nd def st = (Ok m, st1)" "iv_signing_method v = m"
    using assms(3) by (auto simp: iv_from_definition_def act_simps retM_def elim!: bindM_OkE split: if_splits)
  have "iv_voting_public_key m = vd_voting_public_key def"
    using m(2) assms(1,2)
    by (auto simp: signing_method_of_def thenM_def retM_def liftO_def of_sum_def env_ok_def def_ok_def
        elim!: bindM_OkE split: SigningDefinition.splits if_splits option.splits sum.splits prod.splits)
  with m show "iv_voting_public_key (iv_signing_method v) = vd_voting_public_key def" "vd_enabled def" by simp_all
qed

lemma keys_delete: "fst ` set (AList.delete k al) = fst ` set al - {k}"
  by (metis delete_keys set_map set_removeAll)

lemma on_keys_set: "u_set (snd (on_keys m u)) = u_set u"
  by (simp add: on_keys_def split_def Let_def)

lemma keeps_on_keys: "keeps (inv_rel (\<lambda>u. stopped key_of pk (u_set u))) (on_keys m)"
  by (simp add: keeps_def inv_rel_def on_keys_set)

lemma keeps_insert_validator:
  "iv_voting_public_key (iv_signing_method v) \<noteq> pk \<Longrightarrow>
    keeps (inv_rel (\<lambda>u. stopped key_of pk (u_set u))) (modM (insert_validator_of v))"
  by (rule su.inv_mod) (simp add: stopped_def insert_validator_of_def dom_update)

lemma update_validator_stopped:
  assumes "env_ok key_of K" "def_ok key_of def" "vd_voting_public_key def = pk \<longrightarrow> \<not> vd_enabled def"
  shows "keeps (inv_rel (\<lambda>u. stopped key_of pk (u_set u))) (update_validator K def)"
proof -
  let ?I = "\<lambda>u. stopped key_of pk (u_set u)"
  have key: "iv_voting_public_key (iv_signing_method v) \<noteq> pk" if "on_keys (iv_from_definition K nd def) u = (Ok v, u')" for nd u v u'
    using that assms(3) from_definition_key [OF assms(1,2), of nd "u_keys u"] by (auto simp: on_keys_def split: prod.splits)
  have init: "keeps (inv_rel ?I) (bindM (on_keys (iv_from_definition K nd def)) (\<lambda>v. modM (insert_validator_of v)))" for nd
    by (rule su.inv_bind_res [OF keeps_on_keys]) (auto intro: keeps_insert_validator dest: key)
  have soft: "keeps (inv_rel ?I) (\<lambda>u. case on_keys (iv_from_definition K nd def) u of
      (Ok v, u') \<Rightarrow> (Ok (), insert_validator_of v u') | (Err _, u') \<Rightarrow> (Ok (), u')
      | (Panic p, u') \<Rightarrow> (Panic p, u') | (Diverge, u') \<Rightarrow> (Diverge, u'))" for nd
    unfolding keeps_def inv_rel_def
  proof (intro allI impI)
    fix u :: "'a iv_update" assume I: "?I u"
    obtain r u' where r: "on_keys (iv_from_definition K nd def) u = (r, u')" by fastforce
    then have I': "?I u'" using I on_keys_set [of "iv_from_definition K nd def" u] by simp
    have "?I (insert_validator_of v u')" if "r = Ok v" for v
      using su.invD [OF keeps_insert_validator [OF key] I'] r that by (simp add: modM_def)
    with I' r show "?I (snd (case on_keys (iv_from_definition K nd def) u of
        (Ok v, u') \<Rightarrow> (Ok (), insert_validator_of v u') | (Err _, u') \<Rightarrow> (Ok (), u')
        | (Panic p, u') \<Rightarrow> (Panic p, u') | (Diverge, u') \<Rightarrow> (Diverge, u')))" by (cases r) auto
  qed
  have dis: "keeps (inv_rel ?I) (modM (\<lambda>u. u\<lparr>u_disabled := f u\<rparr>))" for f
    by (rule su.inv_mod) simp
  have del: "keeps (inv_rel ?I) (modM (\<lambda>u. u\<lparr>u_set := (u_set u)\<lparr>iv_validators := AList.delete k (iv_validators (u_set u))\<rparr>,
      u_disabled := f u\<rparr>))" for k f
    by (rule su.inv_mod) (simp add: stopped_def keys_delete)
  show ?thesis unfolding update_validator_def
    by (cases "vd_signing_definition def"; simp only: SigningDefinition.case)
      (intro init soft dis del su.keeps_rules | simp only: split_def)+
qed

lemma update_validators_stopped:
  assumes "env_ok key_of K"
  shows "keeps (inv_rel (stopped key_of pk)) (update_validators K)"
  unfolding keeps_def inv_rel_def
proof (intro allI impI)
  fix s :: "'a InitializedValidators" assume I: "stopped key_of pk s"
  let ?I = "\<lambda>u. stopped key_of pk (u_set u)"
  have loop: "keeps (inv_rel ?I) (forM ds (update_validator K))" if "set ds \<subseteq> set (iv_definitions s)" for ds
    using that
  proof (induction ds)
    case (Cons d ds)
    then have "keeps (inv_rel ?I) (update_validator K d)"
      using I by (intro update_validator_stopped [OF assms]) (auto simp: stopped_def)
    then show ?case using Cons by (simp add: su.keeps_then)
  qed (simp add: su.keeps_ret)
  have k: "keeps (inv_rel ?I) (modM (\<lambda>u. u\<lparr>u_keys := f u\<rparr>))" for f
    by (rule su.inv_mod) simp
  have c: "keeps (inv_rel ?I) (modM (write_cache K))"
    by (rule su.inv_mod) (simp add: stopped_def write_cache_def Let_def)
  have "keeps (inv_rel ?I) (update_all K (iv_definitions s))" unfolding update_all_def
    by (intro su.keeps_then su.keeps_bind su.keeps_lift keeps_on_keys loop k c order_refl)
  from su.invD [OF this, of "\<lparr>u_set = s, u_keys = (KeyCache_new, []), u_disabled = []\<rparr>"] I
  show "stopped key_of pk (snd (update_validators K s))" by (simp add: update_validators_def split_def Let_def)
qed

lemma save_stopped: "keeps (inv_rel (stopped key_of pk)) (save_definitions K)"
  unfolding save_definitions_def by (intro st.keeps_rules st.inv_mod) (simp add: stopped_def)

lemma modify_first_in: "d \<in> set (modify_first k f ds) \<Longrightarrow> d \<in> set ds \<or> (\<exists>d' \<in> set ds. vd_voting_public_key d' = k \<and> d = f d')"
  by (induction ds) (auto split: if_splits)

lemma modify_first_stopped:
  assumes "\<And>d. vd_voting_public_key (f d) = vd_voting_public_key d \<and> vd_signing_definition (f d) = vd_signing_definition d"
    and "\<And>d. k = pk \<Longrightarrow> \<not> vd_enabled d \<Longrightarrow> \<not> vd_enabled (f d)"
  shows "keeps (inv_rel (stopped key_of pk)) (modM (\<lambda>s. s\<lparr>iv_definitions := modify_first k f (iv_definitions s)\<rparr>))"
proof (rule st.inv_mod)
  fix s :: "'a InitializedValidators" assume I: "stopped key_of pk s"
  have "def_ok key_of (f d) = def_ok key_of d" for d
    by (auto simp: def_ok_def assms(1) split: SigningDefinition.splits option.splits)
  then have "def_ok key_of d \<and> (vd_voting_public_key d = pk \<longrightarrow> \<not> vd_enabled d)" if "d \<in> set (modify_first k f (iv_definitions s))" for d
    using modify_first_in [OF that] I assms unfolding stopped_def by auto
  then show "stopped key_of pk (s\<lparr>iv_definitions := modify_first k f (iv_definitions s)\<rparr>)"
    using I by (simp add: stopped_def)
qed

lemma modify_validator_stopped: "keeps (inv_rel (stopped key_of pk)) (modM (modify_validator k f))"
  by (rule st.inv_mod) (force simp: stopped_def modify_validator_def)

lemma add_definition_stopped:
  assumes "env_ok key_of K" "def_ok key_of d" "vd_voting_public_key d \<noteq> pk"
  shows "keeps (inv_rel (stopped key_of pk)) (add_definition K d)"
proof -
  have "keeps (inv_rel (stopped key_of pk)) (modM (\<lambda>s :: 'a InitializedValidators. s\<lparr>iv_definitions := iv_definitions s @ [d]\<rparr>))"
    by (rule st.inv_mod) (use assms(2,3) in \<open>auto simp: stopped_def\<close>)
  then show ?thesis unfolding add_definition_def
    by (intro st.keeps_rules save_stopped update_validators_stopped [OF assms(1)])
qed

lemma disable_definition_stopped:
  assumes "keeps (inv_rel (stopped key_of pk)) rest"
  shows "keeps (inv_rel (stopped key_of pk)) (disable_definition K files k rest)"
proof -
  have "keeps (inv_rel (stopped key_of pk)) (modM (\<lambda>s :: 'a InitializedValidators. s\<lparr>iv_validators := AList.delete k (iv_validators s)\<rparr>))"
    by (rule st.inv_mod) (simp add: stopped_def keys_delete)
  then show ?thesis unfolding disable_definition_def
    by (intro st.keeps_rules save_stopped modify_first_stopped assms) simp_all
qed

lemma fields_stopped:
  assumes "env_ok key_of K" "\<not> (k = pk \<and> e = Some True)"
  shows "keeps (inv_rel (stopped key_of pk)) (set_validator_definition_fields K k e g b)"
  unfolding set_validator_definition_fields_def
  by (intro st.keeps_rules save_stopped update_validators_stopped [OF assms(1)] modify_first_stopped modify_validator_stopped)
    (use assms(2) in \<open>auto split: option.splits\<close>)

lemma iv_apply_stopped:
  assumes "env_ok key_of K" "op_def_ok key_of op" "\<not> starts pk op" "stopped key_of pk s"
  shows "stopped key_of pk (iv_apply K op s)"
proof -
  have "keeps (inv_rel (stopped key_of pk)) (modM (\<lambda>s :: 'a InitializedValidators. s\<lparr>iv_definitions := filter P (iv_definitions s)\<rparr>))" for P
    by (rule st.inv_mod) (simp add: stopped_def)
  note k = this update_validators_stopped [OF assms(1)] save_stopped modify_validator_stopped
  show ?thesis
  proof (cases op)
    case (OpReplace d)
    then show ?thesis using assms
      by (auto simp: add_definition_replace_disabled_def intro!: st.invD st.keeps_then k add_definition_stopped)
  next
    case (OpDelete x)
    then show ?thesis using assms(4)
      by (auto simp: delete_definition_and_keystore_def intro!: st.invD disable_definition_stopped st.keeps_rules k)
  next
    case (OpIndex x i)
    then show ?thesis using st.invD [OF modify_validator_stopped assms(4)] by (simp add: iv_set_index_def modM_def)
  qed (use assms in \<open>auto simp: disable_keystore_def enable_keystore_def set_fee_recipient_def set_gas_limit_def
      intro!: st.invD disable_definition_stopped st.keeps_rules fields_stopped add_definition_stopped modify_first_stopped k\<close>)
qed

lemma def_ok_enabled [simp]: "def_ok key_of (d\<lparr>vd_enabled := b\<rparr>) = def_ok key_of d"
  by (auto simp: def_ok_def split: SigningDefinition.splits option.splits)

lemma disable_definition_Deleted:
  assumes "disable_definition K files pk rest s = (Ok Deleted, s')"
  shows "\<exists>s1. rest s1 = (Ok Deleted, s') \<and> iv_validators s1 = AList.delete pk (iv_validators s) \<and>
    iv_definitions s1 = modify_first pk (\<lambda>d. d\<lparr>vd_enabled := False\<rparr>) (iv_definitions s)"
proof -
  obtain d where d: "find (\<lambda>d. vd_voting_public_key d = pk) (iv_definitions s) = Some d" "has_keystore (vd_signing_definition d)"
    using assms by (cases "find (\<lambda>d. vd_voting_public_key d = pk) (iv_definitions s)")
      (auto simp: disable_definition_def act_simps retM_def split: if_splits)
  let ?ds = "modify_first pk (\<lambda>d. d\<lparr>vd_enabled := False\<rparr>) (iv_definitions s)"
  have sv: "ke_save K ?ds = Inr ()"
    using assms d by (cases "ke_save K ?ds")
      (simp_all add: disable_definition_def save_definitions_def act_simps of_sum_def thenM_def)
  let ?r = "case map_of (iv_validators s) pk of None \<Rightarrow> Ok () | Some v \<Rightarrow> files (iv_signing_method v)"
  have "?r = Ok ()" using assms d sv by (cases ?r)
    (simp_all add: disable_definition_def save_definitions_def act_simps of_sum_def thenM_def)
  with assms d sv have "rest (s\<lparr>iv_definitions := ?ds, iv_saved := ?ds, iv_validators := AList.delete pk (iv_validators s)\<rparr>) = (Ok Deleted, s')"
    by (simp add: disable_definition_def save_definitions_def act_simps of_sum_def thenM_def)
  then show ?thesis
    by (intro exI [of _ "s\<lparr>iv_definitions := ?ds, iv_saved := ?ds, iv_validators := AList.delete pk (iv_validators s)\<rparr>"]) simp
qed

lemma disable_definition_stops:
  assumes "disable_definition K files pk rest s = (Ok Deleted, s')" "keeps (inv_rel (stopped key_of pk)) rest"
    and "first_only pk (iv_definitions s)" "\<forall>d \<in> set (iv_definitions s). def_ok key_of d"
  shows "stopped key_of pk s'"
proof -
  have dis: "\<forall>d \<in> set (modify_first pk (\<lambda>d. d\<lparr>vd_enabled := False\<rparr>) ds). def_ok key_of d \<and> (vd_voting_public_key d = pk \<longrightarrow> \<not> vd_enabled d)"
    if "first_only pk ds" "\<forall>d \<in> set ds. def_ok key_of d" for ds
    using that by (induction ds) (auto simp: first_only_def)
  from disable_definition_Deleted [OF assms(1)] obtain s1 where r: "rest s1 = (Ok Deleted, s')"
    "iv_validators s1 = AList.delete pk (iv_validators s)"
    "iv_definitions s1 = modify_first pk (\<lambda>d. d\<lparr>vd_enabled := False\<rparr>) (iv_definitions s)" by blast
  have "stopped key_of pk s1" using r(2,3) dis [OF assms(3,4)] by (simp add: stopped_def keys_delete)
  from st.invD [OF assms(2) this] show ?thesis by (simp add: r(1))
qed

lemma disable_stops:
  assumes "disable_keystore K pk s = (Ok Deleted, s') \<or> delete_definition_and_keystore K pk s = (Ok Deleted, s')"
    and "first_only pk (iv_definitions s)" "\<forall>d \<in> set (iv_definitions s). def_ok key_of d"
  shows "stopped key_of pk s'"
proof -
  have f: "keeps (inv_rel (stopped key_of pk)) (modM (\<lambda>s :: 'a InitializedValidators. s\<lparr>iv_definitions := filter P (iv_definitions s)\<rparr>))" for P
    by (rule st.inv_mod) (simp add: stopped_def)
  from assms(1) show ?thesis
  proof
    assume "disable_keystore K pk s = (Ok Deleted, s')"
    from disable_definition_stops [OF this [unfolded disable_keystore_def] st.keeps_ret assms(2,3)] show ?thesis .
  next
    assume "delete_definition_and_keystore K pk s = (Ok Deleted, s')"
    then show ?thesis unfolding delete_definition_and_keystore_def
      by (rule disable_definition_stops [OF _ _ assms(2,3)]) (intro st.keeps_rules save_stopped f)
  qed
qed

text \<open>A stopped validator stays stopped.  Once disabling or deleting a validator has succeeded, the
  client has no signing method for its key, and no later sequence of operations on the set of
  validators, in whatever state the files are, gives it one again, unless it contains an operation that
  enables this very key or adds a definition for it.  Of the definitions for the key none but the first
  is enabled, and committee files name the validator of the definition that refers to them.\<close>

theorem stopped_validator_stays_stopped:
  assumes "disable_keystore K pk s = (Ok Deleted, s') \<or> delete_definition_and_keystore K pk s = (Ok Deleted, s')"
    and "first_only pk (iv_definitions s)" "\<forall>d \<in> set (iv_definitions s). def_ok key_of d"
    and "\<forall>(K, op) \<in> set ops. env_ok key_of K \<and> op_def_ok key_of op \<and> \<not> starts pk op"
  shows "iv_signing_method_for (fold (\<lambda>(K, op). iv_apply K op) ops s') pk = None"
proof -
  have "stopped key_of pk (fold (\<lambda>(K, op). iv_apply K op) ops s')"
    using disable_stops [OF assms(1-3)] assms(4)
    by (induction ops arbitrary: s') (simp_all add: split_def iv_apply_stopped)
  then show ?thesis by (simp add: iv_signing_method_for_def stopped_def map_of_eq_None_iff)
qed

definition toy_env :: "nat key_env" where
  "toy_env = \<lparr>ke_open_keystore = (\<lambda>p. Inr (length p)), ke_open_keystore_share = (\<lambda>p. Inr (length p)), ke_uuid = (\<lambda>n. replicate n CHR ''u''),
    ke_decrypt_keypair = (\<lambda>n pw. Inr \<lparr>kp_pk = [of_nat n], kp_sk = pw\<rparr>), ke_read_password = (\<lambda>p. Inr []), ke_typed = (\<lambda>p. []),
    ke_file_name = (\<lambda>p. Some p), ke_lock = (\<lambda>p. Inr ()), ke_committee = (\<lambda>p. Inl UnableToParseCommitteeDefinition),
    ke_store = Inr (), ke_cache = Inr KeyCache_new,
    ke_cipher = \<lparr>kc_open_map = (\<lambda>pw m. Inl UnableToDecrypt), kc_seal_map = (\<lambda>pw m. []), kc_pair_of = (\<lambda>s. Inl UnableToParseKeyPair)\<rparr>,
    ke_parent_is_dir = (\<lambda>p n. True), ke_remove_dir = (\<lambda>p. Inr ()), ke_remove_file = (\<lambda>p. Inr ()), ke_save = (\<lambda>ds. Inr ())\<rparr>"

definition local_def :: "string \<Rightarrow> PublicKeyBytes \<Rightarrow> ValidatorDefinition" where
  "local_def p pk = \<lparr>vd_enabled = True, vd_voting_public_key = pk, vd_graffiti = None, vd_suggested_fee_recipient = None,
    vd_gas_limit = None, vd_builder_proposals = None, vd_signing_definition = LocalKeystoreDef p None (Some [9])\<rparr>"

definition toy_set :: "nat InitializedValidators" where
  "toy_set = (case from_definitions toy_env [local_def ''a'' [1], local_def ''bb'' [2]] None of Ok s \<Rightarrow> s | _ \<Rightarrow>
    \<lparr>iv_definitions = [], iv_validators = [], iv_node_of = None, iv_saved = [], iv_cache_file = None\<rparr>)"

theorem stopped_validator_stays_stopped_witness:
  "iv_signing_method_for toy_set [1] \<noteq> None \<and>
   iv_signing_method_for (fold (\<lambda>(K, op). iv_apply K op) [(toy_env, OpAdd (local_def ''ccc'' [3])), (toy_env, OpUpdate)]
     (snd (disable_keystore toy_env [1] toy_set))) [1] = None"
proof
  show "iv_signing_method_for toy_set [1] \<noteq> None" by code_simp
  have d: "iv_definitions toy_set = [local_def ''a'' [1], local_def ''bb'' [2]]" by code_simp
  have "fst (disable_keystore toy_env [1] toy_set) = Ok Deleted" by code_simp
  then have "disable_keystore toy_env [1] toy_set = (Ok Deleted, snd (disable_keystore toy_env [1] toy_set))"
    by (metis prod.collapse)
  then show "iv_signing_method_for (fold (\<lambda>(K, op). iv_apply K op) [(toy_env, OpAdd (local_def ''ccc'' [3])), (toy_env, OpUpdate)]
      (snd (disable_keystore toy_env [1] toy_set))) [1] = None"
    by (intro stopped_validator_stays_stopped [where K = toy_env and s = toy_set and key_of = "\<lambda>_. []"])
      (auto simp: d local_def_def def_ok_def env_ok_def toy_env_def first_only_def)
qed

text \<open>With two enabled definitions for one key, disabling the validator succeeds and the next update starts it
  again from the second definition.\<close>

definition repeated_set :: "nat InitializedValidators" where
  "repeated_set = (case from_definitions toy_env [local_def ''a'' [1], local_def ''b'' [1]] None of Ok s \<Rightarrow> s | _ \<Rightarrow> toy_set)"

lemma repeated_definition_starts_again:
  "fst (disable_keystore toy_env [1] repeated_set) = Ok Deleted \<and>
   iv_signing_method_for (snd (disable_keystore toy_env [1] repeated_set)) [1] = None \<and>
   iv_signing_method_for (snd (update_validators toy_env (snd (disable_keystore toy_env [1] repeated_set)))) [1] \<noteq> None"
  by (intro conjI) code_simp+

section \<open>The key cache\<close>

definition cache_ok :: "kc_lib \<Rightarrow> KeyCache \<Rightarrow> bool" where
  "cache_ok Q c \<longleftrightarrow> set (kc_uuids c) = fst ` set (kc_pairs c) \<and>
    (\<forall>(u, kp) \<in> set (kc_pairs c). kc_pair_of Q (kp_sk kp) = Inr kp)"

lemma map_of_secrets: "map_of (map (\<lambda>(u, kp). (u, kp_sk kp)) ps) u = map_option kp_sk (map_of ps u)"
  by (induction ps) auto

lemma read_pairs_back:
  assumes "\<forall>u \<in> set us. \<exists>kp. map_of ps u = Some kp \<and> kc_pair_of Q (kp_sk kp) = Inr kp"
  shows "\<exists>qs. kc_read_pairs Q (map (\<lambda>(u, kp). (u, kp_sk kp)) ps) (zip us (map (\<lambda>u. kp_pk (the (map_of ps u))) us)) acc = Inr qs \<and>
    (\<forall>u. map_of qs u = (if u \<in> set us then map_of ps u else map_of acc u))"
  using assms
proof (induction us arbitrary: acc)
  case (Cons u us)
  then obtain kp where "map_of ps u = Some kp" "kc_pair_of Q (kp_sk kp) = Inr kp" by auto
  with Cons.IH [of "AList.update u kp acc"] Cons.prems show ?case by (auto simp: map_of_secrets update_conv')
qed simp

lemma key_cache_roundtrip:
  assumes "\<And>pw m. kc_open_map Q pw (kc_seal_map Q pw m) = Inr m" "cache_ok Q c"
  shows "\<exists>c'. kc_decrypt Q (kc_passwords c) (map (\<lambda>u. kp_pk (the (map_of (kc_pairs c) u))) (kc_uuids c)) (kc_save Q c) = Inr c' \<and>
    map_of (kc_pairs c') = map_of (kc_pairs c) \<and> kc_state c' = DecryptedAndSaved"
proof -
  have "\<forall>u \<in> set (kc_uuids c). \<exists>kp. map_of (kc_pairs c) u = Some kp \<and> kc_pair_of Q (kp_sk kp) = Inr kp"
  proof
    fix u assume "u \<in> set (kc_uuids c)"
    then have "u \<in> fst ` set (kc_pairs c)" using assms(2) by (simp add: cache_ok_def)
    then obtain kp where kp: "map_of (kc_pairs c) u = Some kp" by (metis map_of_eq_None_iff option.exhaust)
    then show "\<exists>kp. map_of (kc_pairs c) u = Some kp \<and> kc_pair_of Q (kp_sk kp) = Inr kp"
      using assms(2) map_of_SomeD [OF kp] by (auto simp: cache_ok_def)
  qed
  from read_pairs_back [OF this, of "[]"] obtain qs where
    "kc_read_pairs Q (map (\<lambda>(u, kp). (u, kp_sk kp)) (kc_pairs c))
      (zip (kc_uuids c) (map (\<lambda>u. kp_pk (the (map_of (kc_pairs c) u))) (kc_uuids c))) [] = Inr qs"
    "\<And>u. map_of qs u = (if u \<in> set (kc_uuids c) then map_of (kc_pairs c) u else None)" by auto
  moreover have "map_of (kc_pairs c) u = None" if "u \<notin> set (kc_uuids c)" for u
    using that assms(2) by (simp add: cache_ok_def map_of_eq_None_iff)
  ultimately show ?thesis using assms(1) by (auto simp: kc_decrypt_def kc_save_def fun_eq_iff)
qed

lemma cache_ok_add:
  assumes "cache_ok Q c" "kc_pair_of Q (kp_sk kp) = Inr kp"
  shows "cache_ok Q (kc_add kp u pw c)"
proof -
  have upd: "x \<in> set (AList.update u kp ps) \<Longrightarrow> x = (u, kp) \<or> x \<in> set ps" for x ps
    by (induction ps) (auto split: if_splits)
  show ?thesis using assms by (auto simp: cache_ok_def kc_add_def dom_update dest!: upd)
qed

end
