(* ===== verification/ValidatorStoreProps.thy ===== *)
theory ValidatorStoreProps
  imports ValidatorStore ValidatorProps ThresholdProps
begin

text \<open>
  What the validator store guarantees of signatures: a key of this client never signs two messages that
  together are slashable, whatever operations run and whatever the outside answers.
\<close>

section \<open>Slashing\<close>

fun slashable :: "PublicKeyBytes \<times> SignableMessage \<Rightarrow> PublicKeyBytes \<times> SignableMessage \<Rightarrow> bool" where
  "slashable (pk, BeaconBlock b) (pk', BeaconBlock b') \<longleftrightarrow> pk = pk' \<and> bb_slot b = bb_slot b'"
| "slashable (pk, AttestationData a) (pk', AttestationData a') \<longleftrightarrow> pk = pk' \<and>
    (ad_target_epoch a = ad_target_epoch a' \<or>
     ad_source_epoch a < ad_source_epoch a' \<and> ad_target_epoch a' < ad_target_epoch a \<or>
     ad_source_epoch a' < ad_source_epoch a \<and> ad_target_epoch a < ad_target_epoch a')"
| "slashable _ _ \<longleftrightarrow> False"

text \<open>
  What the slashing protection database promises.  \<open>hb\<close> and \<open>ha\<close> give the blocks and attestations that it
  protects a key against; no operation makes them fewer, and a message is called valid only when it
  conflicts with none of them, and is then one of them.
\<close>

definition slash_ok ::
  "'sd slash_lib \<Rightarrow> ('sd \<Rightarrow> (PublicKeyBytes \<times> Slot) set) \<Rightarrow> ('sd \<Rightarrow> (PublicKeyBytes \<times> Epoch \<times> Epoch) set) \<Rightarrow> bool" where
  "slash_ok D hb ha \<longleftrightarrow>
    (\<forall>pk slot root sd. let (r, sd') = sl_block D pk slot root sd in hb sd \<subseteq> hb sd' \<and> ha sd \<subseteq> ha sd' \<and>
      (r = Inr Valid \<longrightarrow> (pk, slot) \<notin> hb sd \<and> (pk, slot) \<in> hb sd')) \<and>
    (\<forall>pk src tgt root sd. let (r, sd') = sl_attestation D pk src tgt root sd in hb sd \<subseteq> hb sd' \<and> ha sd \<subseteq> ha sd' \<and>
      (r = Inr Valid \<longrightarrow> (pk, src, tgt) \<in> ha sd' \<and> (\<forall>s t. (pk, s, t) \<in> ha sd \<longrightarrow>
        t \<noteq> tgt \<and> \<not> (s < src \<and> tgt < t) \<and> \<not> (src < s \<and> t < tgt)))) \<and>
    (\<forall>pk sd. hb sd \<subseteq> hb (snd (sl_register D pk sd)) \<and> ha sd \<subseteq> ha (snd (sl_register D pk sd))) \<and>
    (\<forall>pks e sd. hb sd \<subseteq> hb (snd (sl_prune_attestations D pks e sd)) \<and> ha sd \<subseteq> ha (snd (sl_prune_attestations D pks e sd))) \<and>
    (\<forall>pks e sd. hb sd \<subseteq> hb (snd (sl_prune_blocks D pks e sd)) \<and> ha sd \<subseteq> ha (snd (sl_prune_blocks D pks e sd)))"

datatype 'ks vs_op =
    SignBlock sign_env PublicKeyBytes BeaconBlock Slot
  | SignAttestation sign_env PublicKeyBytes nat Attestation Epoch
  | SignRandao sign_env PublicKeyBytes Epoch
  | SignAggregate sign_env PublicKeyBytes u64 Attestation WrapSignature
  | SignRegistration sign_env PublicKeyBytes bytes
  | SignSelection sign_env PublicKeyBytes Slot
  | SignSyncSelection sign_env PublicKeyBytes Slot u64
  | SignSyncMessage sign_env PublicKeyBytes Slot Hash256
  | SignContribution sign_env PublicKeyBytes u64 Slot Hash256 WrapSignature
  | AddValidator "'ks key_env" "Slot option" Slot ValidatorDefinition
  | RemoveKeystore "'ks key_env" PublicKeyBytes
  | StopKeystore "'ks key_env" PublicKeyBytes
  | StartKeystore "'ks key_env" PublicKeyBytes
  | RegisterAll "Slot option" Slot
  | Prune Epoch
  | DoppelgangerUpdate dg_states

text \<open>Any operation of the store; the doppelganger service may change its states at any time.\<close>

fun vs_apply ::
  "('p1, 'p2) blst_lib \<Rightarrow> slot_lib \<Rightarrow> spec_lib \<Rightarrow> 'sd slash_lib \<Rightarrow> (Epoch \<Rightarrow> Slot) \<Rightarrow> 'ks vs_op \<Rightarrow>
    ('ks, 'sd) ValidatorStore \<Rightarrow> ('ks, 'sd) ValidatorStore" where
  "vs_apply L S P D ss (SignBlock V pk b cur) s = snd (sign_block L S P D V pk b cur s)"
| "vs_apply L S P D ss (SignAttestation V pk i a cur) s = snd (sign_attestation L P D V pk i a cur s)"
| "vs_apply L S P D ss (SignRandao V pk e) s = snd (randao_reveal L P V pk e s)"
| "vs_apply L S P D ss (SignAggregate V pk i a pr) s = snd (produce_signed_aggregate_and_proof L P V pk i a pr s)"
| "vs_apply L S P D ss (SignRegistration V pk r) s = snd (sign_validator_registration_data L P V pk r s)"
| "vs_apply L S P D ss (SignSelection V pk slot) s = snd (produce_selection_proof L S P V pk slot s)"
| "vs_apply L S P D ss (SignSyncSelection V pk slot i) s = snd (produce_sync_selection_proof L S P V pk slot i s)"
| "vs_apply L S P D ss (SignSyncMessage V pk slot r) s = snd (produce_sync_committee_signature L S P V pk slot r s)"
| "vs_apply L S P D ss (SignContribution V pk i slot c pr) s =
    snd (produce_signed_contribution_and_proof L S P V pk i slot c pr s)"
| "vs_apply L S P D ss (AddValidator K now genesis def) s = snd (add_validator K S D now genesis def s)"
| "vs_apply L S P D ss (RemoveKeystore K pk) s = snd (remove_validator_keystore K pk s)"
| "vs_apply L S P D ss (StopKeystore K pk) s = snd (stop_validator_keystore K pk s)"
| "vs_apply L S P D ss (StartKeystore K pk) s = snd (start_validator_keystore K pk s)"
| "vs_apply L S P D ss (RegisterAll now genesis) s =
    snd (register_all_in_doppelganger_protection_if_enabled S now genesis s)"
| "vs_apply L S P D ss (Prune e) s = prune_slashing_protection_db ss D e s"
| "vs_apply L S P D ss (DoppelgangerUpdate st) s = s\<lparr>vs_doppelganger := map_option (\<lambda>_. st) (vs_doppelganger s)\<rparr>"

text \<open>Everything that was signed is protected, and no two of the signed messages are slashable.\<close>

fun covered ::
  "(PublicKeyBytes \<times> Slot) set \<Rightarrow> (PublicKeyBytes \<times> Epoch \<times> Epoch) set \<Rightarrow> PublicKeyBytes \<times> SignableMessage \<Rightarrow> bool" where
  "covered B A (pk, BeaconBlock b) \<longleftrightarrow> (pk, bb_slot b) \<in> B"
| "covered B A (pk, AttestationData a) \<longleftrightarrow> (pk, ad_source_epoch a, ad_target_epoch a) \<in> A"
| "covered B A _ \<longleftrightarrow> True"

definition guarded ::
  "('sd \<Rightarrow> (PublicKeyBytes \<times> Slot) set) \<Rightarrow> ('sd \<Rightarrow> (PublicKeyBytes \<times> Epoch \<times> Epoch) set) \<Rightarrow>
    ('ks, 'sd) ValidatorStore \<Rightarrow> bool" where
  "guarded hb ha s \<longleftrightarrow> (\<forall>x \<in> set (vs_signed s). covered (hb (vs_slashing s)) (ha (vs_slashing s)) x) \<and>
    sorted_wrt (\<lambda>x y. \<not> slashable x y) (vs_signed s)"

lemma covered_mono: "covered B A x \<Longrightarrow> B \<subseteq> B' \<Longrightarrow> A \<subseteq> A' \<Longrightarrow> covered B' A' x"
  by (cases "(B, A, x)" rule: covered.cases) auto

interpretation gd: state_invariant "guarded hb ha" for hb ha .

lemma guarded_slashing:
  assumes "guarded hb ha s" "hb (vs_slashing s) \<subseteq> hb sd" "ha (vs_slashing s) \<subseteq> ha sd"
  shows "guarded hb ha (s\<lparr>vs_slashing := sd\<rparr>)"
  using assms by (auto simp: guarded_def intro: covered_mono)

lemma slashable_covered:
  assumes "slashable x (pk, BeaconBlock b)" "covered B A x"
  shows "(pk, bb_slot b) \<in> B"
  using assms by (cases "(B, A, x)" rule: covered.cases) auto

lemma slashable_covered_attestation:
  assumes "slashable x (pk, AttestationData a)" "covered B A x"
  shows "\<exists>s t. (pk, s, t) \<in> A \<and> (t = ad_target_epoch a \<or> s < ad_source_epoch a \<and> ad_target_epoch a < t \<or>
    ad_source_epoch a < s \<and> t < ad_target_epoch a)"
  using assms by (cases "(B, A, x)" rule: covered.cases) auto

lemma guarded_sign:
  assumes "guarded hb ha s" "covered (hb (vs_slashing s)) (ha (vs_slashing s)) x"
    and "\<And>y. y \<in> set (vs_signed s) \<Longrightarrow> \<not> slashable y x"
  shows "guarded hb ha (s\<lparr>vs_signed := vs_signed s @ [x]\<rparr>)"
  using assms by (auto simp: guarded_def sorted_wrt_append)

definition harmless :: "PublicKeyBytes \<Rightarrow> SignableMessage \<Rightarrow> bool" where
  "harmless pk msg \<longleftrightarrow> (\<forall>y. \<not> slashable y (pk, msg)) \<and> (\<forall>B A. covered B A (pk, msg))"

lemma not_slashable:
  "harmless pk (RandaoReveal e)" "harmless pk (SignedAggregateAndProof i a pr)" "harmless pk (ValidatorRegistration pk' r)"
  "harmless pk (SelectionProof slot)" "harmless pk (SyncSelectionProof slot i)" "harmless pk (SyncCommitteeSignature r slot)"
  "harmless pk (SignedContributionAndProof i slot c pr)"
  by (auto simp: harmless_def elim: slashable.elims)

lemma sign_root_guarded:
  assumes "harmless pk msg"
  shows "keeps (inv_rel (guarded hb ha)) (sign_root L V pk m msg root f e)"
  using assms by (auto simp: keeps_def inv_rel_def sign_root_def harmless_def Let_def split: prod.split intro!: guarded_sign)

lemma method_guarded:
  "keeps (inv_rel (guarded hb ha)) (doppelganger_checked_signing_method pk)"
  "keeps (inv_rel (guarded hb ha)) (doppelganger_bypassed_signing_method pk)"
  by (simp_all add: keeps_def inv_rel_def doppelganger_checked_signing_method_def doppelganger_bypassed_signing_method_def)

lemma sign_when_safe_end:
  assumes "check pk (sp_signing_root P msg (sp_domain P e domain)) (vs_slashing s) = (r, sd)"
  shows "snd (sign_when_safe L P V pk msg domain e check s) = s\<lparr>vs_slashing := sd\<rparr> \<or>
    r = Inr Valid \<and> doppelganger_protection_allows_signing pk s \<and>
    snd (sign_when_safe L P V pk msg domain e check s) = s\<lparr>vs_slashing := sd, vs_signed := vs_signed s @ [(pk, msg)]\<rparr>"
proof (cases "r = Inr Valid")
  case True
  have d: "doppelganger_protection_allows_signing pk (s\<lparr>vs_slashing := sd\<rparr>) = doppelganger_protection_allows_signing pk s"
    by (simp add: doppelganger_protection_allows_signing_def)
  show ?thesis using True assms d
    by (auto simp: sign_when_safe_def bindM_def doppelganger_checked_signing_method_def doppelganger_bypassed_signing_method_def
        get_signature_def sign_root_def Let_def split: option.split prod.split outcome.split)
next
  case False
  then show ?thesis using assms
    by (auto simp: sign_when_safe_def bindM_def liftO_def split: sum.split Safe.split)
qed

lemma sign_when_safe_guarded:
  assumes "\<And>sd r sd'. check pk (sp_signing_root P msg (sp_domain P e domain)) sd = (r, sd') \<Longrightarrow>
      hb sd \<subseteq> hb sd' \<and> ha sd \<subseteq> ha sd' \<and> (r = Inr Valid \<longrightarrow> covered (hb sd') (ha sd') (pk, msg) \<and>
        (\<forall>x. covered (hb sd) (ha sd) x \<longrightarrow> \<not> slashable x (pk, msg)))"
  shows "keeps (inv_rel (guarded hb ha)) (sign_when_safe L P V pk msg domain e check)"
  unfolding keeps_def inv_rel_def
proof (intro allI impI, goal_cases)
  case I: (1 s)
  obtain r sd where c: "check pk (sp_signing_root P msg (sp_domain P e domain)) (vs_slashing s) = (r, sd)" by fastforce
  note law = assms [OF c]
  have I1: "guarded hb ha (s\<lparr>vs_slashing := sd\<rparr>)" using guarded_slashing [OF I] law by blast
  have "guarded hb ha (s\<lparr>vs_slashing := sd, vs_signed := vs_signed s @ [(pk, msg)]\<rparr>)" if "r = Inr Valid"
    using guarded_sign [OF I1, of "(pk, msg)"] law that I by (auto simp: guarded_def)
  with sign_when_safe_end [of check pk P msg e domain s, OF c, of L V] I1 show ?case by metis
qed

lemma sign_block_guarded:
  assumes "slash_ok D hb ha"
  shows "keeps (inv_rel (guarded hb ha)) (sign_block L S P D V pk b cur)"
proof -
  have "keeps (inv_rel (guarded hb ha)) (sign_when_safe L P V pk (BeaconBlock b) dom e (\<lambda>pk root. sl_block D pk (bb_slot b) root))" for dom e
  proof (rule sign_when_safe_guarded, goal_cases)
    case (1 sd r sd')
    then have "hb sd \<subseteq> hb sd' \<and> ha sd \<subseteq> ha sd' \<and> (r = Inr Valid \<longrightarrow> (pk, bb_slot b) \<notin> hb sd \<and> (pk, bb_slot b) \<in> hb sd')"
      using assms unfolding slash_ok_def Let_def by (metis (mono_tags, lifting) case_prod_conv)
    then show ?case by (auto dest: slashable_covered)
  qed
  then show ?thesis unfolding sign_block_def by (intro gd.keeps_rules)
qed

lemma sign_attestation_guarded:
  assumes "slash_ok D hb ha"
  shows "keeps (inv_rel (guarded hb ha)) (sign_attestation L P D V pk i a cur)"
proof -
  let ?d = "at_data a"
  have "keeps (inv_rel (guarded hb ha)) (sign_when_safe L P V pk (AttestationData ?d) dom e
      (\<lambda>pk root. sl_attestation D pk (ad_source_epoch ?d) (ad_target_epoch ?d) root))" for dom e
  proof (rule sign_when_safe_guarded, goal_cases)
    case (1 sd r sd')
    then have "hb sd \<subseteq> hb sd' \<and> ha sd \<subseteq> ha sd' \<and> (r = Inr Valid \<longrightarrow> (pk, ad_source_epoch ?d, ad_target_epoch ?d) \<in> ha sd' \<and>
        (\<forall>s t. (pk, s, t) \<in> ha sd \<longrightarrow> t \<noteq> ad_target_epoch ?d \<and> \<not> (s < ad_source_epoch ?d \<and> ad_target_epoch ?d < t) \<and>
          \<not> (ad_source_epoch ?d < s \<and> t < ad_target_epoch ?d)))"
      using assms unfolding slash_ok_def Let_def by (metis (mono_tags, lifting) case_prod_conv)
    then show ?case by (auto dest!: slashable_covered_attestation)
  qed
  then show ?thesis unfolding sign_attestation_def Let_def by (intro gd.keeps_rules)
qed

lemma on_validators_guarded: "keeps (inv_rel (guarded hb ha)) (on_validators m)"
  by (auto simp: keeps_def inv_rel_def on_validators_def guarded_def split: prod.split outcome.split)

lemma add_validator_guarded:
  assumes "slash_ok D hb ha"
  shows "keeps (inv_rel (guarded hb ha)) (add_validator K S D now genesis def)"
proof -
  have r: "keeps (inv_rel (guarded hb ha)) (\<lambda>s. let (r, sd) = sl_register D pk (vs_slashing s) in
      (map_err RegisterFailed (of_sum r), s\<lparr>vs_slashing := sd\<rparr>))" for pk
  proof -
    have "hb sd \<subseteq> hb (snd (sl_register D pk sd))" "ha sd \<subseteq> ha (snd (sl_register D pk sd))" for sd
      using assms by (simp_all add: slash_ok_def)
    then show ?thesis by (simp add: keeps_def inv_rel_def split_def Let_def guarded_slashing)
  qed
  have v: "keeps (inv_rel (guarded hb ha)) (\<lambda>s. let (r, v) = add_definition_replace_disabled K def (vs_validators s) in
      (map_err DefinitionFailed r, s\<lparr>vs_validators := v\<rparr>))"
    by (simp add: keeps_def inv_rel_def guarded_def split_def Let_def)
  have d: "keeps (inv_rel (guarded hb ha)) (modM (\<lambda>s. s\<lparr>vs_doppelganger := x\<rparr>))" for x
    by (rule gd.inv_mod) (simp add: guarded_def)
  show ?thesis unfolding add_validator_def Let_def [of "vd_voting_public_key def"] by (intro r v d gd.keeps_rules)
qed

lemma prune_guarded:
  assumes "slash_ok D hb ha" "guarded hb ha s"
  shows "guarded hb ha (prune_slashing_protection_db ss D e s)"
proof -
  have a: "hb sd \<subseteq> hb (snd (sl_prune_attestations D pks t sd))" "ha sd \<subseteq> ha (snd (sl_prune_attestations D pks t sd))"
    "hb sd \<subseteq> hb (snd (sl_prune_blocks D pks u sd))" "ha sd \<subseteq> ha (snd (sl_prune_blocks D pks u sd))" for pks t u sd
    using assms(1) by (simp_all add: slash_ok_def)
  have "guarded hb ha (s\<lparr>vs_slashing := snd (sl_prune_attestations D pks t (vs_slashing s))\<rparr>)"
    "guarded hb ha (s\<lparr>vs_slashing := snd (sl_prune_blocks D pks u (snd (sl_prune_attestations D pks t (vs_slashing s))))\<rparr>)" for pks t u
    by (intro guarded_slashing [OF assms(2)] a order_trans [OF a(1) a(3)] order_trans [OF a(2) a(4)])+
  then show ?thesis using assms(2)
    by (auto simp: prune_slashing_protection_db_def Let_def split_def guarded_def split: sum.split)
qed

lemma vs_apply_guarded:
  assumes "slash_ok D hb ha" "guarded hb ha s"
  shows "guarded hb ha (vs_apply L S P D ss op s)"
proof -
  have g: "keeps (inv_rel (guarded hb ha)) (get_signature L P V pk m msg dom e)" if "harmless pk msg" for V pk m msg dom e
    using sign_root_guarded [OF that] by (simp add: get_signature_def)
  have d: "keeps (inv_rel (guarded hb ha)) (modM (\<lambda>s. s\<lparr>vs_doppelganger := x\<rparr>))" for x
    by (rule gd.inv_mod) (simp add: guarded_def)
  note k = gd.invD [OF _ assms(2)]
  show ?thesis
  proof (cases op)
    case (DoppelgangerUpdate st)
    then show ?thesis using assms(2) by (simp add: guarded_def)
  qed (auto simp: randao_reveal_def produce_signed_aggregate_and_proof_def sign_validator_registration_data_def
      produce_selection_proof_def produce_sync_selection_proof_def produce_sync_committee_signature_def
      produce_signed_contribution_and_proof_def remove_validator_keystore_def stop_validator_keystore_def
      start_validator_keystore_def register_all_in_doppelganger_protection_if_enabled_def Let_def
      intro!: k sign_block_guarded [OF assms(1)] sign_attestation_guarded [OF assms(1)] add_validator_guarded [OF assms(1)]
        prune_guarded [OF assms] on_validators_guarded gd.keeps_bind method_guarded g sign_root_guarded not_slashable
        gd.keeps_rules d split: option.split)
qed

text \<open>C4: A key of this client never signs two slashable messages.  Take any sequence of operations of the
  store: signing requests of every kind, adding, removing, stopping and starting validators, pruning,
  changes by the doppelganger service, with any answers from the committee, the files and the remote
  signer.  Of the messages that were signed, as a signature or as an operator's share, no two are
  blocks of one validator for one slot, and no two are attestations of one validator with the same
  target or of which one surrounds the other.  The slashing protection database is assumed to keep its
  documented promise.\<close>

theorem signs_nothing_slashable:
  assumes "slash_ok D hb ha" "vs_signed s = []"
  shows "sorted_wrt (\<lambda>x y. \<not> slashable x y) (vs_signed (fold (vs_apply L S P D ss) ops s))"
proof -
  have "guarded hb ha (fold (vs_apply L S P D ss) ops s)" if "guarded hb ha s"
    using that by (induction ops arbitrary: s) (simp_all add: vs_apply_guarded [OF assms(1)])
  moreover have "guarded hb ha s" using assms(2) by (simp add: guarded_def)
  ultimately show ?thesis by (simp add: guarded_def)
qed

type_synonym toy_history = "(PublicKeyBytes \<times> Slot) list \<times> (PublicKeyBytes \<times> Epoch \<times> Epoch) list"

definition toy_slash :: "toy_history slash_lib" where
  "toy_slash = \<lparr>sl_block = (\<lambda>pk slot root (B, A). if (pk, slot) \<in> set B then (Inl (NotSafe 0), (B, A)) else (Inr Valid, ((pk, slot) # B, A))),
    sl_attestation = (\<lambda>pk src tgt root (B, A). if list_ex (\<lambda>(k, s, t). k = pk \<and> (t = tgt \<or> s < src \<and> tgt < t \<or> src < s \<and> t < tgt)) A
      then (Inl (NotSafe 0), (B, A)) else (Inr Valid, (B, (pk, src, tgt) # A))),
    sl_register = (\<lambda>pk h. (Inr (), h)), sl_prune_attestations = (\<lambda>pks e h. (Inr (), h)), sl_prune_blocks = (\<lambda>pks e h. (Inr (), h))\<rparr>"

lemma toy_slash_ok: "slash_ok toy_slash (\<lambda>h. set (fst h)) (\<lambda>h. set (snd h))"
  by (auto simp: slash_ok_def toy_slash_def list_ex_iff split_def Let_def)

definition toy_store :: "(nat, toy_history) ValidatorStore" where
  "toy_store = \<lparr>vs_validators = toy_set, vs_slashing = ([], []), vs_last_prune = 0, vs_doppelganger = None,
    vs_fee_recipient_process = None, vs_gas_limit = None, vs_builder_proposals = False, vs_signed = []\<rparr>"

definition toy_spec :: spec_lib where
  "toy_spec = \<lparr>sp_domain = (\<lambda>e d. []), sp_builder_domain = [], sp_signing_root = (\<lambda>m d. [1])\<rparr>"

definition calm :: sign_env where
  "calm = \<lparr>se_executor = True, se_web3signer = Inl ShuttingDown, se_threshold_sign = None, se_digest_ok = True\<rparr>"

definition toy_ops :: "nat vs_op list" where
  "toy_ops = [SignBlock calm [1] \<lparr>bb_slot = 5, bb_root = [1]\<rparr> 5, SignBlock calm [1] \<lparr>bb_slot = 5, bb_root = [2]\<rparr> 6,
    SignBlock calm [2] \<lparr>bb_slot = 5, bb_root = [1]\<rparr> 5]"

theorem signs_nothing_slashable_witness:
  "map fst (vs_signed (fold (vs_apply toy_blst slots32 toy_spec toy_slash (\<lambda>e. 32 * e)) toy_ops toy_store)) = [[1], [2]] \<and>
   sorted_wrt (\<lambda>x y. \<not> slashable x y)
     (vs_signed (fold (vs_apply toy_blst slots32 toy_spec toy_slash (\<lambda>e. 32 * e)) toy_ops toy_store))"
proof
  show "map fst (vs_signed (fold (vs_apply toy_blst slots32 toy_spec toy_slash (\<lambda>e. 32 * e)) toy_ops toy_store)) = [[1], [2]]"
    by code_simp
  show "sorted_wrt (\<lambda>x y. \<not> slashable x y)
      (vs_signed (fold (vs_apply toy_blst slots32 toy_spec toy_slash (\<lambda>e. 32 * e)) toy_ops toy_store))"
    by (rule signs_nothing_slashable [OF toy_slash_ok]) (simp add: toy_store_def)
qed

section \<open>Stopped validators sign nothing\<close>

fun starts_signing :: "PublicKeyBytes \<Rightarrow> 'ks vs_op \<Rightarrow> bool" where
  "starts_signing pk (AddValidator _ _ _ def) \<longleftrightarrow> vd_voting_public_key def = pk"
| "starts_signing pk (StartKeystore _ k) \<longleftrightarrow> k = pk"
| "starts_signing pk _ \<longleftrightarrow> False"

fun files_ok :: "(path \<Rightarrow> PublicKeyBytes) \<Rightarrow> 'ks vs_op \<Rightarrow> bool" where
  "files_ok key_of (AddValidator K _ _ def) \<longleftrightarrow> env_ok key_of K \<and> def_ok key_of def"
| "files_ok key_of (StartKeystore K _) \<longleftrightarrow> env_ok key_of K"
| "files_ok key_of (StopKeystore K _) \<longleftrightarrow> env_ok key_of K"
| "files_ok key_of (RemoveKeystore K _) \<longleftrightarrow> env_ok key_of K"
| "files_ok key_of _ \<longleftrightarrow> True"

definition silent ::
  "(path \<Rightarrow> PublicKeyBytes) \<Rightarrow> PublicKeyBytes \<Rightarrow> (PublicKeyBytes \<times> SignableMessage) list \<Rightarrow> ('ks, 'sd) ValidatorStore \<Rightarrow> bool" where
  "silent key_of pk old s \<longleftrightarrow> stopped key_of pk (vs_validators s) \<and> filter (\<lambda>(k, _). k = pk) (vs_signed s) = old"

interpretation si: state_invariant "silent key_of pk old" for key_of pk old .

lemma no_method: "silent key_of pk old s \<Longrightarrow> iv_signing_method_for (vs_validators s) pk = None"
  by (simp add: silent_def stopped_def iv_signing_method_for_def map_of_eq_None_iff)

lemma sign_root_silent: "k \<noteq> pk \<Longrightarrow> keeps (inv_rel (silent key_of pk old)) (sign_root L V k m msg root f e)"
  by (auto simp: keeps_def inv_rel_def sign_root_def silent_def Let_def split: prod.split)

lemma with_method_silent:
  assumes "\<And>m. k \<noteq> pk \<Longrightarrow> keeps (inv_rel (silent key_of pk old)) (f m)"
  shows "keeps (inv_rel (silent key_of pk old)) (bindM (doppelganger_bypassed_signing_method k) f)"
    and "keeps (inv_rel (silent key_of pk old)) (bindM (doppelganger_checked_signing_method k) f)"
proof -
  have b: "inv_rel (silent key_of pk old) s (snd (bindM (doppelganger_bypassed_signing_method k) f s))" for s
    using assms no_method [of key_of pk old s]
    by (cases "k = pk") (auto simp: bindM_def inv_rel_def keeps_def doppelganger_bypassed_signing_method_def split: option.split)
  then show "keeps (inv_rel (silent key_of pk old)) (bindM (doppelganger_bypassed_signing_method k) f)" by (simp add: keeps_def)
  have "bindM (doppelganger_checked_signing_method k) f s = (if doppelganger_protection_allows_signing k s
      then bindM (doppelganger_bypassed_signing_method k) f s else (Err (DoppelgangerProtected k), s))" for s
    by (simp add: bindM_def doppelganger_checked_signing_method_def)
  then show "keeps (inv_rel (silent key_of pk old)) (bindM (doppelganger_checked_signing_method k) f)"
    using b by (auto simp: keeps_def inv_rel_def)
qed

lemma slashing_silent: "silent key_of pk old s \<Longrightarrow> silent key_of pk old (s\<lparr>vs_slashing := sd\<rparr>)"
  by (simp add: silent_def)

lemma sign_when_safe_silent: "keeps (inv_rel (silent key_of pk old)) (sign_when_safe L P V k msg dm e check)"
proof -
  have "keeps (inv_rel (silent key_of pk old)) (\<lambda>s. let (r, sd) = check k (sp_signing_root P msg (sp_domain P e dm)) (vs_slashing s) in
      (Ok r, s\<lparr>vs_slashing := sd\<rparr>))"
    by (simp add: keeps_def inv_rel_def split_def Let_def slashing_silent)
  then show ?thesis unfolding sign_when_safe_def
    by (intro si.keeps_bind) (auto simp: get_signature_def intro!: with_method_silent sign_root_silent si.keeps_lift split: sum.split Safe.split)
qed

lemma on_validators_silent:
  assumes "\<And>v. stopped key_of pk v \<Longrightarrow> stopped key_of pk (snd (m v))"
  shows "keeps (inv_rel (silent key_of pk old)) (on_validators m)"
  unfolding keeps_def inv_rel_def
proof (intro allI impI, goal_cases)
  case (1 s)
  obtain r v where m: "m (vs_validators s) = (r, v)" by fastforce
  then have "stopped key_of pk v" using assms [of "vs_validators s"] 1 by (simp add: silent_def)
  then show ?case using 1 m by (cases r) (simp_all add: on_validators_def silent_def)
qed

lemma add_validator_silent:
  assumes "env_ok key_of K" "def_ok key_of def" "vd_voting_public_key def \<noteq> pk"
  shows "keeps (inv_rel (silent key_of pk old)) (add_validator K S D now genesis def)"
proof -
  have r: "keeps (inv_rel (silent key_of pk old)) (\<lambda>s. let (r, sd) = sl_register D k (vs_slashing s) in
      (map_err RegisterFailed (of_sum r), s\<lparr>vs_slashing := sd\<rparr>))" for k
    by (simp add: keeps_def inv_rel_def split_def Let_def slashing_silent)
  have v: "keeps (inv_rel (silent key_of pk old)) (\<lambda>s. let (r, v) = add_definition_replace_disabled K def (vs_validators s) in
      (map_err DefinitionFailed r, s\<lparr>vs_validators := v\<rparr>))"
    using iv_apply_stopped [OF assms(1), of "OpReplace def" pk] assms(2,3)
    by (simp add: keeps_def inv_rel_def silent_def split_def Let_def)
  have d: "keeps (inv_rel (silent key_of pk old)) (modM (\<lambda>s. s\<lparr>vs_doppelganger := x\<rparr>))" for x
    by (rule si.inv_mod) (simp add: silent_def)
  show ?thesis unfolding add_validator_def Let_def [of "vd_voting_public_key def"] by (intro r v d si.keeps_rules)
qed

lemma vs_apply_silent:
  assumes "silent key_of pk old s" "files_ok key_of op" "\<not> starts_signing pk op"
  shows "silent key_of pk old (vs_apply L S P D ss op s)"
proof -
  have d: "keeps (inv_rel (silent key_of pk old)) (modM (\<lambda>s. s\<lparr>vs_doppelganger := x\<rparr>))" for x
    by (rule si.inv_mod) (simp add: silent_def)
  have v: "keeps (inv_rel (silent key_of pk old)) (remove_validator_keystore K k)"
    "keeps (inv_rel (silent key_of pk old)) (stop_validator_keystore K k)"
    "k \<noteq> pk \<Longrightarrow> keeps (inv_rel (silent key_of pk old)) (start_validator_keystore K k)" if "env_ok key_of K" for K k
    using iv_apply_stopped [OF that, of "OpDelete k" pk] iv_apply_stopped [OF that, of "OpDisable k" pk]
      iv_apply_stopped [OF that, of "OpEnable k" pk]
    by (auto simp: remove_validator_keystore_def stop_validator_keystore_def start_validator_keystore_def
        intro!: on_validators_silent)
  note k = si.invD [OF _ assms(1)]
  show ?thesis
  proof (cases op)
    case (DoppelgangerUpdate st)
    then show ?thesis using assms(1) by (simp add: silent_def)
  next
    case (Prune e)
    then show ?thesis using assms(1)
      by (auto simp: prune_slashing_protection_db_def Let_def split_def silent_def split: sum.split)
  next
    case (AddValidator K now genesis def)
    then show ?thesis using assms(2,3) by (auto intro!: k add_validator_silent)
  next
    case (RegisterAll now genesis)
    then show ?thesis
      by (auto simp: register_all_in_doppelganger_protection_if_enabled_def intro!: k si.keeps_rules d split: option.split)
  qed (use assms(2,3) in \<open>auto simp: randao_reveal_def produce_signed_aggregate_and_proof_def sign_validator_registration_data_def
      produce_selection_proof_def produce_sync_selection_proof_def produce_sync_committee_signature_def
      produce_signed_contribution_and_proof_def sign_block_def sign_attestation_def Let_def get_signature_def
      intro!: k with_method_silent sign_root_silent si.keeps_lift si.keeps_ret si.keeps_bind sign_when_safe_silent v\<close>)
qed

text \<open>C6: A stopped validator signs nothing, when its key has no second enabled definition.  Suppose that of
  the definitions for the key none but the first is enabled, and that committee files name the validator
  of the definition that refers to them.  Once stopping the validator has disabled its keystore, no
  sequence of operations of the store adds a signature or a share by its key, unless it starts this
  validator or adds it again.  This holds for every kind of message and whatever the files, the
  committee and the other validators do.  With a second enabled definition it fails
  (\<open>repeated_definition_starts_again\<close>).  A signing request is one step here: a request that was given its
  signing method before the stop and signs after it counts as signed before.\<close>

theorem stopped_validator_signs_nothing:
  assumes "fst (disable_keystore K pk (vs_validators s)) = Ok Deleted"
    and "first_only pk (iv_definitions (vs_validators s))"
    and "\<forall>d \<in> set (iv_definitions (vs_validators s)). def_ok key_of d"
    and "\<forall>op \<in> set ops. files_ok key_of op \<and> \<not> starts_signing pk op"
  shows "filter (\<lambda>(k, _). k = pk) (vs_signed (fold (vs_apply L S P D ss) ops (snd (stop_validator_keystore K pk s)))) =
    filter (\<lambda>(k, _). k = pk) (vs_signed s)"
proof -
  let ?v = "snd (disable_keystore K pk (vs_validators s))"
  have "disable_keystore K pk (vs_validators s) = (Ok Deleted, ?v)" using assms(1) by (metis prod.collapse)
  then have "stopped key_of pk ?v" using disable_stops assms(2,3) by blast
  then have "silent key_of pk (filter (\<lambda>(k, _). k = pk) (vs_signed s)) (snd (stop_validator_keystore K pk s))"
    using assms(1) by (auto simp: silent_def stop_validator_keystore_def on_validators_def split: prod.split outcome.split)
  then have "silent key_of pk (filter (\<lambda>(k, _). k = pk) (vs_signed s))
      (fold (vs_apply L S P D ss) ops (snd (stop_validator_keystore K pk s)))"
    using assms(4) by (induction ops arbitrary: s rule: rev_induct) (simp_all add: vs_apply_silent)
  then show ?thesis by (simp add: silent_def)
qed

theorem stopped_validator_signs_nothing_witness:
  "filter (\<lambda>(k, _). k = [1]) (vs_signed (fold (vs_apply toy_blst slots32 toy_spec toy_slash (\<lambda>e. 32 * e)) toy_ops
      (snd (stop_validator_keystore toy_env [1] toy_store)))) = []"
proof -
  have "fst (disable_keystore toy_env [1] (vs_validators toy_store)) = Ok Deleted" by code_simp
  moreover have "iv_definitions (vs_validators toy_store) = [local_def ''a'' [1], local_def ''bb'' [2]]" by code_simp
  ultimately have "filter (\<lambda>(k, _). k = [1]) (vs_signed (fold (vs_apply toy_blst slots32 toy_spec toy_slash (\<lambda>e. 32 * e)) toy_ops
      (snd (stop_validator_keystore toy_env [1] toy_store)))) = filter (\<lambda>(k, _). k = [1]) (vs_signed toy_store)"
    by (intro stopped_validator_signs_nothing [where key_of = "\<lambda>_. []"])
      (simp_all add: local_def_def def_ok_def toy_ops_def first_only_def)
  then show ?thesis by (simp add: toy_store_def)
qed

end
