(* ===== verification/NodeProps.thy ===== *)
theory NodeProps
  imports NodeMain ContractProps ValidatorStoreProps
begin

text \<open>
  Properties of the node: a started validator gets exactly the key share that was encrypted for this
  operator; what becomes of commands that fail; and how the monitor of addresses behaves.
\<close>

section \<open>Starting a validator\<close>

lemma own_share_decrypts:
  assumes "secp_ok E" "cipher_ok A" "length nonce = 12" "i < length encrypted" "sk_deserialize L sk = Inr sk"
    and "elgamal_encrypt E A (other, secp_public_key E other) nonce sk (secp_public_key E secret) = Ok ct"
    and "encrypted ! i = Ciphertext_to_bytes ct"
  shows "own_share L E A secret encrypted i = Ok sk"
proof -
  from elgamal_inverse [OF assms(1-3), of other sk secret] assms(6)
  obtain c where "Ciphertext_from_bytes E (encrypted ! i) = Ok c" "elgamal_decrypt E A c secret = Ok sk"
    by (auto simp: assms(7) bindO_Ok_iff)
  then show ?thesis using assms(4,5) by (simp add: own_share_def of_sum_def)
qed

lemma on_store_frame: "nd_va_dirs (snd (on_store m s)) = nd_va_dirs s \<and> fst (on_store m s) \<noteq> Err e"
  by (auto simp: on_store_def split: option.split prod.split outcome.split)

text \<open>C9: A start command gives this operator the share that the owner encrypted for it.  Let the event
  name this node exactly once, at position \<open>i\<close>, and let the \<open>i\<close>-th ciphertext be an ElGamal encryption of
  the share \<open>sk\<close> under the node's public key.  If the validator is new, its keys parse and the files can be
  written, the handler does not fail, and the directory of the validator then holds \<open>sk\<close> with the ids of
  the validator and of this operator, and a committee definition with the validator's key, the operators
  in the order of the event and threshold 3.\<close>

theorem start_validator_installs_share:
  assumes "secp_ok E" "cipher_ok A" "length nonce = 12" "i < length encrypted" "sk_deserialize L sk = Inr sk"
    and "elgamal_encrypt E A (other, secp_public_key E other) nonce sk (secp_public_key E (nd_secret s)) = Ok ct"
    and "encrypted ! i = Ciphertext_to_bytes ct"
    and "pk_deserialize L (va_public_key v) = Inr pk" "map_of (nd_va_dirs s) pk = None"
    and "\<forall>k \<in> set shared. \<not> isl (pk_deserialize L k)" "\<forall>k \<in> set ops. length k = 33"
    and "self_index (nd_name s) ops = [i]" "i < length (va_releated_operators v)"
    and "ne_build_dir W = Inr ()" "ne_save_committee W = Inr ()"
  shows "\<exists>cd. fst (add_validator_command L E A S D W v ops shared encrypted s) \<noteq> Err e \<and>
    map_of (nd_va_dirs (snd (add_validator_command L E A S D W v ops shared encrypted s))) pk =
      Some \<lparr>vdir_share = \<lparr>ksh_sk = sk, ksh_master_id = va_id v, ksh_share_id = ucast (va_releated_operators v ! i)\<rparr>,
        vdir_committee = Some cd\<rparr> \<and>
    ocd_validator_public_key cd = pk \<and> ocd_threshold cd = 3 \<and> ocd_total cd = of_nat (length ops) \<and>
    ocd_operator_ids cd = map ucast (va_releated_operators v) \<and> ocd_node_public_keys cd = ops"
proof -
  have no: "\<not> (\<exists>k \<in> set shared. isl (pk_deserialize L k))" "\<not> (\<exists>k \<in> set ops. length k \<noteq> 33)"
    using assms(10,11) by auto
  have "\<exists>m cd s1. add_validator_command L E A S D W v ops shared encrypted s = on_store m s1 \<and>
    map_of (nd_va_dirs s1) pk = Some \<lparr>vdir_share = \<lparr>ksh_sk = sk, ksh_master_id = va_id v,
      ksh_share_id = ucast (va_releated_operators v ! i)\<rparr>, vdir_committee = Some cd\<rparr> \<and>
    ocd_validator_public_key cd = pk \<and> ocd_threshold cd = 3 \<and> ocd_total cd = of_nat (length ops) \<and>
    ocd_operator_ids cd = map ucast (va_releated_operators v) \<and> ocd_node_public_keys cd = ops"
    using assms(8,9,12-15) no own_share_decrypts [OF assms(1-7)]
    by (auto simp: add_validator_command_def pk_of_def of_sum_def act_simps Let_def add_to_store_def update_conv' THRESHOLD_def
        intro!: exI)
  then show ?thesis using on_store_frame by metis
qed

definition toy_world :: "nat node_env" where
  "toy_world = \<lparr>ne_query_ip = (\<lambda>_. None), ne_build_dir = Inr (), ne_save_committee = Inr (), ne_keys = toy_env, ne_keys_later = toy_env,
    ne_now = None, ne_genesis = 0, ne_remove_db = Inr (), ne_remove_dir = Inr (), ne_remove_password = Inr (), ne_self_id = Some 1,
    ne_dkg = Err InsufficientValidPks, ne_ephemeral = ([3], secp_public_key toy_secp [3]), ne_nonce = replicate 12 1,
    ne_sign_digest = Inr [], ne_url_ok = True, ne_responses = [], ne_deposit = Err InsufficientValidPks, ne_exit = Err InsufficientValidPks\<rparr>"

definition toy_name :: PublicKey where
  "toy_name = replicate 33 5"

definition toy_node_state :: "db \<Rightarrow> (nat, toy_history) node_state" where
  "toy_node_state d = \<lparr>nd_db = d, nd_secret = [5], nd_name = toy_name, nd_base_port = 25000, nd_store = None,
    nd_tx_handlers = [], nd_mempool_handlers = [], nd_consensus_handlers = [], nd_signature_handlers = [],
    nd_va_dirs = [], nd_password_files = [], nd_dvf_dbs = []\<rparr>"

definition toy_ct :: Ciphertext where
  "toy_ct = (case elgamal_encrypt toy_secp toy_chan ([3], secp_public_key toy_secp [3]) (replicate 12 1) toy_sk (secp_public_key toy_secp [5]) of
    Ok c \<Rightarrow> c | _ \<Rightarrow> \<lparr>temp_pk = [], aes_ct = []\<rparr>)"

definition toy_validator :: Validator where
  "toy_validator = \<lparr>va_id = 9, va_owner_address = [], va_public_key = toy_point 47 4, va_releated_operators = [1, 2], va_active = True\<rparr>"

lemma toy_encrypts:
  "elgamal_encrypt toy_secp toy_chan ([3], secp_public_key toy_secp [3]) (replicate 12 1) toy_sk (secp_public_key toy_secp [5]) = Ok toy_ct"
proof -
  have "secp_ok toy_secp" by (simp add: secp_ok_def toy_secp_def add.commute)
  from elgamal_inverse [OF this toy_cipher, of "replicate 12 1" "[3]" toy_sk "[5]"] show ?thesis
    by (auto simp: toy_ct_def)
qed

theorem start_validator_installs_share_witness:
  "\<exists>cd. map_of (nd_va_dirs (snd (add_validator_command toy_blst toy_secp toy_chan slots32 toy_slash toy_world toy_validator
      [replicate 33 4, toy_name] [] [[], Ciphertext_to_bytes toy_ct] (toy_node_state (Database_new True))))) (toy_point 47 4) =
    Some \<lparr>vdir_share = \<lparr>ksh_sk = toy_sk, ksh_master_id = 9, ksh_share_id = 2\<rparr>, vdir_committee = Some cd\<rparr> \<and> ocd_threshold cd = 3"
proof -
  let ?s = "toy_node_state (Database_new True)"
  have E: "secp_ok toy_secp" by (simp add: secp_ok_def toy_secp_def add.commute)
  have k: "sk_deserialize toy_blst toy_sk = Inr toy_sk" by (simp add: toy_blst_def toy_sk_def be_val_append)
  have v: "pk_deserialize toy_blst (va_public_key toy_validator) = Inr (toy_point 47 4)" "1 < length (va_releated_operators toy_validator)"
    by (simp_all add: toy_blst_def toy_validator_def)
  have s: "self_index (nd_name ?s) [replicate 33 4, toy_name] = [1]" "map_of (nd_va_dirs ?s) (toy_point 47 4) = None"
    by (simp_all add: self_index_def toy_node_state_def toy_name_def)
  have c: "elgamal_encrypt toy_secp toy_chan ([3], secp_public_key toy_secp [3]) (replicate 12 1) toy_sk
      (secp_public_key toy_secp (nd_secret ?s)) = Ok toy_ct"
    using toy_encrypts by (simp add: toy_node_state_def)
  have w: "ne_build_dir toy_world = Inr ()" "ne_save_committee toy_world = Inr ()" by (simp_all add: toy_world_def)
  have l: "length (replicate 12 1 :: bytes) = 12" "1 < length [[], Ciphertext_to_bytes toy_ct]"
    "[[], Ciphertext_to_bytes toy_ct] ! 1 = Ciphertext_to_bytes toy_ct"
    "\<forall>k \<in> set []. \<not> isl (pk_deserialize toy_blst k)" "\<forall>k \<in> set [replicate 33 4, toy_name]. length k = 33"
    by (simp_all add: toy_name_def)
  have i: "va_id toy_validator = 9" "ucast (va_releated_operators toy_validator ! 1) = (2 :: u64)"
    by (simp_all add: toy_validator_def)
  show ?thesis
    using start_validator_installs_share [OF E toy_cipher l(1,2) k c l(3) v(1) s(2) l(4,5) s(1) v(2) w, of slots32 toy_slash undefined]
    unfolding i by blast
qed

section \<open>Commands that fail\<close>

text \<open>C40: A command that fails is lost.  When carrying out the command that was handed out ends with an
  error, the round of the task goes on normally, but instead of putting the command off it removes it:
  afterwards no command with this identifier is stored.  This holds for each of the eight commands.\<close>

theorem failed_command_is_lost:
  assumes "get_contract_command tie now (nd_db s) = (Ok (c, i), d)" "i \<noteq> 0" "de_cmd N c = Inr cmd"
    and "carry_out N L E A S D W cmd (s\<lparr>nd_db := d\<rparr>) = (Err e, s')"
  shows "process_contract_command N L E A S D tie now W s = (Ok (), s'\<lparr>nd_db := delete_contract_command i (nd_db s')\<rparr>) \<and>
    (\<forall>r \<in> set (contract_commands (nd_db (snd (process_contract_command N L E A S D tie now W s)))). cc_id r \<noteq> unat i)"
proof -
  have "process_contract_command N L E A S D tie now W s = (Ok (), s'\<lparr>nd_db := delete_contract_command i (nd_db s')\<rparr>)"
    using assms by (simp add: process_contract_command_def bindM_def unwrap_sum_def liftO_def send_db_def modM_def
        Database_updatetime_contract_command_def)
  then show ?thesis by (simp add: delete_contract_command_def)
qed

definition toy_node_lib :: node_lib where
  "toy_node_lib = toy_node\<lparr>de_cmd := \<lambda>_. Inr (StartInitiator \<lparr>ini_id = 4, ini_owner_address = [], ini_releated_operators = [1],
    ini_validator_pk = None, ini_minipool_address = None\<rparr> [[1]])\<rparr>"

lemma start_without_peers:
  "carry_out N L E A S D toy_world (StartInitiator ini [[1]]) s =
    (Err ''StartInitializer: Insufficient operators discovered for DKG'', s)"
  by (simp add: start_initiator_def toy_world_def liftO_def)

theorem failed_command_is_lost_witness:
  "contract_commands (nd_db (snd (process_contract_command toy_node_lib toy_blst toy_secp toy_chan slots32 toy_slash 0 5 toy_world
    (toy_node_state (insert_contract_command 1 4 ''start'' (Database_new True)))))) = []"
proof -
  let ?d = "insert_contract_command 1 4 ''start'' (Database_new True)"
  let ?s = "toy_node_state ?d"
  let ?u = "updatetime_contract_command 5 1 ?d"
  have d: "contract_commands ?d = [\<lparr>cc_id = 1, cc_owner = 4, cc_sequence_num = 1, cc_command = ''start'', cc_update_time = 1\<rparr>]"
    by (simp add: insert_contract_command_def increase_va_sequence_def Database_new_def Let_def)
  then have g: "get_contract_command 0 5 (nd_db ?s) = (Ok (''start'', 1), ?u)"
    by (simp add: get_contract_command_def select_command_def first_by_def toy_node_state_def)
  have c: "de_cmd toy_node_lib ''start'' = Inr (StartInitiator \<lparr>ini_id = 4, ini_owner_address = [], ini_releated_operators = [1],
    ini_validator_pk = None, ini_minipool_address = None\<rparr> [[1]])" by (simp add: toy_node_lib_def)
  have "process_contract_command toy_node_lib toy_blst toy_secp toy_chan slots32 toy_slash 0 5 toy_world ?s =
      (Ok (), (?s\<lparr>nd_db := ?u\<rparr>)\<lparr>nd_db := delete_contract_command 1 (nd_db (?s\<lparr>nd_db := ?u\<rparr>))\<rparr>)"
    by (rule failed_command_is_lost [THEN conjunct1, OF g _ c start_without_peers]) simp
  moreover have "contract_commands (delete_contract_command 1 ?u) = []"
    using d by (simp add: delete_contract_command_def updatetime_contract_command_def)
  ultimately show ?thesis by simp
qed

section \<open>The monitor of addresses\<close>

text \<open>Every address that discovery knows is current afterwards and keeps its port, the others stay, and a
  restart is asked for exactly when an address has changed.\<close>

definition current_address :: "(bytes \<Rightarrow> IpAddr option) \<Rightarrow> u16 \<Rightarrow> PublicKey \<Rightarrow> SocketAddr option \<Rightarrow> SocketAddr option" where
  "current_address q p k a = (case q k of
      None \<Rightarrow> a
    | Some i \<Rightarrow> Some (SocketAddr i (case a of Some s \<Rightarrow> port s | None \<Rightarrow> p)))"

lemma refresh_current:
  assumes "refresh_addresses q p ks as = Ok (as', restart)"
  shows "as' = map2 (current_address q p) ks as @ drop (length ks) as \<and> (restart \<longleftrightarrow> as' \<noteq> as)"
  using assms
proof (induction q p ks as arbitrary: as' restart rule: refresh_addresses.induct)
  case (3 q p k ks a as)
  then obtain as1 r1 where r: "refresh_addresses q p ks as = Ok (as1, r1)" by (auto simp: bindO_Ok_iff)
  from 3(1) [OF r] 3(2) r show ?case
    by (cases a) (auto simp: current_address_def dest: arg_cong [of _ _ ip] split: option.splits if_splits)
qed (auto split: if_splits)

lemma refresh_stable:
  assumes "refresh_addresses q p ks as = Ok (as', restart)"
  shows "refresh_addresses q p ks as' = Ok (as', False)"
  using assms
proof (induction q p ks as arbitrary: as' restart rule: refresh_addresses.induct)
  case (2 q p k ks)
  then show ?case using refresh_current [of q p ks "[]" as' restart] by (auto split: if_splits)
next
  case (3 q p k ks a as)
  then obtain as1 r1 where r: "refresh_addresses q p ks as = Ok (as1, r1)" by (auto simp: bindO_Ok_iff)
  from 3(1) [OF r] 3(2) r show ?case by (auto split: option.splits if_splits)
qed auto

text \<open>When the changed definition cannot be saved, later rounds with the same addresses neither save it nor
  restart the validator.\<close>

lemma failed_save_not_repeated:
  assumes "refresh_addresses (ne_query_ip W) (nd_base_port s) (ocd_node_public_keys d) (ocd_base_socket_addresses d) =
      Ok (as, restart)"
    and "ne_save_committee W = Inl e" "ne_query_ip W' = ne_query_ip W"
  shows "committee_ip_round W others (d, s) = (Ok (), (d\<lparr>ocd_base_socket_addresses := as\<rparr>, s)) \<and>
    committee_ip_round W' others' (d\<lparr>ocd_base_socket_addresses := as\<rparr>, s) = (Ok (), (d\<lparr>ocd_base_socket_addresses := as\<rparr>, s))"
  using assms refresh_stable [OF assms(1)] by (simp add: committee_ip_round_def act_simps)

end
