(* ===== verification/Spec2Isabelle.thy ===== *)
theory Spec2Isabelle
  imports ConsensusProps StoreProps TaskProps NetworkProps MempoolProps Elgamal OperatorProps NodeProps
begin

text \<open>
  \<^bold>\<open>The SafeStake operator: a verification development.\<close>

  \<^bold>\<open>The program.\<close>  The keys of an Ethereum validator are split among a committee of operators.  Each
  operator runs a node, which is a Lighthouse validator client with a signing method of its own.  Events
  of a smart contract tell the node which validators it takes part in; they become commands in a local
  database, and carrying out such a command decrypts the node's key share and starts the validator.  To
  fulfil a duty, an operator signs with its share and publishes the share's signature; a leader lets the
  committee agree by HotStuff on the root to sign, collects the signatures of the others, and combines
  a threshold of them to the signature of the validator.  Keys that belong to no single party are
  generated by the operators together.

  \<^bold>\<open>Conventions.\<close>  The development is a shallow embedding.  A fallible computation is an \<open>outcome\<close>: a value, an
  error, a panic, or no result (\<open>Diverge\<close>).  A stateful function is an action (\<open>act\<close>) from a state to an
  outcome and a state.  A task is a step function on its state and an event; the order of messages, time,
  and the answers of sockets and files are the sequence of events, over which the theorems quantify.
  Machine integers are words, which wrap.  Hash maps are association lists with unique keys.  A crate that
  is not part of the repository is a record of functions, and what its documentation promises is a named
  predicate (\<open>sig_ok\<close>, \<open>rocks_ok\<close>, \<open>field_ok\<close>, \<open>cipher_ok\<close>, \<open>slash_ok\<close> and so on), which the theorems assume and
  which concrete instances of the records satisfy.

  \<^bold>\<open>Shared theories.\<close>
  \<^item> \<open>Prelude\<close>: machine types, outcomes, actions, and the locales \<open>state_preorder\<close> and \<open>state_invariant\<close>, whose
    rules carry a relation between states through composite actions.  Every component that proves an
    invariant interprets one of them.
  \<^item> \<open>Quorum\<close>: the locales \<open>quorum_system\<close> and \<open>round_robin\<close>.  The committees of consensus and mempool and both
    leader elections interpret them.
  \<^item> \<open>Collector\<close>: the locale \<open>vote_collector\<close>, the contract of a certificate maker.

  \<^bold>\<open>HotStuff (\<open>src/hotstuff\<close>).\<close>
  \<^item> \<open>HsCrypto\<close> (\<open>crypto\<close>): digests, keys, signatures and batch verification.
  \<^item> \<open>Store\<close>, \<open>StoreProps\<close> (\<open>store\<close>): the task of the key-value store.  No reader waits for a key that is
    present, and a waiting reader gets the first value written.
  \<^item> \<open>Committee\<close>, \<open>Messages\<close>, \<open>Wire\<close>, \<open>Aggregator\<close>, \<open>Core\<close> (\<open>consensus/src/config.rs\<close>, \<open>leader.rs\<close>,
    \<open>messages.rs\<close>, \<open>aggregator.rs\<close>, \<open>core.rs\<close>, and the parts of \<open>synchronizer.rs\<close> and \<open>mempool.rs\<close> that run
    inside the core).  \<open>CoreLemmas\<close>, \<open>CoreCommit\<close> and \<open>CoreVotes\<close> prove what the handlers keep, what a commit
    sends and which votes a block can cause; \<open>ConsensusProps\<close> states the properties: votes follow the
    safety rules, certificates share an honest voter, a commit needs two consecutive rounds, every event
    is processed with enough fuel, and what hostile messages can do.  \<open>Samples\<close> has concrete instances.
  \<^item> \<open>ConsensusTasks\<close>, \<open>TaskProps\<close> (\<open>proposer.rs\<close>, \<open>helper.rs\<close>, \<open>synchronizer.rs\<close>, \<open>mempool.rs\<close>,
    \<open>consensus.rs\<close>): the tasks around the core and the path of a message between two nodes.
  \<^item> \<open>Network\<close>, \<open>SimpleSender\<close>, \<open>Receiver\<close>, \<open>NetworkProps\<close> (\<open>network\<close>): the reliable sender refines a queue that
    loses nothing.
  \<^item> \<open>Mempool\<close>, \<open>MempoolProps\<close> (\<open>mempool\<close>): batches contain exactly the transactions received, and a batch
    that is announced is held by a quorum.

  \<^bold>\<open>Keys (\<open>src/src/crypto\<close>, \<open>src/src/math\<close>, \<open>src/src/network\<close>).\<close>
  \<^item> \<open>Modular\<close>, \<open>BlstLib\<close>, \<open>Threshold\<close>, \<open>ThresholdProps\<close>: interpolation modulo the order of the curve, the
    wrappers of the curve library, polynomials, commitments, key splitting and aggregation.  Evaluating
    commitments commits to the value.
  \<^item> \<open>SecureIo\<close>, \<open>Dkg\<close>, \<open>DkgProps\<close>: the channels of the parties and the phases of the key generation.  The
    keys of the parties sign for the group key when no dealer's polynomial has too many coefficients; a
    share is accepted exactly when it is right; and one claim can frame a dealer before all judges.
  \<^item> \<open>Elgamal\<close>: encryption of shares under the key of an operator, and its inverse.

  \<^bold>\<open>The node (\<open>src/src/node\<close>).\<close>
  \<^item> \<open>NodeDb\<close>, \<open>NodeDbProps\<close> (\<open>db.rs\<close>): the tables and every command of the database task.  The command handed
    out is the oldest of its owner.
  \<^item> \<open>Contract\<close>, \<open>ContractProps\<close> (\<open>contract.rs\<close>): the handlers of the events, the task that reads logs and the
    monitor of paid blocks.  With at most 20 events of a kind between two rounds, the limit of the queries,
    every event is handled once and in order; events beyond the limit and during an outage are lost.
  \<^item> \<open>NodeMain\<close>, \<open>NodeProps\<close> (\<open>node.rs\<close>, \<open>utils.rs\<close>): the task that carries out commands, all its handlers, the
    cleanup, and the monitor of addresses.  A start command installs the share that was encrypted for
    this operator; a command that fails is deleted.
  \<^item> \<open>DvfCore\<close> (\<open>dvfcore.rs\<close>): the signer, the signature service and the task that reads committed blocks.

  \<^bold>\<open>The validator client (\<open>src/src/validation\<close>).\<close>
  \<^item> \<open>Operators\<close>, \<open>OperatorProps\<close> (\<open>operator.rs\<close>, \<open>operator_committees.rs\<close>, \<open>impls/hotstuff.rs\<close>): the committee
    signs as the validator does, stored signatures are served, calls of consensus return, and the core
    task reports the committed messages.
  \<^item> \<open>Doppelganger\<close> (\<open>doppelganger_service.rs\<close>): signing needs an epoch in which no other client was seen;
    when the client is shut down, and which error the service returns otherwise.
  \<^item> \<open>Validators\<close>, \<open>ValidatorProps\<close> (\<open>initialized_validators.rs\<close>, \<open>key_cache.rs\<close>, \<open>validator_definitions.rs\<close>):
    definitions, key cache and the set of validators.  A stopped validator stays stopped, unless its key
    has a second enabled definition, and the key cache gives back what was saved.
  \<^item> \<open>ValidatorStore\<close>, \<open>ValidatorStoreProps\<close> (\<open>validator_store.rs\<close>, \<open>signing_method.rs\<close>): every signing
    operation, each as one step.  Nothing slashable is signed, and a stopped validator whose key has no
    second enabled definition signs nothing.

  \<^bold>\<open>Fuel.\<close>  One loop of the code takes fuel, the pruning of old blocks in the core (\<open>prune_loop\<close>).  The depth
  of pruning, one step for each stored key and three more are enough (\<open>fuel_ok\<close>), so that every step of the
  core ends.  The prompt for a password and the wait for a validator store give \<open>Diverge\<close> when what they
  wait for never comes, as the code then does not return.

  \<^bold>\<open>Not modelled.\<close>
  \<^item> The duty services (attestations, blocks, sync committees, preparation, fallback between beacon nodes):
    nearly every line calls the API of Lighthouse, a git submodule without content here.  What they ask of
    the validator store is covered, since its theorems hold for arbitrary sequences of requests.
  \<^item> Discovery, which asks the discv5 network and boot nodes; its answers are arguments of the handlers.
  \<^item> The HTTP API, metrics, command lines, the start of tasks (\<open>Node::new\<close>, \<open>main.rs\<close>), configuration files and
    the formats of keystores: input and output through libraries.
  \<^item> Deposits and exits: calls of the beacon client; their results are arguments of the node's handlers.
  \<^item> The search for keystores in directories, and import and export of the slashing protection database.
  \<^item> The simulator, the examples and the tests.
\<close>

end
